(* ===== verification/Prelude.thy ===== *)
theory Prelude
  imports Main "HOL-Library.List_Lexorder" "HOL-Library.Char_ord" "HOL-Library.Multiset"
begin

text \<open>
  What the components share: the Go standard library as far as the service uses it (strings,
  times, maps and their iteration order, \<open>sort.Slice\<close>), the collections of simplification
  rules of the development, and the generic lemmas on options, maps and lists.
\<close>

section \<open>Collections of rules\<close>

text \<open>\<open>go_simps\<close> unfolds the helpers of this theory; \<open>const_simps\<close> the string constants of
  the domain; \<open>frame_simps\<close> holds the facts that say which fields an operation leaves alone.\<close>

named_theorems go_simps \<open>helpers of the Go standard library\<close>
named_theorems const_simps \<open>string constants of the domain\<close>
named_theorems frame_simps \<open>fields an operation does not change\<close>

section \<open>Times\<close>

text \<open>A \<open>time.Time\<close> is its distance in nanoseconds from the zero time of Go, so \<open>IsZero\<close>
  is equality with \<open>0\<close>, and \<open>Before\<close> and \<open>After\<close> are the orders of \<open>int\<close>. A
  \<open>time.Duration\<close> is a number of nanoseconds; the difference of two times saturates at the
  bounds of \<open>int64\<close>, as \<open>Time.Sub\<close> does.\<close>

type_synonym time = int
type_synonym duration = int

definition max_duration :: duration where
  "max_duration = 2 ^ 63 - 1"

definition min_duration :: duration where
  "min_duration = - (2 ^ 63)"

definition time_sub :: "time \<Rightarrow> time \<Rightarrow> duration" where
  "time_sub a b = max min_duration (min max_duration (a - b))"

abbreviation second :: duration where
  "second \<equiv> 1000000000"

abbreviation millisecond :: duration where
  "millisecond \<equiv> 1000000"

lemma time_sub_exceeds [go_simps]:
  "0 \<le> d \<Longrightarrow> d < max_duration \<Longrightarrow> time_sub a b > d \<longleftrightarrow> a - b > d"
  by (auto simp: time_sub_def max_duration_def min_duration_def)

section \<open>Strings\<close>

text \<open>A Go string is its list of bytes. The upper-casing and trimming below are those of the
  standard library on ASCII bytes, which is what currency codes and configuration hold.\<close>

definition is_lower_char :: "char \<Rightarrow> bool" where
  "is_lower_char c \<longleftrightarrow> 97 \<le> (of_char c :: nat) \<and> (of_char c :: nat) \<le> 122"

definition upper_char :: "char \<Rightarrow> char" where
  "upper_char c = (if is_lower_char c then char_of ((of_char c :: nat) - 32) else c)"

definition ToUpper :: "string \<Rightarrow> string" where
  "ToUpper s = map upper_char s"

definition is_space_char :: "char \<Rightarrow> bool" where
  "is_space_char c \<longleftrightarrow> (of_char c :: nat) \<in> {9, 10, 11, 12, 13, 32}"

definition TrimSpace :: "string \<Rightarrow> string" where
  "TrimSpace s = rev (dropWhile is_space_char (rev (dropWhile is_space_char s)))"

text \<open>\<open>strings.Split\<close> with a separator of one byte: always at least one part.\<close>

fun Split :: "char \<Rightarrow> string \<Rightarrow> string list" where
  "Split sep [] = [[]]"
| "Split sep (c # s) =
     (if c = sep then [] # Split sep s
      else (case Split sep s of [] \<Rightarrow> [[c]] | p # ps \<Rightarrow> (c # p) # ps))"

definition HasSuffix :: "string \<Rightarrow> string \<Rightarrow> bool" where
  "HasSuffix s suf \<longleftrightarrow> length suf \<le> length s \<and> drop (length s - length suf) s = suf"

definition TrimSuffix :: "string \<Rightarrow> string \<Rightarrow> string" where
  "TrimSuffix s suf = (if HasSuffix s suf then take (length s - length suf) s else s)"

lemma Split_not_Nil [simp]: "Split sep s \<noteq> []"
  by (induction s) (auto split: list.splits)

lemma upper_char_idem [simp]: "upper_char (upper_char c) = upper_char c"
proof (cases "is_lower_char c")
  case True
  then have "(of_char (char_of ((of_char c :: nat) - 32) :: char) :: nat) = of_char c - 32"
    by (auto simp: is_lower_char_def of_char_of)
  with True show ?thesis
    by (auto simp: upper_char_def is_lower_char_def)
next
  case False
  then show ?thesis by (simp add: upper_char_def)
qed

lemma ToUpper_idem [simp]: "ToUpper (ToUpper s) = ToUpper s"
  by (simp add: ToUpper_def)

lemma ToUpper_Nil_iff [simp]: "ToUpper s = [] \<longleftrightarrow> s = []"
  by (simp add: ToUpper_def)

lemma TrimSuffix_append [simp]: "TrimSuffix (s @ suf) suf = s"
  by (simp add: TrimSuffix_def HasSuffix_def)

section \<open>Maps\<close>

text \<open>Reading a key that is absent gives the zero value of the element type. A loop
  \<open>for k, v := range m\<close> visits every key once in an order the language does not fix: the
  definitions that range over a map take the order as an argument, and the properties hold for
  every order that \<open>enumerates\<close> the keys.\<close>

definition lookup_or :: "'v \<Rightarrow> ('k \<rightharpoonup> 'v) \<Rightarrow> 'k \<Rightarrow> 'v" where
  "lookup_or z m k = (case m k of None \<Rightarrow> z | Some v \<Rightarrow> v)"

definition enumerates :: "'k list \<Rightarrow> ('k \<rightharpoonup> 'v) \<Rightarrow> bool" where
  "enumerates ks m \<longleftrightarrow> distinct ks \<and> set ks = dom m"

lemma lookup_or_upd [simp]: "lookup_or z (m(k \<mapsto> v)) k' = (if k' = k then v else lookup_or z m k')"
  by (simp add: lookup_or_def)

lemma lookup_or_empty [simp]: "lookup_or z Map.empty k = z"
  by (simp add: lookup_or_def)

lemma lookup_or_Some [simp]: "m k = Some v \<Longrightarrow> lookup_or z m k = v"
  by (simp add: lookup_or_def)

lemma lookup_or_None [simp]: "m k = None \<Longrightarrow> lookup_or z m k = z"
  by (simp add: lookup_or_def)

lemma enumerates_mset_eq: "enumerates ks m \<Longrightarrow> enumerates ks' m \<Longrightarrow> mset ks = mset ks'"
  unfolding enumerates_def by (metis set_eq_iff_mset_eq_distinct)

lemma enumerates_mem: "enumerates ks m \<Longrightarrow> k \<in> set ks \<longleftrightarrow> m k \<noteq> None"
  by (auto simp: enumerates_def)

section \<open>Sorting\<close>

text \<open>\<open>sort.Slice\<close> is not stable: it returns some permutation that is ascending in the key.
  A sort is an argument of the operations that call it; \<open>sorts_by\<close> is what the library
  documents, and \<open>sort_key\<close> is one such sort.\<close>

definition sorts_by :: "('a \<Rightarrow> 'k::linorder) \<Rightarrow> ('a list \<Rightarrow> 'a list) \<Rightarrow> bool" where
  "sorts_by key srt \<longleftrightarrow> (\<forall>xs. mset (srt xs) = mset xs \<and> sorted (map key (srt xs)))"

lemma sorts_by_sort_key [simp]: "sorts_by key (sort_key key)"
  by (simp add: sorts_by_def)

lemma sorts_by_mset: "sorts_by key srt \<Longrightarrow> mset (srt xs) = mset xs"
  by (simp add: sorts_by_def)

lemma sorts_by_set: "sorts_by key srt \<Longrightarrow> set (srt xs) = set xs"
  by (metis sorts_by_mset set_mset_mset)

lemma sorts_by_sorted: "sorts_by key srt \<Longrightarrow> sorted (map key (srt xs))"
  by (simp add: sorts_by_def)

text \<open>Among elements with distinct keys there is one ascending permutation, so every sort finds it.\<close>

lemma sorts_by_eqI:
  assumes "sorts_by key srt" and "mset xs = mset ys" and "distinct (map key ys)" and "sorted (map key ys)"
  shows "srt xs = ys"
proof -
  have m: "mset (srt xs) = mset ys" and s: "sorted (map key (srt xs))"
    using assms(1,2) by (simp_all add: sorts_by_def)
  have "map key (srt xs) = sort (map key ys)"
    using m s by (metis mset_map properties_for_sort)
  also have "\<dots> = map key ys"
    using assms(4) by (simp add: sort_key_id_if_sorted)
  finally have eq: "map key (srt xs) = map key ys" .
  have "inj_on key (set (srt xs) \<union> set ys)"
    using assms(3) m by (metis distinct_map mset_eq_setD sup.idem)
  with eq show ?thesis
    by (rule map_inj_on)
qed

section \<open>Sums over lists\<close>

lemma sum_list_map_filter_le_abs:
  "(\<Sum>x\<leftarrow>xs. f x) = (\<Sum>x\<leftarrow>filter P xs. f x) + (\<Sum>x\<leftarrow>filter (\<lambda>x. \<not> P x) xs. f x)"
  for f :: "'a \<Rightarrow> 'b::comm_monoid_add"
  by (induction xs) (auto simp: algebra_simps)

end
