(* ===== verification/Float64.thy ===== *)
theory Float64
  imports Prelude Complex_Main "HOL-Library.Log_Nat"
begin

text \<open>
  The type \<open>float64\<close> of Go: IEEE-754 binary64 with rounding to nearest, ties to even. A finite
  value is the rational number it denotes, so the two zeros are one value: no operation of the
  service tells them apart (it never divides by a zero and never prints a signed one). Every
  arithmetic operation computes the exact rational result and rounds it once; no operation is
  fused with another, as on amd64.
\<close>

section \<open>Values and rounding\<close>

datatype float64 = NaN | PosInf | NegInf | Fin rat

definition pow2 :: "int \<Rightarrow> rat" where
  "pow2 e = (if 0 \<le> e then 2 ^ nat e else 1 / 2 ^ nat (- e))"

definition round_half_even :: "rat \<Rightarrow> int" where
  "round_half_even x =
     (let f = \<lfloor>x\<rfloor>; r = x - of_int f in
      if r < 1 / 2 then f else if 1 / 2 < r then f + 1 else if even f then f else f + 1)"

text \<open>The binary exponent of a positive number: \<open>pow2 e \<le> x < pow2 (e + 1)\<close>.\<close>

definition exponent_of :: "rat \<Rightarrow> int" where
  "exponent_of x =
     (let (n, d) = quotient_of x; e = bitlen n - bitlen d in
      if pow2 e \<le> x then e else e - 1)"

text \<open>53 bits of significand, least exponent \<open>-1074\<close>, overflow to an infinity.\<close>

definition fround :: "rat \<Rightarrow> float64" where
  "fround x =
     (if x = 0 then Fin 0
      else
        let a = \<bar>x\<bar>;
            q = max (exponent_of a - 52) (-1074);
            r = of_int (round_half_even (a / pow2 q)) * pow2 q
        in if pow2 1024 \<le> r then (if 0 < x then PosInf else NegInf) else Fin (sgn x * r))"

section \<open>Comparisons\<close>

text \<open>Every comparison with a NaN is false.\<close>

fun f_lt :: "float64 \<Rightarrow> float64 \<Rightarrow> bool" where
  "f_lt NaN _ = False"
| "f_lt _ NaN = False"
| "f_lt (Fin x) (Fin y) = (x < y)"
| "f_lt (Fin _) PosInf = True"
| "f_lt (Fin _) NegInf = False"
| "f_lt NegInf y = (y \<noteq> NegInf)"
| "f_lt PosInf _ = False"

definition f_eq :: "float64 \<Rightarrow> float64 \<Rightarrow> bool" where
  "f_eq a b \<longleftrightarrow> a \<noteq> NaN \<and> a = b"

definition f_le :: "float64 \<Rightarrow> float64 \<Rightarrow> bool" where
  "f_le a b \<longleftrightarrow> f_lt a b \<or> f_eq a b"

section \<open>Arithmetic\<close>

fun f_neg :: "float64 \<Rightarrow> float64" where
  "f_neg NaN = NaN"
| "f_neg PosInf = NegInf"
| "f_neg NegInf = PosInf"
| "f_neg (Fin x) = Fin (- x)"

fun f_add :: "float64 \<Rightarrow> float64 \<Rightarrow> float64" where
  "f_add (Fin x) (Fin y) = fround (x + y)"
| "f_add NaN _ = NaN"
| "f_add _ NaN = NaN"
| "f_add PosInf NegInf = NaN"
| "f_add NegInf PosInf = NaN"
| "f_add PosInf _ = PosInf"
| "f_add _ PosInf = PosInf"
| "f_add NegInf _ = NegInf"
| "f_add _ NegInf = NegInf"

definition f_sub :: "float64 \<Rightarrow> float64 \<Rightarrow> float64" where
  "f_sub a b = f_add a (f_neg b)"

definition inf_of_sign :: "rat \<Rightarrow> float64" where
  "inf_of_sign s = (if s = 0 then NaN else if 0 < s then PosInf else NegInf)"

fun f_mul :: "float64 \<Rightarrow> float64 \<Rightarrow> float64" where
  "f_mul (Fin x) (Fin y) = fround (x * y)"
| "f_mul NaN _ = NaN"
| "f_mul _ NaN = NaN"
| "f_mul PosInf PosInf = PosInf"
| "f_mul PosInf NegInf = NegInf"
| "f_mul NegInf PosInf = NegInf"
| "f_mul NegInf NegInf = PosInf"
| "f_mul PosInf (Fin y) = inf_of_sign y"
| "f_mul NegInf (Fin y) = inf_of_sign (- y)"
| "f_mul (Fin x) PosInf = inf_of_sign x"
| "f_mul (Fin x) NegInf = inf_of_sign (- x)"

text \<open>The divisors of the service are never zero; a zero divisor is read as the positive
  zero.\<close>

fun f_div :: "float64 \<Rightarrow> float64 \<Rightarrow> float64" where
  "f_div (Fin x) (Fin y) = (if y = 0 then inf_of_sign x else fround (x / y))"
| "f_div NaN _ = NaN"
| "f_div _ NaN = NaN"
| "f_div (Fin _) _ = Fin 0"
| "f_div PosInf (Fin y) = (if 0 \<le> y then PosInf else NegInf)"
| "f_div NegInf (Fin y) = (if 0 \<le> y then NegInf else PosInf)"
| "f_div _ _ = NaN"

text \<open>A constant of the source is the nearest float; \<open>float64(n)\<close> of an integer likewise.\<close>

definition f_of_int :: "int \<Rightarrow> float64" where
  "f_of_int n = fround (of_int n)"

abbreviation f_zero :: float64 where
  "f_zero \<equiv> Fin 0"

abbreviation f_one :: float64 where
  "f_one \<equiv> Fin 1"

definition f_finite :: "float64 \<Rightarrow> bool" where
  "f_finite a \<longleftrightarrow> (\<exists>x. a = Fin x)"

section \<open>Facts\<close>

lemma f_lt_irrefl [simp]: "\<not> f_lt a a"
  by (cases a) auto

lemma f_le_refl [simp]: "f_le a a \<longleftrightarrow> a \<noteq> NaN"
  by (simp add: f_le_def f_eq_def)

lemma f_le_Fin [simp]: "f_le (Fin x) (Fin y) \<longleftrightarrow> x \<le> y"
  by (auto simp: f_le_def f_eq_def)

lemma f_le_Inf [simp]:
  "f_le (Fin x) PosInf" "\<not> f_le (Fin x) NegInf" "\<not> f_le PosInf (Fin x)" "f_le NegInf (Fin x)"
  by (auto simp: f_le_def f_eq_def)

lemma pow2_pos [simp]: "0 < pow2 e"
  by (simp add: pow2_def)

lemma pow2_nz [simp]: "pow2 e \<noteq> 0"
  by (metis pow2_pos less_irrefl)

lemma pow2_Suc: "pow2 (e + 1) = 2 * pow2 e"
proof -
  consider "0 \<le> e" | "e = -1" | "e < -1" by linarith
  then show ?thesis
  proof cases
    case 1
    then show ?thesis by (simp add: pow2_def nat_add_distrib)
  next
    case 2
    then show ?thesis by (simp add: pow2_def)
  next
    case 3
    then have "nat (- e) = Suc (nat (- (e + 1)))" by simp
    with 3 show ?thesis by (simp add: pow2_def)
  qed
qed

lemma round_half_even_nonneg: "0 \<le> x \<Longrightarrow> 0 \<le> round_half_even x"
  by (auto simp: round_half_even_def Let_def intro: add_nonneg_nonneg)

lemma round_half_even_of_int [simp]: "round_half_even (of_int n) = n"
  by (simp add: round_half_even_def)

lemma fround_0 [simp]: "fround 0 = f_zero"
  by (simp add: fround_def)

lemma fround_not_NaN [simp]: "fround x \<noteq> NaN"
  by (simp add: fround_def Let_def)

text \<open>Rounding keeps the sign.\<close>

lemma fround_nonneg: "0 \<le> x \<Longrightarrow> f_le f_zero (fround x)"
proof -
  assume x: "0 \<le> x"
  let ?q = "max (exponent_of \<bar>x\<bar> - 52) (-1074)"
  have "0 \<le> round_half_even (\<bar>x\<bar> / pow2 ?q)"
    by (rule round_half_even_nonneg) (simp add: order_less_imp_le)
  then have "0 \<le> of_int (round_half_even (\<bar>x\<bar> / pow2 ?q)) * pow2 ?q"
    by (simp add: order_less_imp_le)
  with x show ?thesis
    by (auto simp: fround_def Let_def sgn_if)
qed

lemma fround_minus: "fround (- x) = f_neg (fround x)"
  by (auto simp: fround_def Let_def sgn_if)

lemma fround_nonpos: "x \<le> 0 \<Longrightarrow> f_le (fround x) f_zero"
  using fround_nonneg [of "- x"] by (cases "fround x") (auto simp: fround_minus)


lemma f_lt_NaN [simp]: "\<not> f_lt a NaN"
  by (cases a) auto

lemma f_le_NaN [simp]: "\<not> f_le a NaN" "\<not> f_le NaN a"
  by (auto simp: f_le_def f_eq_def)

lemma f_lt_imp_le: "f_lt a b \<Longrightarrow> f_le a b"
  by (simp add: f_le_def)

lemma f_not_lt: "a \<noteq> NaN \<Longrightarrow> b \<noteq> NaN \<Longrightarrow> \<not> f_lt a b \<longleftrightarrow> f_le b a"
  by (cases a; cases b) (auto simp: f_le_def f_eq_def)

lemma f_lt_trans: "f_lt a b \<Longrightarrow> f_lt b c \<Longrightarrow> f_lt a c"
  by (cases a; cases b; cases c) auto

lemma f_le_trans: "f_le a b \<Longrightarrow> f_le b c \<Longrightarrow> f_le a c"
  by (cases a; cases b; cases c) (auto simp: f_le_def f_eq_def)

text \<open>Between two finite bounds a value is finite.\<close>

lemma f_between_Fin:
  assumes "f_le (Fin x) a" and "f_le a (Fin y)"
  obtains z where "a = Fin z" and "x \<le> z" and "z \<le> y"
  using assms by (cases a) (auto simp: f_le_def f_eq_def)

lemma f_finite_code [code]: "f_finite x = (case x of Fin _ \<Rightarrow> True | _ \<Rightarrow> False)"
  by (auto simp: f_finite_def split: float64.splits)

lemma f_finite_Fin [simp]: "f_finite (Fin x)"
  by (simp add: f_finite_def)

lemma f_finite_cases: "f_finite a \<longleftrightarrow> a \<noteq> NaN \<and> a \<noteq> PosInf \<and> a \<noteq> NegInf"
  by (cases a) (auto simp: f_finite_def)

end
