(* ===== verification/Decimal.thy ===== *)
theory Decimal
  imports Float64
begin

text \<open>
  The package \<open>github.com/shopspring/decimal\<close> is not part of the repository, so its type and
  its functions are parameters of the model. The type \<open>decimal.Decimal\<close> is a type variable
  \<open>'d\<close> of class \<open>linordered_idom\<close>: this is what the service relies on of the exact operations
  \<open>Add\<close>, \<open>Sub\<close>, \<open>Mul\<close>, \<open>Neg\<close>, \<open>Abs\<close>, \<open>Cmp\<close> and its derived comparisons, \<open>IsZero\<close> and
  \<open>NewFromInt\<close> (\<open>of_int\<close>); the zero value of the struct is \<open>0\<close>. The functions that round,
  convert or can panic are the fields of \<open>decimal_pkg\<close>, an argument of every definition that
  calls them.
\<close>

section \<open>The package\<close>

text \<open>\<open>NewFromFloat\<close> is \<open>None\<close> where the function panics. \<open>Div\<close> is called with divisors the
  callers have checked to be non-zero.\<close>

record 'd decimal_pkg =
  NewFromFloat :: "float64 \<Rightarrow> 'd option"
  InexactFloat64 :: "'d \<Rightarrow> float64"
  DivRound :: "'d \<Rightarrow> 'd \<Rightarrow> 'd"
  DecString :: "'d \<Rightarrow> string"
  NewFromString :: "string \<Rightarrow> 'd option"

text \<open>What the package documents. \<open>NewFromFloat\<close> panics on NaN and the infinities and on nothing
  else; it gives the shortest decimal that reads back as the float, so it keeps the order, is
  exact on the integers a float holds exactly, and on the constant \<open>1e-9\<close>.\<close>

definition float_1e_9 :: float64 where
  "float_1e_9 = fround (1 / 10 ^ 9)"

definition decimal_ok :: "'d::linordered_idom decimal_pkg \<Rightarrow> bool" where
  "decimal_ok D \<longleftrightarrow>
     (\<forall>f. NewFromFloat D f = None \<longleftrightarrow> \<not> f_finite f) \<and>
     (\<forall>x y a b. NewFromFloat D (Fin x) = Some a \<longrightarrow> NewFromFloat D (Fin y) = Some b \<longrightarrow>
        x \<le> y \<longrightarrow> a \<le> b) \<and>
     (\<forall>n. \<bar>n\<bar> \<le> 2 ^ 53 \<longrightarrow> NewFromFloat D (Fin (of_int n)) = Some (of_int n)) \<and>
     (\<exists>e. NewFromFloat D float_1e_9 = Some e \<and> e * 10 ^ 9 = 1)"

section \<open>Facts\<close>

lemma decimal_panics: "decimal_ok D \<Longrightarrow> NewFromFloat D f = None \<longleftrightarrow> \<not> f_finite f"
  by (simp add: decimal_ok_def)

lemma decimal_finite: "decimal_ok D \<Longrightarrow> \<exists>a. NewFromFloat D (Fin x) = Some a"
  by (metis decimal_panics f_finite_Fin not_None_eq)

lemma decimal_int:
  "decimal_ok D \<Longrightarrow> \<bar>n\<bar> \<le> 2 ^ 53 \<Longrightarrow> NewFromFloat D (Fin (of_int n)) = Some (of_int n)"
  by (simp add: decimal_ok_def)

lemma decimal_0: "decimal_ok D \<Longrightarrow> NewFromFloat D (Fin 0) = Some 0"
  using decimal_int [of D 0] by simp

lemma decimal_1: "decimal_ok D \<Longrightarrow> NewFromFloat D (Fin 1) = Some 1"
  using decimal_int [of D 1] by simp

lemma decimal_mono:
  "decimal_ok D \<Longrightarrow> NewFromFloat D (Fin x) = Some a \<Longrightarrow> NewFromFloat D (Fin y) = Some b \<Longrightarrow>
     x \<le> y \<Longrightarrow> a \<le> b"
  unfolding decimal_ok_def by blast

lemma decimal_nonneg:
  "decimal_ok D \<Longrightarrow> NewFromFloat D (Fin x) = Some a \<Longrightarrow> 0 \<le> x \<Longrightarrow> 0 \<le> a"
  using decimal_mono decimal_0 by blast

lemma decimal_le_1:
  "decimal_ok D \<Longrightarrow> NewFromFloat D (Fin x) = Some a \<Longrightarrow> x \<le> 1 \<Longrightarrow> a \<le> 1"
  using decimal_mono decimal_1 by blast

lemma decimal_epsilon:
  assumes "decimal_ok D"
  obtains e where "NewFromFloat D float_1e_9 = Some e" and "e * 10 ^ 9 = 1" and "0 < e"
proof -
  from assms obtain e where e: "NewFromFloat D float_1e_9 = Some e" "e * 10 ^ 9 = 1"
    by (auto simp: decimal_ok_def)
  moreover have "0 < e"
  proof (rule ccontr)
    assume "\<not> 0 < e"
    then have "e * 10 ^ 9 \<le> 0" by (simp add: mult_nonpos_nonneg)
    with e(2) show False by simp
  qed
  ultimately show thesis by (rule that)
qed

section \<open>An instance\<close>

text \<open>Rationals rounded to 15 decimals are one package that has the documented properties; the
  witnesses compute with it. On the amounts, rates and ratios they use it gives the same
  decimals as the shortest one that reads back. Printing and parsing are left trivial, since no
  witness looks at a printed amount.\<close>

definition round_dec :: "nat \<Rightarrow> rat \<Rightarrow> rat" where
  "round_dec k x = of_int \<lfloor>x * 10 ^ k + 1 / 2\<rfloor> / 10 ^ k"

definition rat_NewFromFloat :: "float64 \<Rightarrow> rat option" where
  "rat_NewFromFloat f = (case f of Fin x \<Rightarrow> Some (round_dec 15 x) | _ \<Rightarrow> None)"

definition rat_decimal :: "rat decimal_pkg" where
  "rat_decimal =
     \<lparr>NewFromFloat = rat_NewFromFloat, InexactFloat64 = fround,
      DivRound = (\<lambda>a b. round_dec 16 (a / b)), DecString = (\<lambda>_. []), NewFromString = (\<lambda>_. None)\<rparr>"

lemma round_dec_mono: "x \<le> y \<Longrightarrow> round_dec k x \<le> round_dec k y"
  by (simp add: round_dec_def divide_right_mono floor_mono)

lemma round_dec_of_int [simp]: "round_dec k (of_int n) = of_int n"
proof -
  have "\<lfloor>(of_int (n * 10 ^ k) :: rat) + 1 / 2\<rfloor> = n * 10 ^ k"
    by (rule floor_unique) simp_all
  then show ?thesis by (simp add: round_dec_def)
qed

lemma round_dec_numeral [simp]:
  "round_dec k (numeral n) = numeral n" "round_dec k (- numeral n) = - numeral n"
  "round_dec k 0 = 0" "round_dec k 1 = 1"
  using round_dec_of_int [of k "numeral n"] round_dec_of_int [of k "- numeral n"]
    round_dec_of_int [of k 0] round_dec_of_int [of k 1] by simp_all

lemma round_dec_nine_tenths [simp]: "round_dec 15 (8106479329266893 / 9007199254740992) = 9 / 10"
  by code_simp

lemma rat_float_1e_9: "rat_NewFromFloat float_1e_9 = Some (1 / 10 ^ 9)"
  by code_simp

lemma rat_decimal_ok [simp]: "decimal_ok rat_decimal"
  using rat_float_1e_9
  by (auto simp: decimal_ok_def rat_decimal_def rat_NewFromFloat_def f_finite_def round_dec_mono
      split: float64.splits)

lemma rat_decimal_epsilon [simp]: "NewFromFloat rat_decimal float_1e_9 = Some (1 / 10 ^ 9)"
  by (simp add: rat_decimal_def rat_float_1e_9)

lemma rat_decimal_NewFromFloat [simp]:
  "NewFromFloat rat_decimal (Fin x) = Some (round_dec 15 x)"
  by (simp add: rat_decimal_def rat_NewFromFloat_def)

end
