(* ===== verification/Domain.thy ===== *)
theory Domain
  imports Decimal
begin

text \<open>
  The data types of \<open>internal/domain/types.go\<close>. A struct is a record whose fields carry the
  names of the source behind a prefix per struct, since field names share one name space. The
  named string types \<open>HedgeStatus\<close>, \<open>Tenor\<close> and \<open>HedgeType\<close> stay strings: the handlers convert
  any string of a request to them and check it afterwards.
\<close>

type_synonym HedgeStatus = string
type_synonym Tenor = string
type_synonym HedgeType = string

definition StatusPending :: HedgeStatus where
  "StatusPending = ''PENDING''"

definition StatusExecuting :: HedgeStatus where
  "StatusExecuting = ''EXECUTING''"

definition StatusExecuted :: HedgeStatus where
  "StatusExecuted = ''EXECUTED''"

definition StatusFailed :: HedgeStatus where
  "StatusFailed = ''FAILED''"

definition TenorSpot :: Tenor where
  "TenorSpot = ''SPOT''"

definition TenorForward :: Tenor where
  "TenorForward = ''FORWARD''"

definition TypeSpot :: HedgeType where
  "TypeSpot = ''SPOT''"

definition TypeForward :: HedgeType where
  "TypeForward = ''FORWARD''"

definition IsValidTenor :: "Tenor \<Rightarrow> bool" where
  "IsValidTenor t \<longleftrightarrow> t = TenorSpot \<or> t = TenorForward"

definition IsValidHedgeType :: "HedgeType \<Rightarrow> bool" where
  "IsValidHedgeType t \<longleftrightarrow> t = TypeSpot \<or> t = TypeForward"

record 'd Exposure =
  e_Currency :: string
  e_NetAmount :: 'd
  e_HedgeCoverage :: 'd
  e_OpenAmount :: 'd
  e_UpdatedAt :: time

record 'd Fill =
  fl_HedgeID :: string
  fl_Venue :: string
  fl_VenueTradeID :: string
  fl_Price :: 'd
  fl_Amount :: 'd
  fl_Timestamp :: time

record 'd Hedge =
  h_ID :: string
  h_Currency :: string
  h_Notional :: 'd
  h_Tenor :: Tenor
  h_Type :: HedgeType
  h_Status :: HedgeStatus
  h_QuotedRate :: 'd
  h_Fills :: "'d Fill list"
  h_SlippageBPS :: float64
  h_PnL :: 'd
  h_ClientRequestID :: string
  h_PolicyRatio :: float64
  h_PolicyCapUSD :: 'd
  h_CapBreached :: bool
  h_ValueDate :: time
  h_Venue :: string
  h_CreatedAt :: time
  h_UpdatedAt :: time

record 'd PnLComponent =
  pc_HedgePnL :: 'd
  pc_SpotPnL :: 'd
  pc_SlippageCost :: 'd

record 'd PnL =
  pl_Currency :: string
  pl_Realized :: 'd
  pl_Unrealized :: 'd
  pl_Total :: 'd
  pl_Components :: "'d PnLComponent"

record 'd SlippageSample =
  ss_Pair :: string
  ss_QuotedRate :: 'd
  ss_ExecutedRate :: 'd
  ss_SlippageBPS :: float64
  ss_Timestamp :: time

record 'd HedgeDecision =
  hd_Currency :: string
  hd_Notional :: 'd
  hd_TenorHint :: Tenor
  hd_BlockedByCap :: bool
  hd_Reason :: string

record 'd ExposureEvent =
  ev_EventID :: string
  ev_Currency :: string
  ev_Amount :: 'd
  ev_Source :: string
  ev_At :: time

record 'd SettlementObligation =
  so_Currency :: string
  so_Amount :: 'd
  so_Legs :: int
  so_At :: time

section \<open>Facts\<close>

lemmas status_defs [const_simps] =
  StatusPending_def StatusExecuting_def StatusExecuted_def StatusFailed_def

lemmas tenor_defs [const_simps] =
  TenorSpot_def TenorForward_def TypeSpot_def TypeForward_def

lemma status_distinct [simp]:
  "StatusPending \<noteq> StatusExecuting" "StatusPending \<noteq> StatusExecuted" "StatusPending \<noteq> StatusFailed"
  "StatusExecuting \<noteq> StatusExecuted" "StatusExecuting \<noteq> StatusFailed"
  "StatusExecuted \<noteq> StatusFailed" "StatusFailed \<noteq> StatusExecuted" "StatusExecuting \<noteq> StatusPending"
  "StatusExecuted \<noteq> StatusPending" "StatusFailed \<noteq> StatusPending"
  "StatusExecuted \<noteq> StatusExecuting" "StatusFailed \<noteq> StatusExecuting"
  by (simp_all add: const_simps)

lemma valid_tenors [simp]: "IsValidTenor TenorSpot" "IsValidTenor TenorForward"
  by (simp_all add: IsValidTenor_def)

lemma valid_types [simp]: "IsValidHedgeType TypeSpot" "IsValidHedgeType TypeForward"
  by (simp_all add: IsValidHedgeType_def)

lemma tenor_neq [simp]: "TenorSpot \<noteq> TenorForward" "TenorForward \<noteq> TenorSpot"
  by (simp_all add: const_simps)

end
