(* ===== verification/Tracker.thy ===== *)
theory Tracker
  imports Domain
begin

text \<open>
  The exposure tracker of \<open>internal/exposure/tracker.go\<close>: the signed net amount and the hedge
  coverage per currency, the ids of the events already applied, and the subscribers that receive
  a snapshot of every update. Every method holds the mutex for its whole body, so a method is one
  function of the state. A reading of the clock is an argument. The theory states the interface
  the handlers rely on as the locale \<open>exposure_book\<close> and interprets it on the tracker.
\<close>

section \<open>State\<close>

text \<open>A subscriber is a buffered channel. The channels live in a heap beside the set of those that
  are subscribed, since a channel keeps its buffer after it is unsubscribed.\<close>

record 'd chan =
  ch_cap :: nat
  ch_buf :: "'d Exposure list"

record 'd tracker =
  tr_net :: "string \<rightharpoonup> 'd"
  tr_coverage :: "string \<rightharpoonup> 'd"
  tr_updatedAt :: "string \<rightharpoonup> time"
  tr_seen :: "string set"
  tr_subs :: "nat set"
  tr_chans :: "nat \<Rightarrow> 'd chan"

definition tracker_New :: "'d tracker" where
  "tracker_New =
     \<lparr>tr_net = Map.empty, tr_coverage = Map.empty, tr_updatedAt = Map.empty, tr_seen = {},
      tr_subs = {}, tr_chans = (\<lambda>_. \<lparr>ch_cap = 0, ch_buf = []\<rparr>)\<rparr>"

section \<open>Operations\<close>

text \<open>The \<open>select\<close> with a default: send if there is room in the buffer, drop otherwise.\<close>

definition chan_send :: "'d Exposure \<Rightarrow> 'd chan \<Rightarrow> 'd chan" where
  "chan_send snap ch =
     (if length (ch_buf ch) < ch_cap ch then ch\<lparr>ch_buf := ch_buf ch @ [snap]\<rparr> else ch)"

definition notify :: "'d Exposure \<Rightarrow> 'd tracker \<Rightarrow> 'd tracker" where
  "notify snap t =
     t\<lparr>tr_chans := (\<lambda>c. if c \<in> tr_subs t then chan_send snap (tr_chans t c) else tr_chans t c)\<rparr>"

definition snapshotLocked :: "time \<Rightarrow> 'd::linordered_idom tracker \<Rightarrow> string \<Rightarrow> 'd Exposure" where
  "snapshotLocked now t currency =
     (let updated0 = lookup_or 0 (tr_updatedAt t) currency;
          updated = (if updated0 = 0 then now else updated0)
      in \<lparr>e_Currency = currency,
          e_NetAmount = lookup_or 0 (tr_net t) currency,
          e_HedgeCoverage = lookup_or 0 (tr_coverage t) currency,
          e_OpenAmount = lookup_or 0 (tr_net t) currency - lookup_or 0 (tr_coverage t) currency,
          e_UpdatedAt = updated\<rparr>)"

definition applyDelta :: "time \<Rightarrow> 'd::linordered_idom tracker \<Rightarrow> string \<Rightarrow> 'd \<Rightarrow> 'd tracker" where
  "applyDelta now t currency amount =
     (let t1 = t\<lparr>tr_net := (tr_net t)(currency \<mapsto> lookup_or 0 (tr_net t) currency + amount)\<rparr>;
          t2 = t1\<lparr>tr_updatedAt := (tr_updatedAt t1)(currency \<mapsto> now)\<rparr>
      in notify (snapshotLocked now t2 currency) t2)"

definition AddExposure :: "time \<Rightarrow> 'd::linordered_idom tracker \<Rightarrow> string \<Rightarrow> 'd \<Rightarrow> 'd tracker" where
  "AddExposure now t currency amount = applyDelta now t currency amount"

definition AddEvent ::
  "time \<Rightarrow> 'd::linordered_idom tracker \<Rightarrow> 'd ExposureEvent \<Rightarrow> bool \<times> 'd tracker" where
  "AddEvent now t e =
     (if ev_EventID e \<noteq> [] then
        if ev_EventID e \<in> tr_seen t then (False, t)
        else (True, applyDelta now (t\<lparr>tr_seen := insert (ev_EventID e) (tr_seen t)\<rparr>)
                      (ev_Currency e) (ev_Amount e))
      else (True, applyDelta now t (ev_Currency e) (ev_Amount e)))"

definition AddCoverage :: "time \<Rightarrow> 'd::linordered_idom tracker \<Rightarrow> string \<Rightarrow> 'd \<Rightarrow> 'd tracker" where
  "AddCoverage now t currency amount =
     (let t1 = t\<lparr>tr_coverage := (tr_coverage t)(currency \<mapsto> lookup_or 0 (tr_coverage t) currency + amount)\<rparr>;
          t2 = t1\<lparr>tr_updatedAt := (tr_updatedAt t1)(currency \<mapsto> now)\<rparr>
      in notify (snapshotLocked now t2 currency) t2)"

definition Subscribe :: "'d tracker \<Rightarrow> nat \<Rightarrow> 'd tracker" where
  "Subscribe t ch = t\<lparr>tr_subs := insert ch (tr_subs t)\<rparr>"

definition Unsubscribe :: "'d tracker \<Rightarrow> nat \<Rightarrow> 'd tracker" where
  "Unsubscribe t ch = t\<lparr>tr_subs := tr_subs t - {ch}\<rparr>"

definition Seen :: "'d tracker \<Rightarrow> string \<Rightarrow> bool" where
  "Seen t eventID \<longleftrightarrow> eventID \<in> tr_seen t"

definition GetExposure :: "time \<Rightarrow> 'd::linordered_idom tracker \<Rightarrow> string \<Rightarrow> 'd Exposure option" where
  "GetExposure now t currency =
     (case tr_net t currency of None \<Rightarrow> None | Some net \<Rightarrow>
        (let coverage = lookup_or 0 (tr_coverage t) currency;
             open1 = net - coverage;
             updated0 = lookup_or 0 (tr_updatedAt t) currency;
             updated = (if updated0 = 0 then now else updated0)
         in Some \<lparr>e_Currency = currency, e_NetAmount = net, e_HedgeCoverage = coverage,
                  e_OpenAmount = open1, e_UpdatedAt = updated\<rparr>))"

text \<open>\<open>AllExposures\<close> ranges over the two maps in the orders \<open>ns\<close> and \<open>cs\<close>; a currency of the
  second loop is skipped when the first has added it.\<close>

definition exposure_row :: "'d::linordered_idom tracker \<Rightarrow> string \<Rightarrow> 'd Exposure" where
  "exposure_row t ccy =
     \<lparr>e_Currency = ccy, e_NetAmount = lookup_or 0 (tr_net t) ccy,
      e_HedgeCoverage = lookup_or 0 (tr_coverage t) ccy,
      e_OpenAmount = lookup_or 0 (tr_net t) ccy - lookup_or 0 (tr_coverage t) ccy,
      e_UpdatedAt = lookup_or 0 (tr_updatedAt t) ccy\<rparr>"

fun all_exposures_loop ::
  "'d::linordered_idom tracker \<Rightarrow> string list \<Rightarrow> string set \<times> 'd Exposure list \<Rightarrow> string set \<times> 'd Exposure list"
where
  "all_exposures_loop t [] acc = acc"
| "all_exposures_loop t (ccy # rest) (seen, out) =
     (if ccy \<in> seen then all_exposures_loop t rest (seen, out)
      else all_exposures_loop t rest (insert ccy seen, out @ [exposure_row t ccy]))"

definition AllExposures ::
  "string list \<Rightarrow> string list \<Rightarrow> 'd::linordered_idom tracker \<Rightarrow> 'd Exposure list" where
  "AllExposures ns cs t =
     (let first = (set ns, map (exposure_row t) ns)
      in snd (all_exposures_loop t cs first))"

section \<open>The state after an update\<close>

lemmas tracker_op_defs = AddExposure_def AddCoverage_def applyDelta_def notify_def Let_def

lemma notify_fields [frame_simps, simp]:
  "tr_net (notify s t) = tr_net t" "tr_coverage (notify s t) = tr_coverage t"
  "tr_updatedAt (notify s t) = tr_updatedAt t" "tr_seen (notify s t) = tr_seen t"
  "tr_subs (notify s t) = tr_subs t"
  by (simp_all add: notify_def)

lemma applyDelta_fields [frame_simps, simp]:
  "tr_net (applyDelta now t c x) = (tr_net t)(c \<mapsto> lookup_or 0 (tr_net t) c + x)"
  "tr_coverage (applyDelta now t c x) = tr_coverage t"
  "tr_updatedAt (applyDelta now t c x) = (tr_updatedAt t)(c \<mapsto> now)"
  "tr_seen (applyDelta now t c x) = tr_seen t"
  "tr_subs (applyDelta now t c x) = tr_subs t"
  by (simp_all add: applyDelta_def Let_def)

lemma AddExposure_fields [frame_simps, simp]:
  "tr_net (AddExposure now t c x) = (tr_net t)(c \<mapsto> lookup_or 0 (tr_net t) c + x)"
  "tr_coverage (AddExposure now t c x) = tr_coverage t"
  "tr_seen (AddExposure now t c x) = tr_seen t"
  "tr_subs (AddExposure now t c x) = tr_subs t"
  by (simp_all add: AddExposure_def)

lemma AddCoverage_fields [frame_simps, simp]:
  "tr_coverage (AddCoverage now t c x) = (tr_coverage t)(c \<mapsto> lookup_or 0 (tr_coverage t) c + x)"
  "tr_net (AddCoverage now t c x) = tr_net t"
  "tr_updatedAt (AddCoverage now t c x) = (tr_updatedAt t)(c \<mapsto> now)"
  "tr_seen (AddCoverage now t c x) = tr_seen t"
  "tr_subs (AddCoverage now t c x) = tr_subs t"
  by (simp_all add: AddCoverage_def Let_def)

lemma AddEvent_fields [frame_simps]:
  "tr_coverage (snd (AddEvent now t e)) = tr_coverage t"
  "tr_seen (snd (AddEvent now t e)) =
     (if ev_EventID e = [] then tr_seen t else insert (ev_EventID e) (tr_seen t))"
  "tr_subs (snd (AddEvent now t e)) = tr_subs t"
  by (auto simp: AddEvent_def)

text \<open>The net amount and the coverage of a currency, with the zero value for an absent one.\<close>

abbreviation net_of :: "'d::linordered_idom tracker \<Rightarrow> string \<Rightarrow> 'd" where
  "net_of t c \<equiv> lookup_or 0 (tr_net t) c"

abbreviation cov_of :: "'d::linordered_idom tracker \<Rightarrow> string \<Rightarrow> 'd" where
  "cov_of t c \<equiv> lookup_or 0 (tr_coverage t) c"

lemma GetExposure_Some:
  "GetExposure now t c = Some e \<Longrightarrow>
     e_Currency e = c \<and> e_NetAmount e = net_of t c \<and> e_HedgeCoverage e = cov_of t c \<and>
     e_OpenAmount e = net_of t c - cov_of t c"
  by (auto simp: GetExposure_def Let_def split: option.splits)

lemma GetExposure_None_iff: "GetExposure now t c = None \<longleftrightarrow> tr_net t c = None"
  by (auto simp: GetExposure_def Let_def split: option.splits)

section \<open>Histories of a tracker\<close>

datatype 'd tracker_op =
    TAddExposure time string 'd
  | TAddEvent time "'d ExposureEvent"
  | TAddCoverage time string 'd
  | TSubscribe nat
  | TUnsubscribe nat

fun tracker_step :: "'d::linordered_idom tracker_op \<Rightarrow> 'd tracker \<Rightarrow> 'd tracker" where
  "tracker_step (TAddExposure now c x) t = AddExposure now t c x"
| "tracker_step (TAddEvent now e) t = snd (AddEvent now t e)"
| "tracker_step (TAddCoverage now c x) t = AddCoverage now t c x"
| "tracker_step (TSubscribe ch) t = Subscribe t ch"
| "tracker_step (TUnsubscribe ch) t = Unsubscribe t ch"

abbreviation tracker_run :: "'d::linordered_idom tracker_op list \<Rightarrow> 'd tracker \<Rightarrow> 'd tracker" where
  "tracker_run ops t \<equiv> fold tracker_step ops t"

text \<open>The flows and the hedges of a history, as lists of signed amounts: what an accountant would
  add up, with an event counted when its id is empty or has not occurred before.\<close>

fun effective_flows :: "string set \<Rightarrow> 'd tracker_op list \<Rightarrow> (string \<times> 'd) list" where
  "effective_flows S [] = []"
| "effective_flows S (TAddExposure now c x # ops) = (c, x) # effective_flows S ops"
| "effective_flows S (TAddEvent now e # ops) =
     (if ev_EventID e = [] then (ev_Currency e, ev_Amount e) # effective_flows S ops
      else if ev_EventID e \<in> S then effective_flows S ops
      else (ev_Currency e, ev_Amount e) # effective_flows (insert (ev_EventID e) S) ops)"
| "effective_flows S (_ # ops) = effective_flows S ops"

fun hedge_amounts :: "'d tracker_op list \<Rightarrow> (string \<times> 'd) list" where
  "hedge_amounts [] = []"
| "hedge_amounts (TAddCoverage now c x # ops) = (c, x) # hedge_amounts ops"
| "hedge_amounts (_ # ops) = hedge_amounts ops"

definition total_of :: "string \<Rightarrow> (string \<times> 'd::linordered_idom) list \<Rightarrow> 'd" where
  "total_of c xs = (\<Sum>(c', x)\<leftarrow>xs. if c' = c then x else 0)"

lemma total_of_simps [simp]:
  "total_of c [] = 0" "total_of c ((c', x) # xs) = (if c' = c then x else 0) + total_of c xs"
  by (simp_all add: total_of_def)

lemma tracker_run_net:
  "net_of (tracker_run ops t) c = net_of t c + total_of c (effective_flows (tr_seen t) ops)"
  by (induction "tr_seen t" ops arbitrary: t rule: effective_flows.induct)
    (auto simp: AddEvent_def Subscribe_def Unsubscribe_def)

lemma tracker_run_cov:
  "cov_of (tracker_run ops t) c = cov_of t c + total_of c (hedge_amounts ops)"
  by (induction ops arbitrary: t rule: hedge_amounts.induct)
    (auto simp: AddEvent_fields Subscribe_def Unsubscribe_def)

lemma tracker_run_seen:
  "tr_seen (tracker_run ops t) =
     tr_seen t \<union> {ev_EventID e | now e. TAddEvent now e \<in> set ops \<and> ev_EventID e \<noteq> []}"
proof (induction ops arbitrary: t)
  case (Cons x ops)
  then show ?case
    by (cases x) (auto simp: AddEvent_fields Subscribe_def Unsubscribe_def)
qed simp

text \<open>A currency has a net entry once some flow of it was applied.\<close>

lemma tracker_run_dom:
  "dom (tr_net (tracker_run ops t)) = dom (tr_net t) \<union> fst ` set (effective_flows (tr_seen t) ops)"
  by (induction "tr_seen t" ops arbitrary: t rule: effective_flows.induct)
    (auto simp: AddEvent_def Subscribe_def Unsubscribe_def)

section \<open>Exactly-once effect of events\<close>

text \<open>The part of an event the net amount depends on.\<close>

definition ev_key :: "'d ExposureEvent \<Rightarrow> string \<times> string \<times> 'd" where
  "ev_key e = (ev_EventID e, ev_Currency e, ev_Amount e)"

abbreviation feed :: "(time \<times> 'd::linordered_idom ExposureEvent) list \<Rightarrow> 'd tracker \<Rightarrow> 'd tracker" where
  "feed es t \<equiv> tracker_run (map (\<lambda>(now, e). TAddEvent now e) es) t"

definition ids_consistent :: "'d ExposureEvent set \<Rightarrow> bool" where
  "ids_consistent E \<longleftrightarrow> (\<forall>e\<in>E. ev_EventID e \<noteq> []) \<and> inj_on fst (ev_key ` E)"

lemma split_first_key:
  assumes "inj_on fst (insert k0 K)" and "fst k0 \<notin> S"
  shows "{k \<in> insert k0 K. fst k \<notin> S} = insert k0 {k \<in> K. fst k \<notin> insert (fst k0) S}"
proof -
  have "k = k0" if "k \<in> K" and "fst k = fst k0" for k
    using inj_onD [OF assms(1) that(2)] that(1) by simp
  with assms(2) show ?thesis by auto
qed

lemma feed_net_set:
  assumes "ids_consistent (snd ` set es)"
  shows "net_of (feed es t) c =
    net_of t c + (\<Sum>(i, cc, x)\<in>{k \<in> ev_key ` snd ` set es. fst k \<notin> tr_seen t}. if cc = c then x else 0)"
  using assms
proof (induction es arbitrary: t)
  case Nil
  then show ?case by simp
next
  case (Cons te es)
  obtain now e where te: "te = (now, e)" by (cases te)
  let ?K = "ev_key ` snd ` set es"
  let ?g = "\<lambda>(i, cc, x). if cc = c then x else 0"
  have con: "ids_consistent (snd ` set es)" and ne: "ev_EventID e \<noteq> []"
    and inj: "inj_on fst (insert (ev_key e) ?K)"
    using Cons.prems by (auto simp: ids_consistent_def te inj_on_def)
  show ?case
  proof (cases "ev_EventID e \<in> tr_seen t")
    case True
    then have "{k \<in> insert (ev_key e) ?K. fst k \<notin> tr_seen t} = {k \<in> ?K. fst k \<notin> tr_seen t}"
      by (auto simp: ev_key_def)
    with True ne Cons.IH [OF con, of t] show ?thesis
      by (simp add: te AddEvent_def)
  next
    case False
    let ?t = "applyDelta now (t\<lparr>tr_seen := insert (ev_EventID e) (tr_seen t)\<rparr>) (ev_Currency e) (ev_Amount e)"
    let ?R = "{k \<in> ?K. fst k \<notin> insert (ev_EventID e) (tr_seen t)}"
    have split: "{k \<in> insert (ev_key e) ?K. fst k \<notin> tr_seen t} = insert (ev_key e) ?R"
      using split_first_key [OF inj, of "tr_seen t"] False by (simp add: ev_key_def)
    have seen: "tr_seen ?t = insert (ev_EventID e) (tr_seen t)" by simp
    have fin: "finite ?R" by simp
    have notin: "ev_key e \<notin> ?R" by (simp add: ev_key_def)
    have sum: "sum ?g (insert (ev_key e) ?R) = ?g (ev_key e) + sum ?g ?R"
      using fin notin by (rule sum.insert)
    have "net_of (feed (te # es) t) c = net_of (feed es ?t) c"
      using False ne by (simp add: te AddEvent_def)
    also have "\<dots> = net_of ?t c + sum ?g ?R"
      using Cons.IH [OF con, of ?t] by (simp only: seen)
    also have "net_of ?t c = net_of t c + ?g (ev_key e)"
      by (simp add: ev_key_def)
    finally show ?thesis
      by (simp only: te split sum add.assoc list.simps image_insert snd_conv)
  qed
qed

lemma sum_over_events:
  assumes "distinct (map ev_EventID evs)"
  shows "(\<Sum>(i, cc, x)\<in>{k \<in> ev_key ` set evs. fst k \<notin> S}. if cc = c then x else 0) =
    (\<Sum>e\<leftarrow>filter (\<lambda>e. ev_Currency e = c \<and> ev_EventID e \<notin> S) evs. ev_Amount e)"
  using assms
proof (induction evs)
  case (Cons e evs)
  let ?g = "\<lambda>(i, cc, x). if cc = c then x else 0" and ?K = "{k \<in> ev_key ` set evs. fst k \<notin> S}"
  have "ev_key e \<notin> ?K" using Cons.prems by (auto simp: ev_key_def)
  then have "sum ?g (insert (ev_key e) ?K) = ?g (ev_key e) + sum ?g ?K" by simp
  moreover have "{k \<in> ev_key ` set (e # evs). fst k \<notin> S} = (if ev_EventID e \<in> S then ?K else insert (ev_key e) ?K)"
    by (auto simp: ev_key_def)
  ultimately show ?case using Cons by (simp add: ev_key_def)
qed simp

text \<open>C13. At-least-once delivery of events with non-empty ids has exactly-once effect: let \<open>evs\<close> be a list of events with
  distinct ids; whenever each of them was delivered at least once and nothing else was, in any order,
  any number of times and at any times, the net amount has grown by the amount of each event of the
  currency that was new, once, and every id is recorded. A repeated id stands for the same
  currency and amount.\<close>

theorem events_exactly_once:
  assumes "distinct (map ev_EventID evs)" and "[] \<notin> ev_EventID ` set evs" and "ev_key ` snd ` set es = ev_key ` set evs"
  shows "net_of (feed es t) c = net_of t c + (\<Sum>e\<leftarrow>filter (\<lambda>e. ev_Currency e = c \<and> \<not> Seen t (ev_EventID e)) evs. ev_Amount e) \<and>
    (\<forall>e\<in>set evs. Seen (feed es t) (ev_EventID e))"
proof -
  have ids: "ev_EventID ` snd ` set es = ev_EventID ` set evs"
    using arg_cong [OF assms(3), of "(`) fst"] by (simp add: image_image ev_key_def)
  have "inj_on fst (ev_key ` set evs)"
    using assms(1) by (auto simp: distinct_map inj_on_def ev_key_def)
  moreover have "\<forall>e\<in>snd ` set es. ev_EventID e \<noteq> []" using assms(2) ids by (metis image_eqI)
  ultimately have "ids_consistent (snd ` set es)" using assms(3) by (simp add: ids_consistent_def)
  from feed_net_set [OF this, of t c] have "net_of (feed es t) c = net_of t c +
      (\<Sum>e\<leftarrow>filter (\<lambda>e. ev_Currency e = c \<and> \<not> Seen t (ev_EventID e)) evs. ev_Amount e)"
    unfolding assms(3) sum_over_events [OF assms(1)] by (simp add: Seen_def)
  moreover have "Seen (feed es t) (ev_EventID e)" if "e \<in> set evs" for e
  proof -
    have "ev_EventID e \<in> ev_EventID ` snd ` set es" using that unfolding ids by (rule imageI)
    then obtain now e' where "(now, e') \<in> set es" "ev_EventID e' = ev_EventID e" by auto
    moreover have "ev_EventID e \<noteq> []" using that assms(2) by force
    ultimately show ?thesis by (force simp: Seen_def tracker_run_seen)
  qed
  ultimately show ?thesis by blast
qed

definition sample_event :: "string \<Rightarrow> rat \<Rightarrow> rat ExposureEvent" where
  "sample_event i x = \<lparr>ev_EventID = i, ev_Currency = ''EUR'', ev_Amount = x, ev_Source = [], ev_At = 0\<rparr>"

theorem events_exactly_once_witness:
  "net_of (feed [(1, sample_event ''a'' 5), (2, sample_event ''b'' 7), (3, sample_event ''a'' 5)] tracker_New) ''EUR'' = 12"
  using events_exactly_once [of "[sample_event ''a'' 5, sample_event ''b'' 7]"
      "[(1, sample_event ''a'' 5), (2, sample_event ''b'' 7), (3, sample_event ''a'' 5)]" tracker_New "''EUR''"]
  by (simp add: sample_event_def insert_commute Seen_def tracker_New_def)

lemma AddEvent_seen: "ev_EventID e \<noteq> [] \<Longrightarrow> ev_EventID e \<in> tr_seen t \<Longrightarrow> AddEvent now t e = (False, t)"
  by (simp add: AddEvent_def)

text \<open>Replaying events whose ids were seen leaves the whole state of the tracker as it was, so
  subscribers see nothing either.\<close>

theorem replay_is_noop:
  assumes "\<forall>(now, e)\<in>set dup. ev_EventID e \<noteq> [] \<and> Seen t (ev_EventID e)"
  shows "feed dup t = t"
  using assms by (induction dup) (auto simp: AddEvent_seen Seen_def)

theorem replay_is_noop_witness:
  "feed [(7, sample_event ''a'' 99)] (feed [(1, sample_event ''a'' 5)] tracker_New) =
   feed [(1, sample_event ''a'' 5)] tracker_New"
  by (rule replay_is_noop) (simp add: Seen_def AddEvent_def sample_event_def)

text \<open>C33. The tracker refines the ledger of a history: after any sequence of operations on a new
  tracker the net amount of a currency is the sum of its effective flows, the coverage the sum
  of its hedges, \<open>GetExposure\<close> reports both with the open amount as their difference, and it
  reports nothing exactly for the currencies without an effective flow.\<close>

theorem tracker_refines_ledger:
  fixes ops :: "'d::linordered_idom tracker_op list"
  defines "t \<equiv> tracker_run ops tracker_New"
  shows "net_of t c = total_of c (effective_flows {} ops) \<and>
    cov_of t c = total_of c (hedge_amounts ops) \<and>
    (case GetExposure now t c of
       None \<Rightarrow> c \<notin> fst ` set (effective_flows {} ops)
     | Some e \<Rightarrow> c \<in> fst ` set (effective_flows {} ops) \<and>
         e_NetAmount e = total_of c (effective_flows {} ops) \<and>
         e_HedgeCoverage e = total_of c (hedge_amounts ops) \<and>
         e_OpenAmount e = total_of c (effective_flows {} ops) - total_of c (hedge_amounts ops))"
proof -
  have n: "net_of t c = total_of c (effective_flows {} ops)"
    and v: "cov_of t c = total_of c (hedge_amounts ops)"
    and d: "dom (tr_net t) = fst ` set (effective_flows {} ops)"
    unfolding t_def tracker_run_net tracker_run_cov tracker_run_dom
    by (simp_all add: tracker_New_def)
  have "tr_net t c = None \<longleftrightarrow> c \<notin> fst ` set (effective_flows {} ops)"
    by (simp only: d [symmetric]) auto
  then show ?thesis
    using n v GetExposure_Some [of now t c] GetExposure_None_iff [of now t c]
    by (auto split: option.splits)
qed

section \<open>Views\<close>

lemma all_exposures_loop_eq:
  "distinct cs \<Longrightarrow>
   snd (all_exposures_loop t cs (S, out)) = out @ map (exposure_row t) (filter (\<lambda>c. c \<notin> S) cs)"
proof (induction cs arbitrary: S out)
  case (Cons c cs)
  then have "filter (\<lambda>c'. c' \<notin> insert c S) cs = filter (\<lambda>c'. c' \<notin> S) cs"
    by (auto intro: filter_cong)
  with Cons show ?case by simp
qed simp

lemma AllExposures_eq:
  assumes "enumerates ns (tr_net t)" and "enumerates cs (tr_coverage t)"
  shows "AllExposures ns cs t = map (exposure_row t) (ns @ filter (\<lambda>c. c \<notin> dom (tr_net t)) cs)"
  using assms by (simp add: AllExposures_def enumerates_def all_exposures_loop_eq)

lemma exposure_row_Currency [simp]: "e_Currency (exposure_row t c) = c"
  by (simp add: exposure_row_def)

definition row_ok :: "time \<Rightarrow> 'd::linordered_idom tracker \<Rightarrow> 'd Exposure \<Rightarrow> bool" where
  "row_ok now t e \<longleftrightarrow>
     e_NetAmount e = net_of t (e_Currency e) \<and> e_HedgeCoverage e = cov_of t (e_Currency e) \<and>
     e_OpenAmount e = e_NetAmount e - e_HedgeCoverage e \<and>
     (case GetExposure now t (e_Currency e) of
        None \<Rightarrow> e_Currency e \<notin> dom (tr_net t) \<and> e_Currency e \<in> dom (tr_coverage t)
      | Some g \<Rightarrow> e_NetAmount g = e_NetAmount e \<and> e_HedgeCoverage g = e_HedgeCoverage e \<and>
          e_OpenAmount g = e_OpenAmount e)"

lemma exposure_row_ok:
  "c \<in> dom (tr_net t) \<union> dom (tr_coverage t) \<Longrightarrow> row_ok now t (exposure_row t c)"
  by (cases "tr_net t c") (auto simp: row_ok_def exposure_row_def GetExposure_def Let_def)

text \<open>\<open>AllExposures\<close> lists every currency with a net or a coverage entry exactly once,
  whatever the order in which the maps are traversed, each row with its open amount as the
  difference of its net amount and its coverage. \<open>GetExposure\<close> agrees on every currency with a
  net entry, but reports nothing for a currency that was hedged and never had a flow, although
  the list shows its coverage.\<close>

theorem AllExposures_complete:
  assumes "enumerates ns (tr_net t)" and "enumerates cs (tr_coverage t)"
  defines "rows \<equiv> AllExposures ns cs t"
  shows "distinct (map e_Currency rows) \<and>
    set (map e_Currency rows) = dom (tr_net t) \<union> dom (tr_coverage t) \<and>
    (\<forall>e\<in>set rows. row_ok now t e)"
proof -
  have rows: "rows = map (exposure_row t) (ns @ filter (\<lambda>c. c \<notin> dom (tr_net t)) cs)"
    unfolding rows_def using assms(1,2) by (rule AllExposures_eq)
  have ccy: "map e_Currency rows = ns @ filter (\<lambda>c. c \<notin> dom (tr_net t)) cs"
    by (simp add: rows comp_def)
  have ns: "distinct ns" "set ns = dom (tr_net t)" and cs: "distinct cs" "set cs = dom (tr_coverage t)"
    using assms(1,2) by (simp_all add: enumerates_def)
  have "distinct (map e_Currency rows)" and all: "set (map e_Currency rows) = dom (tr_net t) \<union> dom (tr_coverage t)"
    unfolding ccy using ns cs by auto
  moreover have "row_ok now t e" if "e \<in> set rows" for e
  proof -
    from that have "e = exposure_row t (e_Currency e)" by (auto simp: rows)
    moreover from that all have "e_Currency e \<in> dom (tr_net t) \<union> dom (tr_coverage t)" by auto
    ultimately show ?thesis using exposure_row_ok by metis
  qed
  ultimately show ?thesis by blast
qed

definition covered_only :: "rat tracker" where
  "covered_only = AddCoverage 2 (AddExposure 1 tracker_New ''EUR'' 100) ''GBP'' 40"

theorem AllExposures_complete_witness:
  "set (map e_Currency (AllExposures [''EUR''] [''GBP''] covered_only)) = {''EUR'', ''GBP''} \<and>
   GetExposure 3 covered_only ''GBP'' = None"
proof -
  have d: "dom (tr_net covered_only) = {''EUR''}" "dom (tr_coverage covered_only) = {''GBP''}"
    by (simp_all add: covered_only_def tracker_New_def)
  then have e: "enumerates [''EUR''] (tr_net covered_only)" "enumerates [''GBP''] (tr_coverage covered_only)"
    by (simp_all add: enumerates_def)
  have "set (map e_Currency (AllExposures [''EUR''] [''GBP''] covered_only)) =
      dom (tr_net covered_only) \<union> dom (tr_coverage covered_only)"
    using AllExposures_complete [OF e, of 3] by blast
  also have "\<dots> = {''EUR'', ''GBP''}"
    by (simp only: d Un_insert_left Un_empty_left)
  finally show ?thesis
    by (simp add: GetExposure_None_iff covered_only_def tracker_New_def)
qed

section \<open>Subscribers\<close>

text \<open>The snapshots an operation, and a history, offers to the subscribers.\<close>

fun step_snapshots :: "'d::linordered_idom tracker_op \<Rightarrow> 'd tracker \<Rightarrow> 'd Exposure list" where
  "step_snapshots (TAddExposure now c x) t = [snapshotLocked now (AddExposure now t c x) c]"
| "step_snapshots (TAddEvent now e) t =
     (if fst (AddEvent now t e) then [snapshotLocked now (snd (AddEvent now t e)) (ev_Currency e)] else [])"
| "step_snapshots (TAddCoverage now c x) t = [snapshotLocked now (AddCoverage now t c x) c]"
| "step_snapshots _ t = []"

fun run_snapshots :: "'d::linordered_idom tracker_op list \<Rightarrow> 'd tracker \<Rightarrow> 'd Exposure list" where
  "run_snapshots [] t = []"
| "run_snapshots (x # ops) t = step_snapshots x t @ run_snapshots ops (tracker_step x t)"

lemma snapshotLocked_notify [simp]: "snapshotLocked now (notify s t) c = snapshotLocked now t c"
  by (simp add: snapshotLocked_def)

lemma chans_notify:
  "ch \<in> tr_subs t \<Longrightarrow> tr_chans (notify s t) ch = chan_send s (tr_chans t ch)"
  "ch \<notin> tr_subs t \<Longrightarrow> tr_chans (notify s t) ch = tr_chans t ch"
  by (simp_all add: notify_def)

lemma tracker_step_chan:
  assumes "ch \<in> tr_subs t"
  shows "tr_chans (tracker_step x t) ch = fold chan_send (step_snapshots x t) (tr_chans t ch)"
  using assms
  by (cases x) (auto simp: AddExposure_def AddCoverage_def applyDelta_def AddEvent_def Let_def
      chans_notify Subscribe_def Unsubscribe_def)

lemma tracker_step_subs:
  "ch \<in> tr_subs t \<Longrightarrow> x \<noteq> TUnsubscribe ch \<Longrightarrow> ch \<in> tr_subs (tracker_step x t)"
  by (cases x) (auto simp: AddEvent_fields Subscribe_def Unsubscribe_def)

lemma tracker_run_chan:
  "ch \<in> tr_subs t \<Longrightarrow> TUnsubscribe ch \<notin> set ops \<Longrightarrow>
   tr_chans (tracker_run ops t) ch = fold chan_send (run_snapshots ops t) (tr_chans t ch)"
  by (induction ops arbitrary: t) (auto simp: tracker_step_chan tracker_step_subs)

lemma fold_chan_send:
  assumes "length (ch_buf ch) \<le> ch_cap ch"
  shows "fold chan_send xs ch = ch\<lparr>ch_buf := take (ch_cap ch) (ch_buf ch @ xs)\<rparr>"
  using assms
proof (induction xs arbitrary: ch)
  case (Cons x xs)
  show ?case
  proof (cases "length (ch_buf ch) < ch_cap ch")
    case True
    then show ?thesis
      using Cons.IH [of "ch\<lparr>ch_buf := ch_buf ch @ [x]\<rparr>"] by (simp add: chan_send_def)
  next
    case False
    then show ?thesis
      using Cons by (simp add: chan_send_def)
  qed
qed simp

text \<open>No update ever blocks on a subscriber: while a channel stays subscribed and nobody reads
  it, its buffer is what it held followed by the snapshots of the updates in order, cut at the
  capacity. So a slow reader keeps the oldest snapshots and loses the newest.\<close>

theorem subscriber_buffer:
  assumes "ch \<in> tr_subs t" and "TUnsubscribe ch \<notin> set ops"
    and "length (ch_buf (tr_chans t ch)) \<le> ch_cap (tr_chans t ch)"
  shows "ch_buf (tr_chans (tracker_run ops t) ch) =
    take (ch_cap (tr_chans t ch)) (ch_buf (tr_chans t ch) @ run_snapshots ops t)"
  by (simp only: tracker_run_chan [OF assms(1,2)] fold_chan_send [OF assms(3)]) simp

definition one_slot :: "rat tracker" where
  "one_slot = Subscribe (tracker_New\<lparr>tr_chans := (\<lambda>_. \<lparr>ch_cap = 1, ch_buf = []\<rparr>)\<rparr>) 0"

theorem subscriber_buffer_witness:
  "map e_NetAmount (ch_buf (tr_chans (tracker_run [TAddExposure 1 ''EUR'' 5, TAddExposure 2 ''EUR'' 7] one_slot) 0)) = [5]"
proof -
  have "ch_buf (tr_chans (tracker_run [TAddExposure 1 ''EUR'' 5, TAddExposure 2 ''EUR'' 7] one_slot) 0) =
    take (ch_cap (tr_chans one_slot 0))
      (ch_buf (tr_chans one_slot 0) @ run_snapshots [TAddExposure 1 ''EUR'' 5, TAddExposure 2 ''EUR'' 7] one_slot)"
    by (rule subscriber_buffer) (simp_all add: one_slot_def Subscribe_def)
  then show ?thesis
    by (simp add: one_slot_def Subscribe_def snapshotLocked_def tracker_New_def Let_def)
qed

section \<open>The interface of the handlers\<close>

text \<open>What the REST and gRPC handlers rely on: a view of a currency whose open amount is the
  difference of its net amount and its coverage, flows that move the net amount of their currency
  and of no other, and hedges that move the coverage. The lemmas of the locale are about the
  guard the handlers put before a flow.\<close>

locale exposure_book =
  fixes view :: "time \<Rightarrow> 's \<Rightarrow> string \<Rightarrow> ('d::linordered_idom) Exposure option"
    and flow :: "time \<Rightarrow> 's \<Rightarrow> string \<Rightarrow> 'd \<Rightarrow> 's"
    and hedge :: "time \<Rightarrow> 's \<Rightarrow> string \<Rightarrow> 'd \<Rightarrow> 's"
    and net_amount :: "'s \<Rightarrow> string \<Rightarrow> 'd"
    and cover_amount :: "'s \<Rightarrow> string \<Rightarrow> 'd"
  assumes view_Some: "view now s c = Some e \<Longrightarrow>
      e_NetAmount e = net_amount s c \<and> e_HedgeCoverage e = cover_amount s c \<and>
      e_OpenAmount e = net_amount s c - cover_amount s c"
    and view_None: "view now s c = None \<Longrightarrow> net_amount s c = 0"
    and net_flow: "net_amount (flow now s c x) c' = (if c' = c then net_amount s c + x else net_amount s c')"
    and cover_flow: "cover_amount (flow now s c x) = cover_amount s"
    and net_hedge: "net_amount (hedge now s c x) = net_amount s"
    and cover_hedge: "cover_amount (hedge now s c x) c' = (if c' = c then cover_amount s c + x else cover_amount s c')"
begin

definition open_amount :: "'s \<Rightarrow> string \<Rightarrow> 'd" where
  "open_amount s c = net_amount s c - cover_amount s c"

lemma open_flow: "open_amount (flow now s c x) c' = (if c' = c then open_amount s c + x else open_amount s c')"
  by (simp add: open_amount_def net_flow cover_flow)

lemma open_hedge: "open_amount (hedge now s c x) c' = (if c' = c then open_amount s c - x else open_amount s c')"
  by (simp add: open_amount_def net_hedge cover_hedge)

text \<open>A flow that passes the guard either stays within the cap or does not increase the open
  amount, so the guard never makes a breach and never makes one worse.\<close>

lemma guarded_flow:
  assumes "\<not> (cap < \<bar>open_amount s c + x\<bar> \<and> \<bar>open_amount s c\<bar> < \<bar>open_amount s c + x\<bar>)"
  shows "\<bar>open_amount (flow now s c x) c\<bar> \<le> max cap \<bar>open_amount s c\<bar>"
  using assms by (auto simp: open_flow max_def)

lemma hedge_closes:
  assumes "0 \<le> x" and "x \<le> open_amount s c"
  shows "\<bar>open_amount (hedge now s c x) c\<bar> = \<bar>open_amount s c\<bar> - x"
  using assms by (simp add: open_hedge)

end

interpretation book: exposure_book GetExposure AddExposure AddCoverage
  "\<lambda>t c. net_of t c" "\<lambda>t c. cov_of t c"
  by unfold_locales (auto simp: GetExposure_def Let_def split: option.splits)

end
