(* ===== verification/Settlement.thy ===== *)
theory Settlement
  imports Domain
begin

text \<open>
  The netting engine of \<open>internal/settlement/settlement.go\<close>: the loop that accumulates amounts,
  counts and latest times per currency, the loop that drops what nets to zero, and the sort. The
  lemmas relate the accumulating loop to sums over the legs of a currency and show that the
  result does not depend on the order in which Go ranges over the map.
\<close>

section \<open>Legs and the engine\<close>

record 'd Leg =
  lg_Currency :: string
  lg_Amount :: 'd
  lg_Source :: string
  lg_At :: time

record 'd net_acc =
  byCcy :: "string \<rightharpoonup> 'd"
  countByCcy :: "string \<rightharpoonup> int"
  latestByCcy :: "string \<rightharpoonup> time"

definition net_add :: "'d::linordered_idom Leg \<Rightarrow> 'd net_acc \<Rightarrow> 'd net_acc" where
  "net_add l a =
     (let c = lg_Currency l in
      a\<lparr>byCcy := (byCcy a)(c \<mapsto> lookup_or 0 (byCcy a) c + lg_Amount l),
        countByCcy := (countByCcy a)(c \<mapsto> lookup_or 0 (countByCcy a) c + 1),
        latestByCcy :=
          (if lookup_or 0 (latestByCcy a) c < lg_At l then (latestByCcy a)(c \<mapsto> lg_At l)
           else latestByCcy a)\<rparr>)"

definition net_loop :: "'d::linordered_idom Leg list \<Rightarrow> 'd net_acc" where
  "net_loop legs =
     fold net_add legs \<lparr>byCcy = Map.empty, countByCcy = Map.empty, latestByCcy = Map.empty\<rparr>"

definition obligation :: "'d::linordered_idom net_acc \<Rightarrow> string \<Rightarrow> 'd SettlementObligation" where
  "obligation a ccy =
     \<lparr>so_Currency = ccy, so_Amount = lookup_or 0 (byCcy a) ccy,
      so_Legs = lookup_or 0 (countByCcy a) ccy, so_At = lookup_or 0 (latestByCcy a) ccy\<rparr>"

text \<open>\<open>order1\<close> is the order in which the range over \<open>byCcy\<close> visits the currencies, \<open>srt\<close> the
  sort. \<open>None\<close> would be a panic of the conversion of \<open>1e-9\<close>.\<close>

definition Net ::
  "'d::linordered_idom decimal_pkg \<Rightarrow> ('d SettlementObligation list \<Rightarrow> 'd SettlementObligation list) \<Rightarrow>
   string list \<Rightarrow> 'd Leg list \<Rightarrow> 'd SettlementObligation list option"
where
  "Net D srt order1 legs =
     (case NewFromFloat D float_1e_9 of None \<Rightarrow> None | Some epsilon \<Rightarrow>
        (let a = net_loop legs;
             out = map (obligation a) (filter (\<lambda>ccy. \<not> \<bar>lookup_or 0 (byCcy a) ccy\<bar> < epsilon) order1)
         in Some (srt out)))"

definition flow_legs :: "'d::linordered_idom Exposure list \<Rightarrow> 'd Leg list" where
  "flow_legs flows =
     map (\<lambda>f. \<lparr>lg_Currency = e_Currency f, lg_Amount = e_NetAmount f, lg_Source = ''flow'',
               lg_At = e_UpdatedAt f\<rparr>)
       (filter (\<lambda>f. e_NetAmount f \<noteq> 0) flows)"

definition hedge_legs :: "'d::linordered_idom Hedge list \<Rightarrow> 'd Leg list" where
  "hedge_legs hedges =
     map (\<lambda>h. \<lparr>lg_Currency = h_Currency h, lg_Amount = - h_Notional h, lg_Source = ''hedge'',
               lg_At = h_UpdatedAt h\<rparr>)
       (filter (\<lambda>h. h_Status h = StatusExecuted) hedges)"

definition NetFromFlowsAndHedges ::
  "'d::linordered_idom decimal_pkg \<Rightarrow> ('d SettlementObligation list \<Rightarrow> 'd SettlementObligation list) \<Rightarrow>
   string list \<Rightarrow> 'd Exposure list \<Rightarrow> 'd Hedge list \<Rightarrow> 'd SettlementObligation list option"
where
  "NetFromFlowsAndHedges D srt order1 flows hedges =
     Net D srt order1 (flow_legs flows @ hedge_legs hedges)"

section \<open>The accumulating loop\<close>

abbreviation legs_of :: "string \<Rightarrow> 'd Leg list \<Rightarrow> 'd Leg list" where
  "legs_of c legs \<equiv> filter (\<lambda>l. lg_Currency l = c) legs"

definition sum_legs :: "string \<Rightarrow> 'd::linordered_idom Leg list \<Rightarrow> 'd" where
  "sum_legs c legs = (\<Sum>l\<leftarrow>legs_of c legs. lg_Amount l)"

lemma fold_net_add:
  fixes legs :: "'d::linordered_idom Leg list"
  defines "r a \<equiv> fold net_add legs a"
  shows "lookup_or 0 (byCcy (r a)) c = lookup_or 0 (byCcy a) c + sum_legs c legs"
    and "lookup_or 0 (countByCcy (r a)) c = lookup_or 0 (countByCcy a) c + int (length (legs_of c legs))"
    and "lookup_or 0 (latestByCcy (r a)) c = fold max (map lg_At (legs_of c legs)) (lookup_or 0 (latestByCcy a) c)"
    and "dom (byCcy (r a)) = dom (byCcy a) \<union> lg_Currency ` set legs"
  unfolding r_def
  by (induction legs arbitrary: a) (auto simp: net_add_def Let_def sum_legs_def max_def)

lemma net_loop_facts:
  "lookup_or 0 (byCcy (net_loop legs)) c = sum_legs c legs"
  "lookup_or 0 (countByCcy (net_loop legs)) c = int (length (legs_of c legs))"
  "lookup_or 0 (latestByCcy (net_loop legs)) c = fold max (map lg_At (legs_of c legs)) 0"
  "dom (byCcy (net_loop legs)) = lg_Currency ` set legs"
  by (simp_all add: net_loop_def fold_net_add)

lemma sum_legs_append [simp]: "sum_legs c (xs @ ys) = sum_legs c xs + sum_legs c ys"
  by (simp add: sum_legs_def)

text \<open>The obligations as a specification: one per currency of the legs whose sum is not within
  epsilon of zero, ascending by currency.\<close>

definition net_spec :: "'d::linordered_idom \<Rightarrow> 'd Leg list \<Rightarrow> 'd SettlementObligation list" where
  "net_spec eps legs =
     map (\<lambda>c. \<lparr>so_Currency = c, so_Amount = sum_legs c legs, so_Legs = int (length (legs_of c legs)),
               so_At = fold max (map lg_At (legs_of c legs)) 0\<rparr>)
       (filter (\<lambda>c. eps \<le> \<bar>sum_legs c legs\<bar>) (sorted_list_of_set (lg_Currency ` set legs)))"

lemma obligation_Currency [simp]: "so_Currency (obligation a c) = c"
  by (simp add: obligation_def)

lemma net_range_sorted:
  assumes "enumerates order1 (byCcy (net_loop legs))" and "sorts_by so_Currency srt"
  shows "srt (map (obligation (net_loop legs)) (filter P order1)) =
    map (obligation (net_loop legs)) (filter P (sorted_list_of_set (lg_Currency ` set legs)))"
proof -
  let ?f = "obligation (net_loop legs)" and ?S = "sorted_list_of_set (lg_Currency ` set legs)"
  have d: "distinct order1" "set order1 = lg_Currency ` set legs"
    using assms(1) by (simp_all add: enumerates_def net_loop_facts)
  have "mset (filter P order1) = mset (filter P ?S)"
    using d by (metis distinct_sorted_list_of_set set_eq_iff_mset_eq_distinct finite_imageI
        finite_set mset_filter set_sorted_list_of_set)
  then have m: "mset (map ?f (filter P order1)) = mset (map ?f (filter P ?S))"
    by simp
  have k: "map so_Currency (map ?f xs) = xs" for xs
    by (simp add: comp_def)
  show ?thesis
    using assms(2) m by (rule sorts_by_eqI) (simp_all only: k, simp_all add: sorted_wrt_filter)
qed

section \<open>Correctness of netting\<close>

lemma Net_eq_spec:
  assumes "NewFromFloat D float_1e_9 = Some eps"
    and "enumerates order1 (byCcy (net_loop legs))" and "sorts_by so_Currency srt"
  shows "Net D srt order1 legs = Some (net_spec eps legs)"
  using net_range_sorted [OF assms(2,3)] assms(1)
  by (simp add: Net_def Let_def net_spec_def obligation_def net_loop_facts not_less)

lemma net_spec_Currency: "map so_Currency (net_spec eps legs) =
    filter (\<lambda>c. eps \<le> \<bar>sum_legs c legs\<bar>) (sorted_list_of_set (lg_Currency ` set legs))"
  by (simp add: net_spec_def comp_def)

text \<open>C14. Netting returns for every traversal order and every sort the same obligations, those of
  the specification: one per currency of the legs whose sum is at least \<open>1e-9\<close> in absolute value,
  with the exact sum, the number of legs and the latest time, strictly ascending by currency.\<close>

theorem Net_refines_spec:
  assumes "decimal_ok D" and "enumerates order1 (byCcy (net_loop legs))" and "sorts_by so_Currency srt"
  shows "\<exists>eps. eps * 10 ^ 9 = 1 \<and> Net D srt order1 legs = Some (net_spec eps legs) \<and>
    sorted_wrt (<) (map so_Currency (net_spec eps legs))"
proof -
  obtain eps where e: "NewFromFloat D float_1e_9 = Some eps" "eps * 10 ^ 9 = 1"
    using assms(1) by (rule decimal_epsilon)
  have "sorted_wrt (<) (map so_Currency (net_spec eps legs))"
    by (simp add: net_spec_Currency sorted_wrt_filter strict_sorted_list_of_set)
  with e Net_eq_spec [OF e(1) assms(2,3)] show ?thesis by blast
qed

definition sample_legs :: "rat Leg list" where
  "sample_legs =
     [\<lparr>lg_Currency = ''GBP'', lg_Amount = 7, lg_Source = ''flow'', lg_At = 3\<rparr>,
      \<lparr>lg_Currency = ''EUR'', lg_Amount = 100, lg_Source = ''flow'', lg_At = 1\<rparr>,
      \<lparr>lg_Currency = ''EUR'', lg_Amount = - 90, lg_Source = ''hedge'', lg_At = 2\<rparr>]"

lemma sample_legs_order: "enumerates [''GBP'', ''EUR''] (byCcy (net_loop sample_legs))"
  by (simp add: enumerates_def net_loop_facts) (simp add: sample_legs_def)

theorem Net_refines_spec_witness:
  "\<exists>eps. eps * 10 ^ 9 = 1 \<and>
     Net rat_decimal (sort_key so_Currency) [''GBP'', ''EUR''] sample_legs = Some (net_spec eps sample_legs) \<and>
     sorted_wrt (<) (map so_Currency (net_spec eps sample_legs))"
  by (rule Net_refines_spec) (simp_all add: sample_legs_order)

text \<open>The obligations of a currency, as a sum: what the netting moves in cash.\<close>

definition sum_obligations :: "string \<Rightarrow> 'd::linordered_idom SettlementObligation list \<Rightarrow> 'd" where
  "sum_obligations c obs = (\<Sum>ob\<leftarrow>filter (\<lambda>ob. so_Currency ob = c) obs. so_Amount ob)"

lemma filter_eq_distinct: "distinct xs \<Longrightarrow> filter (\<lambda>x. x = a \<and> P x) xs = (if a \<in> set xs \<and> P a then [a] else [])"
  by (induction xs) (auto simp: filter_empty_conv)

lemma sum_legs_no_leg: "c \<notin> lg_Currency ` set legs \<Longrightarrow> sum_legs c legs = 0"
  by (induction legs) (auto simp: sum_legs_def)

lemma sum_obligations_spec:
  assumes "0 < eps"
  shows "sum_obligations c (net_spec eps legs) = (if eps \<le> \<bar>sum_legs c legs\<bar> then sum_legs c legs else 0)"
proof -
  let ?S = "sorted_list_of_set (lg_Currency ` set legs)"
  have "sum_obligations c (net_spec eps legs) =
      (\<Sum>x\<leftarrow>filter (\<lambda>x. x = c \<and> eps \<le> \<bar>sum_legs x legs\<bar>) ?S. sum_legs x legs)"
    by (simp add: sum_obligations_def net_spec_def filter_map comp_def conj_commute)
  also have "\<dots> = (if c \<in> set ?S \<and> eps \<le> \<bar>sum_legs c legs\<bar> then sum_legs c legs else 0)"
    by (simp add: filter_eq_distinct)
  finally show ?thesis
    using assms sum_legs_no_leg [of c legs] by auto
qed

lemma sum_flow_legs: "sum_legs c (flow_legs fs) = (\<Sum>f\<leftarrow>filter (\<lambda>f. e_Currency f = c) fs. e_NetAmount f)"
  by (induction fs) (auto simp: sum_legs_def flow_legs_def)

lemma sum_hedge_legs:
  "sum_legs c (hedge_legs hs) =
     - (\<Sum>h\<leftarrow>filter (\<lambda>h. h_Currency h = c \<and> h_Status h = StatusExecuted) hs. h_Notional h)"
  by (induction hs) (auto simp: sum_legs_def hedge_legs_def)

lemma settlement_due:
  assumes "decimal_ok D" and "sorts_by so_Currency srt"
    and "enumerates order1 (byCcy (net_loop (flow_legs flows @ hedge_legs hedges)))"
  defines "due \<equiv> (\<lambda>c. (\<Sum>f\<leftarrow>filter (\<lambda>f. e_Currency f = c) flows. e_NetAmount f) -
    (\<Sum>h\<leftarrow>filter (\<lambda>h. h_Currency h = c \<and> h_Status h = StatusExecuted) hedges. h_Notional h))"
  shows "\<exists>obs. NetFromFlowsAndHedges D srt order1 flows hedges = Some obs \<and>
    (\<forall>c. sum_obligations c obs = due c \<or> sum_obligations c obs = 0 \<and> \<bar>due c\<bar> * 10 ^ 9 < 1)"
proof -
  obtain eps where e: "NewFromFloat D float_1e_9 = Some eps" "eps * 10 ^ 9 = 1" "0 < eps"
    using assms(1) by (rule decimal_epsilon)
  let ?legs = "flow_legs flows @ hedge_legs hedges"
  have due: "sum_legs c ?legs = due c" for c
    by (simp add: sum_flow_legs sum_hedge_legs due_def)
  have "x * 10 ^ 9 < 1" if "\<not> eps \<le> x" for x
    using that e(2) by (metis mult_strict_right_mono not_le zero_less_numeral zero_less_power)
  moreover have "NetFromFlowsAndHedges D srt order1 flows hedges = Some (net_spec eps ?legs)"
    unfolding NetFromFlowsAndHedges_def using e(1) assms(3,2) by (rule Net_eq_spec)
  ultimately show ?thesis
    using sum_obligations_spec [OF e(3), of _ ?legs] due by (metis (no_types, lifting))
qed

text \<open>Settlement conserves cash up to dust: per currency the netted obligation is the sum of
  the net flows less the sum of the notionals of the executed hedges, or that sum is below
  \<open>1e-9\<close> in absolute value and nothing is moved. Hedges in any other state count for nothing.\<close>

theorem settlement_conserves:
  assumes "decimal_ok D" and "sorts_by so_Currency srt"
    and "enumerates order1 (byCcy (net_loop (flow_legs flows @ hedge_legs hedges)))"
  defines "due \<equiv> (\<lambda>c. (\<Sum>f\<leftarrow>filter (\<lambda>f. e_Currency f = c) flows. e_NetAmount f) -
    (\<Sum>h\<leftarrow>filter (\<lambda>h. h_Currency h = c \<and> h_Status h = StatusExecuted) hedges. h_Notional h))"
  shows "\<exists>obs. NetFromFlowsAndHedges D srt order1 flows hedges = Some obs \<and>
    (\<forall>c. sum_obligations c obs = due c \<or> sum_obligations c obs = 0 \<and> \<bar>due c\<bar> * 10 ^ 9 < 1)"
  unfolding due_def using assms(1-3) by (rule settlement_due)

definition sample_hedge :: "string \<Rightarrow> string \<Rightarrow> rat \<Rightarrow> HedgeStatus \<Rightarrow> rat Hedge" where
  "sample_hedge i c n st =
     \<lparr>h_ID = i, h_Currency = c, h_Notional = n, h_Tenor = TenorSpot, h_Type = TypeSpot,
      h_Status = st, h_QuotedRate = 11 / 10, h_Fills = [], h_SlippageBPS = f_zero, h_PnL = 0,
      h_ClientRequestID = [], h_PolicyRatio = f_zero, h_PolicyCapUSD = 0, h_CapBreached = False,
      h_ValueDate = 0, h_Venue = [], h_CreatedAt = 1, h_UpdatedAt = 1\<rparr>"

definition sample_flow :: "string \<Rightarrow> rat \<Rightarrow> rat Exposure" where
  "sample_flow c n =
     \<lparr>e_Currency = c, e_NetAmount = n, e_HedgeCoverage = 0, e_OpenAmount = n, e_UpdatedAt = 1\<rparr>"

theorem settlement_conserves_witness:
  "\<exists>obs. NetFromFlowsAndHedges rat_decimal (sort_key so_Currency) [''EUR'']
      [sample_flow ''EUR'' 100] [sample_hedge ''h'' ''EUR'' 90 StatusExecuted] = Some obs \<and>
    (sum_obligations ''EUR'' obs = 10 \<or> sum_obligations ''EUR'' obs = 0 \<and> \<bar>10\<bar> * 10 ^ 9 < (1::rat))"
proof -
  have "enumerates [''EUR''] (byCcy (net_loop (flow_legs [sample_flow ''EUR'' 100] @
      hedge_legs [sample_hedge ''h'' ''EUR'' 90 StatusExecuted])))"
    by (simp add: enumerates_def net_loop_facts)
      (simp add: flow_legs_def hedge_legs_def sample_flow_def sample_hedge_def)
  from settlement_conserves [OF rat_decimal_ok sorts_by_sort_key this]
  obtain obs where o: "NetFromFlowsAndHedges rat_decimal (sort_key so_Currency) [''EUR'']
      [sample_flow ''EUR'' 100] [sample_hedge ''h'' ''EUR'' 90 StatusExecuted] = Some obs"
    and c: "\<forall>c. sum_obligations c obs =
        (\<Sum>f\<leftarrow>filter (\<lambda>f. e_Currency f = c) [sample_flow ''EUR'' 100]. e_NetAmount f) -
        (\<Sum>h\<leftarrow>filter (\<lambda>h. h_Currency h = c \<and> h_Status h = StatusExecuted)
           [sample_hedge ''h'' ''EUR'' 90 StatusExecuted]. h_Notional h) \<or>
        sum_obligations c obs = 0 \<and> \<bar>(\<Sum>f\<leftarrow>filter (\<lambda>f. e_Currency f = c) [sample_flow ''EUR'' 100]. e_NetAmount f) -
        (\<Sum>h\<leftarrow>filter (\<lambda>h. h_Currency h = c \<and> h_Status h = StatusExecuted)
           [sample_hedge ''h'' ''EUR'' 90 StatusExecuted]. h_Notional h)\<bar> * 10 ^ 9 < 1"
    by blast
  from c [rule_format, of "''EUR''"] o show ?thesis
    by (auto simp: sample_flow_def sample_hedge_def)
qed

end
