(* ===== verification/Store.thy ===== *)
theory Store
  imports Settlement "HOL-Library.AList"
begin

text \<open>
  The in-memory store of \<open>internal/store/store.go\<close>. Go's map of hedges is an association list with
  distinct keys: looking up, overwriting and ranging over it are operations of the list, and where
  the order of a range could show, the result is sorted by an arbitrary sort, which absorbs it.
  The interface \<open>Store\<close> is the locale \<open>hedge_store\<close>, interpreted on the operations of \<open>MemStore\<close>.
  \<open>cloneHedge\<close> returns a copy that shares nothing with the store, which in a model with values is
  the value itself; the hedge passed to \<open>CreateHedge\<close> is stored without a copy, and the callers
  do not write to it afterwards other than through \<open>UpdateHedge\<close>.
\<close>

section \<open>State\<close>

record 'd memstore =
  st_hedges :: "(string \<times> 'd Hedge) list"
  st_byCcy :: "string \<rightharpoonup> string list"
  st_byReq :: "string \<rightharpoonup> string"
  st_samples :: "'d SlippageSample list"
  st_pnlRows :: "'d PnL list"
  st_expRows :: "'d Exposure list"

definition store_New :: "'d memstore" where
  "store_New =
     \<lparr>st_hedges = [], st_byCcy = Map.empty, st_byReq = Map.empty, st_samples = [],
      st_pnlRows = [], st_expRows = []\<rparr>"

datatype store_error = ErrNotFound | FnError string

section \<open>Operations\<close>

definition CreateHedge :: "'d memstore \<Rightarrow> 'd Hedge \<Rightarrow> 'd memstore" where
  "CreateHedge s h =
     s\<lparr>st_hedges := AList.update (h_ID h) h (st_hedges s),
       st_byCcy := (st_byCcy s)(h_Currency h \<mapsto> lookup_or [] (st_byCcy s) (h_Currency h) @ [h_ID h]),
       st_byReq := (if h_ClientRequestID h \<noteq> []
                    then (st_byReq s)(h_ClientRequestID h \<mapsto> h_ID h) else st_byReq s)\<rparr>"

text \<open>\<open>cloneHedge\<close> dereferences its argument: \<open>None\<close> is the panic on a nil pointer.\<close>

definition cloneHedge :: "'d Hedge option \<Rightarrow> 'd Hedge option" where
  "cloneHedge h = h"

definition GetHedgeByClientRequest :: "'d memstore \<Rightarrow> string \<Rightarrow> 'd Hedge option option" where
  "GetHedgeByClientRequest s reqID =
     (case st_byReq s reqID of
        None \<Rightarrow> Some None
      | Some i \<Rightarrow> map_option Some (cloneHedge (map_of (st_hedges s) i)))"

definition HasFill :: "'d memstore \<Rightarrow> string \<Rightarrow> string \<Rightarrow> bool" where
  "HasFill s venue venueTradeID =
     (if venue = [] \<or> venueTradeID = [] then False
      else list_ex (\<lambda>(i, h). list_ex (\<lambda>f. fl_Venue f = venue \<and> fl_VenueTradeID f = venueTradeID) (h_Fills h))
             (st_hedges s))"

definition GetHedge :: "'d memstore \<Rightarrow> string \<Rightarrow> 'd Hedge option" where
  "GetHedge s i = (case map_of (st_hedges s) i of None \<Rightarrow> None | Some h \<Rightarrow> cloneHedge (Some h))"

text \<open>\<open>fn\<close> writes through the pointer, so what it wrote stays in the store also when it returns an
  error.\<close>

definition UpdateHedge ::
  "'d memstore \<Rightarrow> string \<Rightarrow> ('d Hedge \<Rightarrow> 'd Hedge \<times> string option) \<Rightarrow> (store_error + 'd Hedge) \<times> 'd memstore"
where
  "UpdateHedge s i fn =
     (case map_of (st_hedges s) i of
        None \<Rightarrow> (Inl ErrNotFound, s)
      | Some h \<Rightarrow>
          (let (h', err) = fn h; s' = s\<lparr>st_hedges := AList.update i h' (st_hedges s)\<rparr>
           in (case err of Some m \<Rightarrow> (Inl (FnError m), s') | None \<Rightarrow> (Inr h', s'))))"

definition HedgesByCurrency ::
  "('d Hedge list \<Rightarrow> 'd Hedge list) \<Rightarrow> 'd memstore \<Rightarrow> string \<Rightarrow> 'd Hedge list option" where
  "HedgesByCurrency srt s currency =
     (let ids = lookup_or [] (st_byCcy s) currency;
          found = map (\<lambda>i. cloneHedge (map_of (st_hedges s) i)) ids
      in if list_ex (\<lambda>h. h = None) found then None else Some (srt (map the found)))"

definition AllHedges :: "('d Hedge list \<Rightarrow> 'd Hedge list) \<Rightarrow> 'd memstore \<Rightarrow> 'd Hedge list" where
  "AllHedges srt s = srt (map snd (st_hedges s))"

definition AddSlippageSample :: "'d memstore \<Rightarrow> 'd SlippageSample \<Rightarrow> 'd memstore" where
  "AddSlippageSample s sample = s\<lparr>st_samples := st_samples s @ [sample]\<rparr>"

definition AddPnL :: "'d memstore \<Rightarrow> 'd PnL \<Rightarrow> 'd memstore" where
  "AddPnL s p = s\<lparr>st_pnlRows := st_pnlRows s @ [p]\<rparr>"

definition AllPnL :: "'d memstore \<Rightarrow> 'd PnL list" where
  "AllPnL s = st_pnlRows s"

definition AppendExposureSnapshot :: "'d memstore \<Rightarrow> 'd Exposure \<Rightarrow> 'd memstore" where
  "AppendExposureSnapshot s e = s\<lparr>st_expRows := st_expRows s @ [e]\<rparr>"

definition ExposureSnapshots ::
  "('d Exposure list \<Rightarrow> 'd Exposure list) \<Rightarrow> 'd memstore \<Rightarrow> string \<Rightarrow> 'd Exposure list" where
  "ExposureSnapshots srt s currency =
     srt (filter (\<lambda>e. \<not> (currency \<noteq> [] \<and> e_Currency e \<noteq> currency)) (st_expRows s))"

definition SlippageSamples :: "'d memstore \<Rightarrow> string \<Rightarrow> time \<Rightarrow> time \<Rightarrow> 'd SlippageSample list" where
  "SlippageSamples s pair from to =
     filter (\<lambda>sm. \<not> (pair \<noteq> [] \<and> ss_Pair sm \<noteq> pair) \<and>
                  \<not> (from \<noteq> 0 \<and> ss_Timestamp sm < from) \<and>
                  \<not> (to \<noteq> 0 \<and> to < ss_Timestamp sm)) (st_samples s)"

section \<open>The invariant\<close>

text \<open>Every hedge is stored under its id; the index by currency lists exactly the hedges of each
  currency, each once; the index by client request id points to hedges with that id, and every
  hedge with a request id is indexed (under its own id or a later one with the same request).\<close>

definition keys_inv :: "'d memstore \<Rightarrow> bool" where
  "keys_inv s \<longleftrightarrow> distinct (map fst (st_hedges s)) \<and>
     (\<forall>i h. map_of (st_hedges s) i = Some h \<longrightarrow> h_ID h = i)"

definition ccy_inv :: "'d memstore \<Rightarrow> bool" where
  "ccy_inv s \<longleftrightarrow> (\<forall>c. distinct (lookup_or [] (st_byCcy s) c) \<and>
     (\<forall>i. i \<in> set (lookup_or [] (st_byCcy s) c) \<longleftrightarrow>
        (\<exists>h. map_of (st_hedges s) i = Some h \<and> h_Currency h = c)))"

definition req_inv :: "'d memstore \<Rightarrow> bool" where
  "req_inv s \<longleftrightarrow>
     (\<forall>r i. st_byReq s r = Some i \<longrightarrow> r \<noteq> [] \<and> (\<exists>h. map_of (st_hedges s) i = Some h \<and> h_ClientRequestID h = r)) \<and>
     (\<forall>i h. map_of (st_hedges s) i = Some h \<longrightarrow> h_ClientRequestID h \<noteq> [] \<longrightarrow> st_byReq s (h_ClientRequestID h) \<noteq> None)"

definition store_inv :: "'d memstore \<Rightarrow> bool" where
  "store_inv s \<longleftrightarrow> keys_inv s \<and> ccy_inv s \<and> req_inv s"

lemmas inv_defs = store_inv_def keys_inv_def ccy_inv_def req_inv_def

text \<open>The updates the service makes keep the id, the currency and the request id.\<close>

definition keeps_keys :: "('d Hedge \<Rightarrow> 'd Hedge \<times> string option) \<Rightarrow> bool" where
  "keeps_keys fn \<longleftrightarrow> (\<forall>h. h_ID (fst (fn h)) = h_ID h \<and> h_Currency (fst (fn h)) = h_Currency h \<and>
     h_ClientRequestID (fst (fn h)) = h_ClientRequestID h)"

lemma map_of_update [simp]: "map_of (AList.update k v xs) = (map_of xs)(k \<mapsto> v)"
  by (rule AList.update_conv')

lemma store_inv_New [simp]: "store_inv store_New"
  by (simp add: inv_defs store_New_def)

lemma CreateHedge_inv:
  assumes "store_inv s" and "GetHedge s (h_ID h) = None"
  shows "store_inv (CreateHedge s h)"
proof -
  have fresh: "map_of (st_hedges s) (h_ID h) = None"
    using assms(2) by (simp add: GetHedge_def cloneHedge_def split: option.splits)
  have "keys_inv (CreateHedge s h)"
    using assms(1) by (auto simp: store_inv_def keys_inv_def CreateHedge_def AList.distinct_update)
  moreover have "ccy_inv (CreateHedge s h)"
  proof -
    have "h_ID h \<notin> set (lookup_or [] (st_byCcy s) c)" for c
      using assms(1) fresh by (simp add: store_inv_def ccy_inv_def)
    with assms(1) show ?thesis
      by (auto simp: store_inv_def ccy_inv_def CreateHedge_def fresh)
  qed
  moreover have "req_inv (CreateHedge s h)"
  proof -
    have ne: "st_byReq s r = Some i \<Longrightarrow> i \<noteq> h_ID h" for r i
      using assms(1) fresh by (force simp: store_inv_def req_inv_def)
    with assms(1) show ?thesis
      unfolding store_inv_def req_inv_def CreateHedge_def by simp
  qed
  ultimately show ?thesis by (simp add: store_inv_def)
qed

lemma UpdateHedge_inv:
  assumes "store_inv s" and "keeps_keys fn"
  shows "store_inv (snd (UpdateHedge s i fn))"
proof (cases "map_of (st_hedges s) i")
  case None
  with assms(1) show ?thesis by (simp add: UpdateHedge_def)
next
  case (Some h)
  let ?s = "s\<lparr>st_hedges := AList.update i (fst (fn h)) (st_hedges s)\<rparr>"
  have u: "snd (UpdateHedge s i fn) = ?s"
    using Some by (simp add: UpdateHedge_def Let_def split: prod.splits option.splits)
  have k: "h_ID (fst (fn h)) = h_ID h" "h_Currency (fst (fn h)) = h_Currency h"
    "h_ClientRequestID (fst (fn h)) = h_ClientRequestID h"
    using assms(2) by (simp_all add: keeps_keys_def)
  have "keys_inv ?s"
    using assms(1) Some by (auto simp: store_inv_def keys_inv_def AList.distinct_update k)
  moreover have "ccy_inv ?s"
    using assms(1) Some by (simp add: store_inv_def ccy_inv_def k)
  moreover have "req_inv ?s"
    using assms(1) Some unfolding store_inv_def req_inv_def by (simp add: k) (metis option.inject)
  ultimately show ?thesis by (simp add: store_inv_def u)
qed

lemma append_inv [simp]:
  "store_inv (AddSlippageSample s x) = store_inv s" "store_inv (AddPnL s y) = store_inv s"
  "store_inv (AppendExposureSnapshot s z) = store_inv s"
  by (simp_all add: inv_defs AddSlippageSample_def AddPnL_def AppendExposureSnapshot_def)

section \<open>The interface\<close>

text \<open>What the handlers rely on of any \<open>Store\<close>: a created hedge is found by its id and by its
  request id, an update changes the hedge it names and no other, and the invariant is kept.\<close>

locale hedge_store =
  fixes create :: "'s \<Rightarrow> 'd Hedge \<Rightarrow> 's"
    and get :: "'s \<Rightarrow> string \<Rightarrow> 'd Hedge option"
    and by_request :: "'s \<Rightarrow> string \<Rightarrow> 'd Hedge option option"
    and update :: "'s \<Rightarrow> string \<Rightarrow> ('d Hedge \<Rightarrow> 'd Hedge \<times> string option) \<Rightarrow> (store_error + 'd Hedge) \<times> 's"
    and inv :: "'s \<Rightarrow> bool"
  assumes get_create: "get (create s h) i = (if i = h_ID h then Some h else get s i)"
    and get_update: "get (snd (update s j fn)) i = (if i = j then map_option (\<lambda>h. fst (fn h)) (get s i) else get s i)"
    and update_result: "fst (update s j fn) =
      (case get s j of None \<Rightarrow> Inl ErrNotFound
       | Some h \<Rightarrow> (case snd (fn h) of Some m \<Rightarrow> Inl (FnError m) | None \<Rightarrow> Inr (fst (fn h))))"
    and request_found: "inv s \<Longrightarrow> by_request s r = Some (Some h) \<Longrightarrow> get s (h_ID h) = Some h \<and> h_ClientRequestID h = r \<and> r \<noteq> []"
    and request_total: "inv s \<Longrightarrow> by_request s r \<noteq> None"
    and request_complete: "inv s \<Longrightarrow> by_request s r = Some None \<Longrightarrow> get s i = Some h \<Longrightarrow> r \<noteq> [] \<Longrightarrow> h_ClientRequestID h \<noteq> r"
    and create_inv: "inv s \<Longrightarrow> get s (h_ID h) = None \<Longrightarrow> inv (create s h)"
    and update_inv: "inv s \<Longrightarrow> keeps_keys fn \<Longrightarrow> inv (snd (update s i fn))"
begin

lemma create_update_get:
  "snd (fn h) = None \<Longrightarrow>
   fst (update (create s h) (h_ID h) fn) = Inr (fst (fn h)) \<and>
   get (snd (update (create s h) (h_ID h) fn)) (h_ID h) = Some (fst (fn h))"
  by (simp add: update_result get_update get_create)

lemma create_update_frame:
  "i \<noteq> h_ID h \<Longrightarrow> get (snd (update (create s h) (h_ID h) fn)) i = get s i"
  by (simp add: get_update get_create)

lemma create_update_inv:
  "inv s \<Longrightarrow> get s (h_ID h) = None \<Longrightarrow> keeps_keys fn \<Longrightarrow> inv (snd (update (create s h) (h_ID h) fn))"
  by (blast intro: update_inv create_inv)

text \<open>After a hedge with a fresh id and a new request id was created, its request id leads to it.\<close>

lemma request_after_create:
  assumes "inv s" and "get s (h_ID h) = None" and "h_ClientRequestID h \<noteq> []"
    and "by_request s (h_ClientRequestID h) = Some None"
  shows "by_request (create s h) (h_ClientRequestID h) = Some (Some h)"
proof -
  have i: "inv (create s h)" using assms(1,2) by (rule create_inv)
  from request_total [OF i] obtain r where r: "by_request (create s h) (h_ClientRequestID h) = Some r"
    by blast
  have "r \<noteq> None"
  proof
    assume "r = None"
    with r have "by_request (create s h) (h_ClientRequestID h) = Some None" by simp
    from request_complete [OF i this, of "h_ID h" h] assms(3) show False
      by (simp add: get_create)
  qed
  then obtain g where g: "r = Some g" by blast
  from request_found [OF i, of "h_ClientRequestID h" g] r g
  have gg: "get (create s h) (h_ID g) = Some g" "h_ClientRequestID g = h_ClientRequestID h" by auto
  have "h_ID g = h_ID h"
  proof (rule ccontr)
    assume "h_ID g \<noteq> h_ID h"
    with gg(1) have "get s (h_ID g) = Some g" by (simp add: get_create)
    from request_complete [OF assms(1,4) this assms(3)] gg(2) show False by simp
  qed
  with gg(1) have "g = h" by (simp add: get_create)
  with r g show ?thesis by simp
qed

end

lemma GetHedge_eq [simp]: "GetHedge s i = map_of (st_hedges s) i"
  by (simp add: GetHedge_def cloneHedge_def split: option.splits)

interpretation mem: hedge_store CreateHedge GetHedge GetHedgeByClientRequest UpdateHedge store_inv
proof unfold_locales
  fix s :: "'d memstore" and h i j r and fn :: "'d Hedge \<Rightarrow> 'd Hedge \<times> string option"
  show "GetHedge (CreateHedge s h) i = (if i = h_ID h then Some h else GetHedge s i)"
    by (simp add: CreateHedge_def)
  show "GetHedge (snd (UpdateHedge s j fn)) i =
      (if i = j then map_option (\<lambda>h. fst (fn h)) (GetHedge s i) else GetHedge s i)"
    by (auto simp: UpdateHedge_def Let_def split: option.splits prod.splits)
  show "fst (UpdateHedge s j fn) =
      (case GetHedge s j of None \<Rightarrow> Inl ErrNotFound
       | Some h \<Rightarrow> (case snd (fn h) of Some m \<Rightarrow> Inl (FnError m) | None \<Rightarrow> Inr (fst (fn h))))"
    by (auto simp: UpdateHedge_def Let_def split: option.splits prod.splits)
  assume inv: "store_inv s"
  then have req: "st_byReq s r = Some k \<Longrightarrow> r \<noteq> [] \<and> (\<exists>h. map_of (st_hedges s) k = Some h \<and> h_ClientRequestID h = r)"
    and ids: "map_of (st_hedges s) k = Some g \<Longrightarrow> h_ID g = k"
    and tot: "map_of (st_hedges s) k = Some g \<Longrightarrow> h_ClientRequestID g \<noteq> [] \<Longrightarrow> st_byReq s (h_ClientRequestID g) \<noteq> None"
    for r k g
    unfolding inv_defs by blast+
  show "GetHedgeByClientRequest s r = Some (Some h) \<Longrightarrow>
      GetHedge s (h_ID h) = Some h \<and> h_ClientRequestID h = r \<and> r \<noteq> []"
    by (auto simp: GetHedgeByClientRequest_def cloneHedge_def split: option.splits dest: req ids)
  show "GetHedgeByClientRequest s r \<noteq> None"
    by (auto simp: GetHedgeByClientRequest_def cloneHedge_def split: option.splits dest: req)
  show "GetHedgeByClientRequest s r = Some None \<Longrightarrow> GetHedge s i = Some h \<Longrightarrow> r \<noteq> [] \<Longrightarrow> h_ClientRequestID h \<noteq> r"
    using tot [of i h] by (auto simp: GetHedgeByClientRequest_def split: option.splits)
  show "GetHedge s (h_ID h) = None \<Longrightarrow> store_inv (CreateHedge s h)"
    using inv by (rule CreateHedge_inv)
  show "keeps_keys fn \<Longrightarrow> store_inv (snd (UpdateHedge s i fn))"
    using inv by (rule UpdateHedge_inv)
qed

section \<open>Properties\<close>

text \<open>The store answers idempotent submissions: once a hedge with a fresh id and a request id
  that is not in use was created, looking the request id up returns this hedge, it does not
  panic, and after any update that keeps the keys it returns the updated hedge.\<close>

theorem store_idempotent_request:
  assumes "store_inv s" and "GetHedge s (h_ID h) = None" and "h_ClientRequestID h \<noteq> []"
    and "GetHedgeByClientRequest s (h_ClientRequestID h) = Some None" and "keeps_keys fn"
  shows "GetHedgeByClientRequest (CreateHedge s h) (h_ClientRequestID h) = Some (Some h) \<and>
    GetHedgeByClientRequest (snd (UpdateHedge (CreateHedge s h) (h_ID h) fn)) (h_ClientRequestID h) =
      Some (Some (fst (fn h))) \<and>
    store_inv (snd (UpdateHedge (CreateHedge s h) (h_ID h) fn))"
proof -
  have "st_byReq (snd (UpdateHedge (CreateHedge s h) (h_ID h) fn)) (h_ClientRequestID h) = Some (h_ID h)"
    and "map_of (st_hedges (snd (UpdateHedge (CreateHedge s h) (h_ID h) fn))) (h_ID h) = Some (fst (fn h))"
    using assms(3) by (auto simp: UpdateHedge_def CreateHedge_def Let_def split: prod.splits option.splits)
  then show ?thesis
    using mem.request_after_create [OF assms(1-4)] mem.create_update_inv [OF assms(1,2,5)]
    by (simp add: GetHedgeByClientRequest_def cloneHedge_def)
qed

abbreviation mark_failed :: "'d Hedge \<Rightarrow> 'd Hedge \<times> string option" where
  "mark_failed h \<equiv> (h\<lparr>h_Status := StatusFailed\<rparr>, None)"

definition requested_hedge :: "HedgeStatus \<Rightarrow> rat Hedge" where
  "requested_hedge st = (sample_hedge ''h1'' ''EUR'' 90 st)\<lparr>h_ClientRequestID := ''r1''\<rparr>"

lemma requested_hedge_fields [simp]:
  "h_ID (requested_hedge st) = ''h1''" "h_ClientRequestID (requested_hedge st) = ''r1''"
  "h_Currency (requested_hedge st) = ''EUR''" "h_Status (requested_hedge st) = st"
  "(requested_hedge st)\<lparr>h_Status := st'\<rparr> = requested_hedge st'"
  by (simp_all add: requested_hedge_def sample_hedge_def)

theorem store_idempotent_request_witness:
  "GetHedgeByClientRequest
     (snd (UpdateHedge (CreateHedge store_New (requested_hedge StatusExecuting)) ''h1'' mark_failed)) ''r1'' =
   Some (Some (requested_hedge StatusFailed))"
  using store_idempotent_request [of store_New "requested_hedge StatusExecuting" mark_failed]
  by (simp add: keeps_keys_def) (simp add: store_New_def GetHedgeByClientRequest_def)

lemma HasFill_iff:
  "store_inv s \<Longrightarrow> HasFill s v t \<longleftrightarrow>
     v \<noteq> [] \<and> t \<noteq> [] \<and> (\<exists>i h f. GetHedge s i = Some h \<and> f \<in> set (h_Fills h) \<and> fl_Venue f = v \<and> fl_VenueTradeID f = t)"
proof -
  assume "store_inv s"
  then have d: "distinct (map fst (st_hedges s))" by (simp add: inv_defs)
  show ?thesis
    using map_of_eq_Some_iff [OF d] by (auto simp: HasFill_def list_ex_iff)
qed

lemma hedges_distinct:
  assumes "store_inv s"
  shows "distinct (map snd (st_hedges s))"
proof -
  have d: "distinct (map fst (st_hedges s))"
    using assms by (simp add: store_inv_def keys_inv_def)
  have i: "h_ID h = j" if "(j, h) \<in> set (st_hedges s)" for j h
    using assms that by (auto simp: store_inv_def keys_inv_def)
  have "inj_on snd (set (st_hedges s))"
    by (rule inj_onI) (metis i prod.collapse)
  with d show ?thesis by (simp add: distinct_map)
qed

text \<open>Under the invariant, listing a currency does not panic and returns exactly the hedges of
  that currency among all stored ones, each once, in ascending order of creation, whatever the
  traversal order of the map and the sort.\<close>

theorem HedgesByCurrency_complete:
  assumes "store_inv s" and "sorts_by h_CreatedAt srt"
  shows "\<exists>hs. HedgesByCurrency srt s c = Some hs \<and>
    mset hs = mset (filter (\<lambda>h. h_Currency h = c) (AllHedges srt s)) \<and> sorted (map h_CreatedAt hs)"
proof -
  let ?ids = "lookup_or [] (st_byCcy s) c" and ?m = "map_of (st_hedges s)"
  have ids: "distinct ?ids" "i \<in> set ?ids \<longleftrightarrow> (\<exists>h. ?m i = Some h \<and> h_Currency h = c)" for i
    using assms(1) by (simp_all add: inv_defs)
  have m: "?m i = Some h \<longleftrightarrow> (i, h) \<in> set (st_hedges s)" "?m i = Some h \<Longrightarrow> h_ID h = i" for i h
    using assms(1) by (simp_all add: inv_defs)
  let ?hs = "map (\<lambda>i. the (?m i)) ?ids" and ?all = "filter (\<lambda>h. h_Currency h = c) (map snd (st_hedges s))"
  have ok: "HedgesByCurrency srt s c = Some (srt ?hs)"
    using ids(2) by (auto simp: HedgesByCurrency_def cloneHedge_def list_ex_iff comp_def Let_def)
  have "inj_on (\<lambda>i. the (?m i)) (set ?ids)"
    by (rule inj_onI) (metis ids(2) m(2) option.sel)
  then have "distinct ?hs" using ids(1) by (simp add: distinct_map)
  moreover have "distinct ?all" using hedges_distinct [OF assms(1)] by simp
  moreover have "set ?hs = set ?all"
  proof (rule set_eqI)
    fix h
    have "h \<in> set ?hs \<longleftrightarrow> (\<exists>i. ?m i = Some h \<and> h_Currency h = c)"
      unfolding set_map image_iff Bex_def ids(2) by (metis option.sel)
    also have "\<dots> \<longleftrightarrow> h \<in> set ?all"
      by (simp add: m(1) image_iff Bex_def)
    finally show "h \<in> set ?hs \<longleftrightarrow> h \<in> set ?all" .
  qed
  ultimately have "mset ?hs = mset ?all" using set_eq_iff_mset_eq_distinct [of ?hs ?all] by blast
  then have "mset (srt ?hs) = mset (filter (\<lambda>h. h_Currency h = c) (AllHedges srt s))"
    by (simp add: sorts_by_mset [OF assms(2)] AllHedges_def mset_filter)
  with ok sorts_by_sorted [OF assms(2), of ?hs] show ?thesis by blast
qed

theorem HedgesByCurrency_complete_witness:
  "\<exists>hs. HedgesByCurrency (sort_key h_CreatedAt) (CreateHedge store_New (requested_hedge StatusExecuted)) ''EUR'' = Some hs \<and>
     mset hs = {#requested_hedge StatusExecuted#}"
proof -
  let ?s = "CreateHedge store_New (requested_hedge StatusExecuted)"
  have "store_inv ?s"
    by (rule CreateHedge_inv) (simp_all, simp add: store_New_def)
  from HedgesByCurrency_complete [OF this sorts_by_sort_key, of "''EUR''"] show ?thesis
    by (simp add: AllHedges_def CreateHedge_def store_New_def)
qed

section \<open>Growth\<close>

text \<open>A request id that is free, and stores that keep every hedge and every request id of another.\<close>

definition unused_request :: "'d memstore \<Rightarrow> string \<Rightarrow> bool" where
  "unused_request s q \<longleftrightarrow> q = [] \<or> GetHedgeByClientRequest s q = Some None"

definition store_extends :: "'d memstore \<Rightarrow> 'd memstore \<Rightarrow> bool" where
  "store_extends s s' \<longleftrightarrow> map_of (st_hedges s) \<subseteq>\<^sub>m map_of (st_hedges s') \<and> st_byReq s \<subseteq>\<^sub>m st_byReq s'"

lemma store_extends_refl [simp]: "store_extends s s"
  by (simp add: store_extends_def)

lemma store_extends_trans: "store_extends s s' \<Longrightarrow> store_extends s' s'' \<Longrightarrow> store_extends s s''"
  unfolding store_extends_def by (blast intro: map_le_trans)

lemma store_extends_append [simp]:
  "store_extends s (AddSlippageSample s' sm) = store_extends s s'" "store_extends s (AddPnL s' row) = store_extends s s'"
  "store_extends (s\<lparr>st_samples := sms\<rparr>) s' = store_extends s s'"
  by (simp_all add: store_extends_def AddSlippageSample_def AddPnL_def)

lemma unused_request_free:
  assumes "req_inv s" and "unused_request s q" and "q \<noteq> []"
  shows "st_byReq s q = None"
  using assms by (cases "st_byReq s q") (auto simp: unused_request_def GetHedgeByClientRequest_def req_inv_def cloneHedge_def)

lemma store_extends_create:
  assumes "store_inv s" and "map_of (st_hedges s) (h_ID h) = None" and "unused_request s (h_ClientRequestID h)"
  shows "store_extends s (CreateHedge s h)"
  using assms unused_request_free [of s "h_ClientRequestID h"]
  by (auto simp: store_extends_def CreateHedge_def map_le_def store_inv_def dom_def)

lemma store_extends_update:
  assumes "store_extends s s'" and "map_of (st_hedges s) i = None"
  shows "store_extends s (snd (UpdateHedge s' i fn))"
  using assms by (auto simp: store_extends_def UpdateHedge_def Let_def case_prod_beta map_le_def dom_def split: option.splits)

lemma unused_request_samples [simp]: "unused_request (s\<lparr>st_samples := sms\<rparr>) q = unused_request s q"
  by (simp add: unused_request_def GetHedgeByClientRequest_def split: option.splits)

text \<open>A stored request is found in every extension of the store.\<close>

lemma store_extends_request:
  assumes "store_extends s s'" and "GetHedgeByClientRequest s q = Some (Some h)"
  shows "GetHedgeByClientRequest s' q = Some (Some h)"
  using assms
  by (auto simp: store_extends_def GetHedgeByClientRequest_def map_le_def cloneHedge_def dom_def split: option.splits)

end
