(* ===== verification/RateCache.thy ===== *)
theory RateCache
  imports Domain
begin

text \<open>
  The cache of live rates of \<open>internal/ratecache/ratecache.go\<close>: rates with the time they were
  recorded, a staleness guard, and the revaluation rates of the cross-check. Each method holds
  the mutex for its whole body; the clock reading of a method is an argument.
\<close>

section \<open>State and operations\<close>

record Rate =
  rt_Currency :: string
  rt_Rate :: float64
  rt_Source :: string
  rt_At :: time

record cache =
  ca_rates :: "string \<rightharpoonup> Rate"
  ca_ttl :: duration
  ca_reval :: "string \<rightharpoonup> float64"

datatype rate_error = ErrStale | RateNotFound

definition cache_New :: "duration \<Rightarrow> cache" where
  "cache_New ttl = \<lparr>ca_rates = Map.empty, ca_ttl = ttl, ca_reval = Map.empty\<rparr>"

definition zero_rate :: Rate where
  "zero_rate = \<lparr>rt_Currency = [], rt_Rate = f_zero, rt_Source = [], rt_At = 0\<rparr>"

definition cache_Update :: "time \<Rightarrow> cache \<Rightarrow> string \<Rightarrow> float64 \<Rightarrow> string \<Rightarrow> cache" where
  "cache_Update now c currency rate source =
     c\<lparr>ca_rates := (ca_rates c)(currency \<mapsto>
        \<lparr>rt_Currency = currency, rt_Rate = rate, rt_Source = source, rt_At = now\<rparr>)\<rparr>"

definition cache_Get :: "time \<Rightarrow> cache \<Rightarrow> string \<Rightarrow> Rate \<times> rate_error option" where
  "cache_Get now c currency =
     (case ca_rates c currency of
        None \<Rightarrow> (zero_rate, Some RateNotFound)
      | Some r \<Rightarrow>
          if 0 < ca_ttl c \<and> ca_ttl c < time_sub now (rt_At r) then (r, Some ErrStale) else (r, None))"

definition SetRevaluationRate :: "cache \<Rightarrow> string \<Rightarrow> float64 \<Rightarrow> cache" where
  "SetRevaluationRate c currency rate = c\<lparr>ca_reval := (ca_reval c)(currency \<mapsto> rate)\<rparr>"

definition RevaluationRate :: "cache \<Rightarrow> string \<Rightarrow> float64" where
  "RevaluationRate c currency = lookup_or f_zero (ca_reval c) currency"

definition CrossCheck :: "cache \<Rightarrow> string \<Rightarrow> float64 \<Rightarrow> bool" where
  "CrossCheck c currency toleranceBPS =
     (case ca_reval c currency of None \<Rightarrow> False | Some rv \<Rightarrow>
        if f_eq rv f_zero then False
        else (case ca_rates c currency of None \<Rightarrow> False | Some r \<Rightarrow>
          if f_eq (rt_Rate r) f_zero then False
          else (let d0 = f_sub (rt_Rate r) rv;
                    diff = (if f_lt d0 f_zero then f_neg d0 else d0)
                in f_le (f_mul (f_div diff rv) (fround 10000)) toleranceBPS)))"

definition cache_TTL :: "cache \<Rightarrow> duration" where
  "cache_TTL c = ca_ttl c"

section \<open>Facts\<close>

lemma cache_Update_fields [frame_simps, simp]:
  "ca_ttl (cache_Update now c ccy r src) = ca_ttl c"
  "ca_reval (cache_Update now c ccy r src) = ca_reval c"
  by (simp_all add: cache_Update_def)

lemma CrossCheck_needs_reval: "ca_reval c ccy = None \<Longrightarrow> \<not> CrossCheck c ccy tol"
  by (simp add: CrossCheck_def)

lemma cache_Get_Update_other: "ccy' \<noteq> ccy \<Longrightarrow> cache_Get now (cache_Update t c ccy r src) ccy' = cache_Get now c ccy'"
  by (simp add: cache_Get_def cache_Update_def split: option.splits)

text \<open>C39. The staleness guard: a rate recorded at time \<open>t\<close> is served, unchanged, exactly until its
  age exceeds the TTL, and for ever when the TTL is not positive; recording it does not change
  what is served for another currency. The bound on the TTL is that of a \<open>time.Duration\<close>.\<close>

theorem cache_freshness:
  assumes "ca_ttl c < max_duration" and "ccy' \<noteq> ccy"
  shows "cache_Get now (cache_Update t c ccy r src) ccy =
      (\<lparr>rt_Currency = ccy, rt_Rate = r, rt_Source = src, rt_At = t\<rparr>,
       if 0 < ca_ttl c \<and> t + ca_ttl c < now then Some ErrStale else None) \<and>
    cache_Get now (cache_Update t c ccy r src) ccy' = cache_Get now c ccy'"
proof -
  have "(ca_ttl c < time_sub now t) = (t + ca_ttl c < now)" if "0 < ca_ttl c"
    using time_sub_exceeds [of "ca_ttl c" now t] that assms(1) by auto
  then show ?thesis
    using cache_Get_Update_other [OF assms(2)] by (auto simp: cache_Get_def cache_Update_def)
qed

theorem cache_freshness_witness:
  "cache_Get 1500000000 (cache_Update 400000000 (cache_New second) ''EUR'' (Fin 1) ''fill'') ''EUR'' =
     (\<lparr>rt_Currency = ''EUR'', rt_Rate = Fin 1, rt_Source = ''fill'', rt_At = 400000000\<rparr>, Some ErrStale)"
proof -
  have "ca_ttl (cache_New second) < max_duration" by (simp add: cache_New_def max_duration_def)
  from cache_freshness [OF this, of "''GBP''" "''EUR''" 1500000000 400000000 "Fin 1" "''fill''"] show ?thesis
    by (simp add: cache_New_def)
qed

lemma f_mul_nonpos: "f_le a f_zero \<Longrightarrow> 0 < y \<Longrightarrow> f_le (f_mul a (Fin y)) f_zero"
  by (cases a) (auto simp: inf_of_sign_def fround_nonpos mult_nonpos_nonneg)

lemma f_div_neg: "f_le f_zero a \<Longrightarrow> y < 0 \<Longrightarrow> f_le (f_div a (Fin y)) f_zero"
  by (cases a) (auto simp: fround_nonpos divide_nonneg_neg)

lemma f_abs_nonneg: "a \<noteq> NaN \<Longrightarrow> f_le f_zero (if f_lt a f_zero then f_neg a else a)"
  by (cases a) (auto simp: f_le_def f_eq_def)

text \<open>The cross-check accepts every live rate against a negative revaluation rate: the
  difference is made positive before it is divided by the revaluation rate, so the quotient has
  the sign of the latter and is below any tolerance that is not negative.\<close>

theorem CrossCheck_negative_reval:
  assumes "ca_reval c ccy = Some (Fin rv)" and "rv < 0"
    and "ca_rates c ccy = Some r" and "rt_Rate r = Fin x" and "x \<noteq> 0" and "0 \<le> tol"
  shows "CrossCheck c ccy (Fin tol)"
proof -
  let ?d = "f_sub (Fin x) (Fin rv)"
  have "f_le f_zero (if f_lt ?d f_zero then f_neg ?d else ?d)"
    by (intro f_abs_nonneg) (simp add: f_sub_def)
  then have "f_le (f_mul (f_div (if f_lt ?d f_zero then f_neg ?d else ?d) (Fin rv)) (Fin 10000)) f_zero"
    using assms(2) by (intro f_mul_nonpos f_div_neg) simp_all
  moreover have "fround 10000 = Fin 10000" by code_simp
  ultimately have "f_le (f_mul (f_div (if f_lt ?d f_zero then f_neg ?d else ?d) (Fin rv)) (fround 10000)) (Fin tol)"
    using f_le_trans [of _ f_zero "Fin tol"] assms(6) by simp
  then show ?thesis
    using assms(1-5) by (simp add: CrossCheck_def Let_def f_eq_def)
qed

theorem CrossCheck_negative_reval_witness:
  "CrossCheck (SetRevaluationRate (cache_Update 1 (cache_New second) ''EUR'' (Fin 1000) ''fill'') ''EUR'' (Fin (-1))) ''EUR'' (Fin 100)"
  by (rule CrossCheck_negative_reval [where rv = "-1" and x = 1000 and
        r = "\<lparr>rt_Currency = ''EUR'', rt_Rate = Fin 1000, rt_Source = ''fill'', rt_At = 1\<rparr>"])
    (simp_all add: SetRevaluationRate_def cache_Update_def)

end
