(* ===== verification/Policy.thy ===== *)
theory Policy
  imports Domain
begin

text \<open>
  The hedge policy of \<open>internal/policy/policy.go\<close>: configuration from the environment,
  per-currency overrides, the effective ratio and cap, slippage tuning, the hedge decision and
  the breach test. The lemmas bound the effective ratio, characterise the decision on every
  branch, and relate it to the cap. The mutex makes each method atomic, so a method is one
  function of the state.
\<close>

section \<open>State and configuration\<close>

record Override =
  ov_Ratio :: float64
  ov_CapUSD :: float64

record policy =
  HedgeRatioTarget :: float64
  MaxOpenExposureUSD :: float64
  Overrides :: "string \<rightharpoonup> Override"
  SlippageAlertBPS :: float64
  WideningStep :: float64
  tuning :: "string \<rightharpoonup> float64"

text \<open>The environment is a function from variable names to values, with the empty string for an
  unset variable; \<open>strconv.ParseFloat\<close> is an argument that returns the value and whether there
  was an error.\<close>

type_synonym getenv = "string \<Rightarrow> string"
type_synonym parse_float = "string \<Rightarrow> float64 \<times> bool"

definition env_float :: "getenv \<Rightarrow> parse_float \<Rightarrow> string \<Rightarrow> (float64 \<Rightarrow> bool) \<Rightarrow> float64 \<Rightarrow> float64" where
  "env_float env pf key guard dflt =
     (let v = env key in
      if v \<noteq> [] then
        (let (f, err) = pf v in if \<not> err \<and> guard f then f else dflt)
      else dflt)"

definition parse_override :: "parse_float \<Rightarrow> string \<Rightarrow> (string \<rightharpoonup> Override) \<Rightarrow> (string \<rightharpoonup> Override)" where
  "parse_override pf entry0 out =
     (let entry = TrimSpace entry0 in
      if entry = [] then out
      else
        let parts = Split CHR '':'' entry in
        if length parts < 2 then out
        else
          let ccy = ToUpper (TrimSpace (parts ! 0));
              ratio = fst (pf (TrimSpace (parts ! 1)));
              cap = (if length parts \<ge> 3 then fst (pf (TrimSpace (parts ! 2))) else f_zero)
          in if ccy \<noteq> [] \<and> (f_lt f_zero ratio \<or> f_lt f_zero cap)
             then out(ccy \<mapsto> \<lparr>ov_Ratio = ratio, ov_CapUSD = cap\<rparr>)
             else out)"

definition parseOverrides :: "parse_float \<Rightarrow> string \<Rightarrow> (string \<rightharpoonup> Override)" where
  "parseOverrides pf v = fold (parse_override pf) (Split CHR '';'' v) Map.empty"

definition policy_New :: "getenv \<Rightarrow> parse_float \<Rightarrow> policy" where
  "policy_New env pf =
     \<lparr>HedgeRatioTarget =
        env_float env pf ''HEDGE_RATIO_TARGET'' (\<lambda>f. f_le f_zero f \<and> f_le f f_one) (fround (9 / 10)),
      MaxOpenExposureUSD =
        env_float env pf ''MAX_OPEN_EXPOSURE_USD'' (\<lambda>f. f_le f_zero f) (fround 1000000),
      Overrides =
        (let v = env ''HEDGE_OVERRIDES'' in if v \<noteq> [] then parseOverrides pf v else Map.empty),
      SlippageAlertBPS =
        env_float env pf ''SLIPPAGE_ALERT_BPS'' (\<lambda>f. f_le f_zero f) (fround 5),
      WideningStep = fround (5 / 100),
      tuning = Map.empty\<rparr>"

definition SetOverride :: "policy \<Rightarrow> string \<Rightarrow> Override \<Rightarrow> policy" where
  "SetOverride p currency o1 = p\<lparr>Overrides := (Overrides p)(ToUpper currency \<mapsto> o1)\<rparr>"

section \<open>Effective ratio and cap\<close>

definition EffectiveRatio :: "policy \<Rightarrow> string \<Rightarrow> float64" where
  "EffectiveRatio p currency =
     (let r0 = HedgeRatioTarget p;
          r1 = (case Overrides p (ToUpper currency) of
                  Some ov \<Rightarrow> if f_lt f_zero (ov_Ratio ov) then ov_Ratio ov else r0
                | None \<Rightarrow> r0);
          r2 = (case tuning p (ToUpper currency) of
                  Some meanSlip \<Rightarrow>
                    if f_lt f_zero (SlippageAlertBPS p) \<and> f_lt (SlippageAlertBPS p) meanSlip
                    then f_add r1 (WideningStep p) else r1
                | None \<Rightarrow> r1);
          r3 = (if f_lt f_one r2 then f_one else r2);
          r4 = (if f_lt r3 f_zero then f_zero else r3)
      in r4)"

definition EffectiveCap :: "policy \<Rightarrow> string \<Rightarrow> float64" where
  "EffectiveCap p currency =
     (case Overrides p (ToUpper currency) of
        Some ov \<Rightarrow> if f_lt f_zero (ov_CapUSD ov) then ov_CapUSD ov else MaxOpenExposureUSD p
      | None \<Rightarrow> MaxOpenExposureUSD p)"

definition ApplySlippageTuning :: "policy \<Rightarrow> string \<Rightarrow> float64 \<Rightarrow> policy" where
  "ApplySlippageTuning p currency mean = p\<lparr>tuning := (tuning p)(ToUpper currency \<mapsto> mean)\<rparr>"

section \<open>The hedge decision\<close>

text \<open>\<open>None\<close> is a panic: \<open>decimal.NewFromFloat\<close> was given a NaN or an infinity. The
  conversions stand in the order of the source: the ratio, the cap, the constant \<open>1e-9\<close>.\<close>

definition Decide ::
  "'d::linordered_idom decimal_pkg \<Rightarrow> policy \<Rightarrow> string \<Rightarrow> 'd Exposure option \<Rightarrow> 'd HedgeDecision option"
where
  "Decide D p currency expo =
     (case expo of
        None \<Rightarrow>
          Some \<lparr>hd_Currency = currency, hd_Notional = 0, hd_TenorHint = [],
                hd_BlockedByCap = False, hd_Reason = []\<rparr>
      | Some e \<Rightarrow>
          (let net = e_NetAmount e;
               coverage = e_HedgeCoverage e;
               open1 = net - coverage
           in if net = 0 then
                Some \<lparr>hd_Currency = currency, hd_Notional = 0, hd_TenorHint = TenorSpot,
                      hd_BlockedByCap = False, hd_Reason = []\<rparr>
              else
                (case NewFromFloat D (EffectiveRatio p currency) of None \<Rightarrow> None | Some ratio \<Rightarrow>
                  (let needed0 = net * ratio - coverage;
                       needed1 = (if 0 < net then (if needed0 \<le> 0 then 0 else needed0)
                                  else (if 0 \<le> needed0 then 0 else needed0))
                   in (case NewFromFloat D (EffectiveCap p currency) of None \<Rightarrow> None | Some cap \<Rightarrow>
                        (let breached = cap < \<bar>open1\<bar>;
                             needed = (if breached then open1 else needed1);
                             notional = \<bar>needed\<bar>
                         in (case NewFromFloat D float_1e_9 of None \<Rightarrow> None | Some eps \<Rightarrow>
                              if notional < eps then
                                Some \<lparr>hd_Currency = currency, hd_Notional = 0,
                                      hd_TenorHint = TenorSpot, hd_BlockedByCap = breached,
                                      hd_Reason = ''no hedge needed''\<rparr>
                              else
                                Some \<lparr>hd_Currency = currency, hd_Notional = notional,
                                      hd_TenorHint = TenorSpot, hd_BlockedByCap = breached,
                                      hd_Reason =
                                        (if breached
                                         then ''open exposure exceeds cap; hedging full open amount''
                                         else [])\<rparr>)))))))"

definition ShouldHedge ::
  "'d::linordered_idom decimal_pkg \<Rightarrow> policy \<Rightarrow> string \<Rightarrow> 'd Exposure option \<Rightarrow> (bool \<times> 'd) option"
where
  "ShouldHedge D p currency expo =
     (case Decide D p currency expo of None \<Rightarrow> None | Some dec \<Rightarrow>
        if hd_BlockedByCap dec \<or> 0 < hd_Notional dec
        then Some (0 < hd_Notional dec, hd_Notional dec)
        else Some (False, 0))"

definition Breach ::
  "'d::linordered_idom decimal_pkg \<Rightarrow> policy \<Rightarrow> string \<Rightarrow> 'd Exposure option \<Rightarrow> bool option"
where
  "Breach D p currency expo =
     (case expo of None \<Rightarrow> Some False | Some e \<Rightarrow>
        (let open0 = e_NetAmount e - e_HedgeCoverage e;
             open1 = (if e_OpenAmount e \<noteq> 0 then e_OpenAmount e else open0)
         in map_option (\<lambda>cap. cap < \<bar>open1\<bar>) (NewFromFloat D (EffectiveCap p currency))))"

section \<open>Well-formed policies\<close>

text \<open>What \<open>New\<close> guarantees whatever the environment holds: the ratio is between 0 and 1, the cap
  and the alert threshold are numbers that are not negative, the widening step is finite. The
  cap may be infinite.\<close>

definition policy_ok :: "policy \<Rightarrow> bool" where
  "policy_ok p \<longleftrightarrow>
     f_le f_zero (HedgeRatioTarget p) \<and> f_le (HedgeRatioTarget p) f_one \<and>
     f_le f_zero (MaxOpenExposureUSD p) \<and> f_le f_zero (SlippageAlertBPS p) \<and>
     f_finite (WideningStep p)"

definition override_ok :: "string \<Rightarrow> Override \<Rightarrow> bool" where
  "override_ok k ov \<longleftrightarrow> k \<noteq> [] \<and> ToUpper k = k \<and> (f_lt f_zero (ov_Ratio ov) \<or> f_lt f_zero (ov_CapUSD ov))"

lemma env_float_cases: "env_float env pf key guard d = d \<or> guard (env_float env pf key guard d)"
  by (auto simp: env_float_def Let_def split: prod.splits)

lemma ratio_default: "fround (9 / 10) = Fin (8106479329266893 / 9007199254740992)"
  by code_simp

lemma cap_default: "fround 1000000 = Fin 1000000"
  by code_simp

lemma alert_default: "fround 5 = Fin 5"
  by code_simp

lemma widening_default: "fround (5 / 100) = Fin (3602879701896397 / 72057594037927936)"
  by code_simp

lemmas policy_defaults = ratio_default cap_default alert_default widening_default

lemma parse_override_ok:
  assumes "\<forall>k ov. out k = Some ov \<longrightarrow> override_ok k ov"
  shows "\<forall>k ov. parse_override pf entry out k = Some ov \<longrightarrow> override_ok k ov"
  using assms by (auto simp: parse_override_def Let_def override_ok_def)

lemma fold_parse_override_ok:
  "\<forall>k ov. out k = Some ov \<longrightarrow> override_ok k ov \<Longrightarrow>
   \<forall>k ov. fold (parse_override pf) es out k = Some ov \<longrightarrow> override_ok k ov"
  by (induction es arbitrary: out) (auto simp del: split_paired_All intro!: parse_override_ok)

lemma policy_New_policy_ok: "policy_ok (policy_New env pf)"
  using env_float_cases [of env pf "''HEDGE_RATIO_TARGET''" "\<lambda>f. f_le f_zero f \<and> f_le f f_one" "fround (9 / 10)"]
    env_float_cases [of env pf "''MAX_OPEN_EXPOSURE_USD''" "\<lambda>f. f_le f_zero f" "fround 1000000"]
    env_float_cases [of env pf "''SLIPPAGE_ALERT_BPS''" "\<lambda>f. f_le f_zero f" "fround 5"]
    policy_defaults
  by (auto simp: policy_ok_def policy_New_def)

section \<open>The effective ratio and cap\<close>

lemma f_lt_zero_not_NaN: "f_lt a b \<Longrightarrow> a \<noteq> NaN \<and> b \<noteq> NaN"
  by (cases a; cases b) auto

lemma f_add_finite_not_NaN: "a \<noteq> NaN \<Longrightarrow> f_finite b \<Longrightarrow> f_add a b \<noteq> NaN"
  by (cases a; cases b) (auto simp: f_finite_def)

lemma clamp_bounds:
  assumes "r \<noteq> NaN"
  defines "r' \<equiv> (if f_lt f_one r then f_one else r)"
  shows "f_le f_zero (if f_lt r' f_zero then f_zero else r') \<and> f_le (if f_lt r' f_zero then f_zero else r') f_one"
  using assms by (cases r) (auto simp: f_le_def f_eq_def)

lemma EffectiveRatio_bounds:
  assumes "HedgeRatioTarget p \<noteq> NaN" and "f_finite (WideningStep p)"
  shows "f_le f_zero (EffectiveRatio p c) \<and> f_le (EffectiveRatio p c) f_one"
proof -
  define r1 where "r1 = (case Overrides p (ToUpper c) of
      Some ov \<Rightarrow> if f_lt f_zero (ov_Ratio ov) then ov_Ratio ov else HedgeRatioTarget p
    | None \<Rightarrow> HedgeRatioTarget p)"
  have r1: "r1 \<noteq> NaN"
    using assms(1) by (auto simp: r1_def dest: f_lt_zero_not_NaN split: option.splits)
  define r2 where "r2 = (case tuning p (ToUpper c) of
      Some m \<Rightarrow> if f_lt f_zero (SlippageAlertBPS p) \<and> f_lt (SlippageAlertBPS p) m
                then f_add r1 (WideningStep p) else r1
    | None \<Rightarrow> r1)"
  have "r2 \<noteq> NaN"
    using r1 assms(2) by (auto simp: r2_def dest: f_add_finite_not_NaN split: option.splits)
  from clamp_bounds [OF this] show ?thesis
    by (simp only: EffectiveRatio_def Let_def r1_def [symmetric] r2_def [symmetric])
qed

lemma EffectiveRatio_unit:
  assumes "policy_ok p"
  obtains x where "EffectiveRatio p c = Fin x" and "0 \<le> x" and "x \<le> 1"
proof -
  have "HedgeRatioTarget p \<noteq> NaN" "f_finite (WideningStep p)"
    using assms by (auto simp: policy_ok_def)
  from EffectiveRatio_bounds [OF this, of c] show thesis
    by (auto elim: f_between_Fin intro: that)
qed

lemma EffectiveCap_nonneg: "policy_ok p \<Longrightarrow> f_le f_zero (EffectiveCap p c)"
  by (auto simp: EffectiveCap_def policy_ok_def f_lt_imp_le split: option.splits)

lemma SetOverride_policy_ok [simp]: "policy_ok (SetOverride p c o1) = policy_ok p"
  by (simp add: SetOverride_def policy_ok_def)

lemma ApplySlippageTuning_policy_ok [simp]: "policy_ok (ApplySlippageTuning p c m) = policy_ok p"
  by (simp add: ApplySlippageTuning_def policy_ok_def)

lemma EffectiveCap_tuning [simp]: "EffectiveCap (ApplySlippageTuning p c m) c' = EffectiveCap p c'"
  by (simp add: EffectiveCap_def ApplySlippageTuning_def split: option.splits)

section \<open>The decision\<close>

lemma Decide_None [simp]: "Decide D p c None = Some dec \<Longrightarrow> hd_Notional dec = 0 \<and> \<not> hd_BlockedByCap dec"
  by (auto simp: Decide_def)

text \<open>The decision on an exposure with a finite cap, in one equation over the converted ratio,
  cap and epsilon.\<close>

lemma Decide_finite:
  assumes "e_NetAmount e \<noteq> 0"
    and "NewFromFloat D (EffectiveRatio p c) = Some ratio"
    and "NewFromFloat D (EffectiveCap p c) = Some cap"
    and "NewFromFloat D float_1e_9 = Some eps"
  defines "opn \<equiv> e_NetAmount e - e_HedgeCoverage e"
  defines "gap \<equiv> e_NetAmount e * ratio - e_HedgeCoverage e"
  defines "want \<equiv> (if cap < \<bar>opn\<bar> then \<bar>opn\<bar> else if 0 < e_NetAmount e then max 0 gap else max 0 (- gap))"
  shows "\<exists>reason. Decide D p c (Some e) =
    Some \<lparr>hd_Currency = c, hd_Notional = (if want < eps then 0 else want),
          hd_TenorHint = TenorSpot, hd_BlockedByCap = (cap < \<bar>opn\<bar>), hd_Reason = reason\<rparr>"
  using assms(1-4) by (auto simp: Decide_def Let_def want_def opn_def gap_def max_def)

lemma Decide_total:
  assumes "decimal_ok D" and "policy_ok p" and "f_finite (EffectiveCap p c)"
  obtains ratio cap eps where
    "NewFromFloat D (EffectiveRatio p c) = Some ratio" and "0 \<le> ratio" and "ratio \<le> 1"
    and "NewFromFloat D (EffectiveCap p c) = Some cap" and "0 \<le> cap"
    and "NewFromFloat D float_1e_9 = Some eps" and "eps * 10 ^ 9 = 1" and "0 < eps"
proof -
  obtain x where x: "EffectiveRatio p c = Fin x" "0 \<le> x" "x \<le> 1"
    using assms(2) by (rule EffectiveRatio_unit)
  obtain y where y: "EffectiveCap p c = Fin y"
    using assms(3) by (auto simp: f_finite_def)
  have "0 \<le> y" using EffectiveCap_nonneg [OF assms(2), of c] y by simp
  obtain ratio where r: "NewFromFloat D (Fin x) = Some ratio"
    using decimal_finite [OF assms(1)] by blast
  obtain cap where k: "NewFromFloat D (Fin y) = Some cap"
    using decimal_finite [OF assms(1)] by blast
  obtain eps where "NewFromFloat D float_1e_9 = Some eps" "eps * 10 ^ 9 = 1" "0 < eps"
    using assms(1) by (rule decimal_epsilon)
  then show thesis
    using that [of ratio cap eps] x y r k decimal_nonneg [OF assms(1) r] decimal_le_1 [OF assms(1) r]
      decimal_nonneg [OF assms(1) k] \<open>0 \<le> y\<close> by simp
qed

text \<open>C3. With a finite cap, on a long exposure whose coverage does not exceed it, the decided notional never
  over-hedges, meets the target ratio, and brings the open amount within the cap, up to the
  amounts below \<open>1e-9\<close> that the policy treats as zero.\<close>

theorem Decide_long_sound:
  assumes "decimal_ok D" and "policy_ok p" and "f_finite (EffectiveCap p c)"
    and "0 < e_NetAmount e" and "e_HedgeCoverage e \<le> e_NetAmount e"
  shows "\<exists>dec ratio cap. Decide D p c (Some e) = Some dec \<and>
    NewFromFloat D (EffectiveRatio p c) = Some ratio \<and> NewFromFloat D (EffectiveCap p c) = Some cap \<and>
    0 \<le> hd_Notional dec \<and>
    e_HedgeCoverage e + hd_Notional dec \<le> e_NetAmount e \<and>
    (e_NetAmount e * ratio - (e_HedgeCoverage e + hd_Notional dec)) * 10 ^ 9 < 1 \<and>
    (e_NetAmount e - (e_HedgeCoverage e + hd_Notional dec) \<le> cap \<or>
     (e_NetAmount e - (e_HedgeCoverage e + hd_Notional dec)) * 10 ^ 9 < 1)"
proof -
  obtain ratio cap eps where k:
    "NewFromFloat D (EffectiveRatio p c) = Some ratio" "0 \<le> ratio" "ratio \<le> 1"
    "NewFromFloat D (EffectiveCap p c) = Some cap" "0 \<le> cap"
    "NewFromFloat D float_1e_9 = Some eps" "eps * 10 ^ 9 = 1" "0 < eps"
    using assms(1-3) by (rule Decide_total)
  let ?n = "e_NetAmount e" and ?h = "e_HedgeCoverage e"
  have tgt: "?n * ratio \<le> ?n"
    using assms(4) k(2,3) by (simp add: mult_left_le)
  have small: "x * 10 ^ 9 < 1" if "x < eps" for x
    using that k(7) by (metis mult_strict_right_mono zero_less_numeral zero_less_power)
  obtain reason where dec: "Decide D p c (Some e) =
    Some \<lparr>hd_Currency = c,
          hd_Notional = (if (if cap < \<bar>?n - ?h\<bar> then \<bar>?n - ?h\<bar> else max 0 (?n * ratio - ?h)) < eps
            then 0 else (if cap < \<bar>?n - ?h\<bar> then \<bar>?n - ?h\<bar> else max 0 (?n * ratio - ?h))),
          hd_TenorHint = TenorSpot, hd_BlockedByCap = (cap < \<bar>?n - ?h\<bar>), hd_Reason = reason\<rparr>"
    using Decide_finite [of e D p c ratio cap eps] assms(4) k by auto
  have gap: "(?n * ratio - ?h) * 10 ^ 9 < 1" if "?n - ?h < eps"
    using that tgt by (intro small) linarith
  have full: "(?n * ratio - ?n) * 10 ^ 9 < 1"
    using tgt k(8) by (intro small) linarith
  show ?thesis
    using tgt gap full assms(4,5) k(4,5,8) small [of 0] small [of "?n - ?h"] small [of "?n * ratio - ?h"]
    by (auto simp: dec k(1) max_def abs_if)
qed

text \<open>The policy of an empty environment and a long exposure, for the witnesses.\<close>

definition sample_policy :: policy where
  "sample_policy = policy_New (\<lambda>_. []) (\<lambda>_. (NaN, True))"

definition sample_exposure :: "rat \<Rightarrow> rat \<Rightarrow> rat Exposure" where
  "sample_exposure net cov =
     \<lparr>e_Currency = ''EUR'', e_NetAmount = net, e_HedgeCoverage = cov, e_OpenAmount = net - cov,
      e_UpdatedAt = 1\<rparr>"

lemma sample_policy_ok [simp]: "policy_ok sample_policy"
  by (simp add: sample_policy_def policy_New_policy_ok)

lemma sample_policy_cap [simp]: "EffectiveCap sample_policy c = Fin 1000000"
  by (simp add: EffectiveCap_def sample_policy_def policy_New_def env_float_def cap_default)

lemma sample_policy_ratio [simp]: "EffectiveRatio sample_policy c = Fin (8106479329266893 / 9007199254740992)"
  by (simp add: EffectiveRatio_def sample_policy_def policy_New_def env_float_def ratio_default)

lemma sample_policy_tuning [simp]: "tuning sample_policy = Map.empty"
  by (simp add: sample_policy_def policy_New_def)

lemma sample_exposure_fields [simp]:
  "e_NetAmount (sample_exposure n c) = n" "e_HedgeCoverage (sample_exposure n c) = c"
  "e_OpenAmount (sample_exposure n c) = n - c"
  by (simp_all add: sample_exposure_def)

theorem Decide_long_sound_witness:
  "0 < e_NetAmount (sample_exposure 2000000 500000) \<and>
   (\<exists>dec ratio cap. Decide rat_decimal sample_policy ''EUR'' (Some (sample_exposure 2000000 500000)) = Some dec \<and>
      NewFromFloat rat_decimal (EffectiveRatio sample_policy ''EUR'') = Some ratio \<and>
      NewFromFloat rat_decimal (EffectiveCap sample_policy ''EUR'') = Some cap \<and>
      500000 + hd_Notional dec \<le> 2000000)"
  using Decide_long_sound [of rat_decimal sample_policy "''EUR''" "sample_exposure 2000000 500000"]
  by auto

text \<open>C29. On a short exposure the decision goes the wrong way. With a finite cap and coverage that is not
  negative, the decided notional is the distance to the target, or to zero over the cap, as an
  amount without sign; executed hedges add it to the coverage, so the hedge the policy asks for
  grows the open amount by the whole notional instead of closing it.\<close>

theorem Decide_short_grows_open:
  assumes "decimal_ok D" and "policy_ok p" and "f_finite (EffectiveCap p c)"
    and "e_NetAmount e < 0" and "0 \<le> e_HedgeCoverage e"
  shows "\<exists>dec ratio cap. Decide D p c (Some e) = Some dec \<and>
    NewFromFloat D (EffectiveRatio p c) = Some ratio \<and> NewFromFloat D (EffectiveCap p c) = Some cap \<and>
    (let n = (if cap < e_HedgeCoverage e - e_NetAmount e then e_HedgeCoverage e - e_NetAmount e
              else e_HedgeCoverage e - e_NetAmount e * ratio)
     in 0 \<le> n \<and> hd_Notional dec = (if n * 10 ^ 9 < 1 then 0 else n)) \<and>
    \<bar>e_NetAmount e - (e_HedgeCoverage e + hd_Notional dec)\<bar> =
      \<bar>e_NetAmount e - e_HedgeCoverage e\<bar> + hd_Notional dec"
proof -
  obtain ratio cap eps where k:
    "NewFromFloat D (EffectiveRatio p c) = Some ratio" "0 \<le> ratio" "ratio \<le> 1"
    "NewFromFloat D (EffectiveCap p c) = Some cap" "0 \<le> cap"
    "NewFromFloat D float_1e_9 = Some eps" "eps * 10 ^ 9 = 1" "0 < eps"
    using assms(1-3) by (rule Decide_total)
  have eps: "x < eps \<longleftrightarrow> x * 10 ^ 9 < 1" for x
    using k(7) mult_less_cancel_right_pos [of "10 ^ 9" x eps] by simp
  have tgt: "e_NetAmount e * ratio \<le> 0" using assms(4) k(2) by (simp add: mult_nonpos_nonneg)
  from Decide_finite [of e D p c ratio cap eps] assms(4) k
  obtain dec where dec: "Decide D p c (Some e) = Some dec"
    and n: "hd_Notional dec = (let n = (if cap < e_HedgeCoverage e - e_NetAmount e then e_HedgeCoverage e - e_NetAmount e
              else e_HedgeCoverage e - e_NetAmount e * ratio) in if n < eps then 0 else n)"
    using assms(4,5) tgt by (auto simp: abs_if max_def Let_def)
  have pos: "0 \<le> hd_Notional dec" using n assms(4,5) tgt by (auto simp: Let_def split: if_splits)
  have "\<bar>e_NetAmount e - (e_HedgeCoverage e + hd_Notional dec)\<bar> = \<bar>e_NetAmount e - e_HedgeCoverage e\<bar> + hd_Notional dec"
    using assms(4,5) pos by (simp add: abs_if)
  with dec n k(1,4) assms(4,5) tgt show ?thesis by (simp add: Let_def eps)
qed

theorem Decide_short_grows_open_witness:
  "\<exists>dec. Decide rat_decimal sample_policy ''EUR'' (Some (sample_exposure (-100000) 0)) = Some dec \<and>
     \<bar>-100000 - (0 + hd_Notional dec)\<bar> = \<bar>-100000 - 0\<bar> + hd_Notional dec \<and> hd_Notional dec = 90000"
proof -
  have n: "map_option hd_Notional (Decide rat_decimal sample_policy ''EUR'' (Some (sample_exposure (-100000) 0)))
     = Some 90000"
    by (simp add: Decide_def Let_def)
  show ?thesis
    using Decide_short_grows_open [of rat_decimal sample_policy "''EUR''" "sample_exposure (-100000) 0"] n
    by auto
qed

text \<open>C30. Over-coverage is hedged further: with a finite cap, when the coverage of a long exposure exceeds it by
  more than the cap and by at least \<open>1e-9\<close>, the decision asks for a further hedge of the whole excess,
  which doubles the open amount and leaves the cap breached.\<close>

theorem Decide_overcovered_doubles:
  assumes "decimal_ok D" and "policy_ok p" and "f_finite (EffectiveCap p c)"
    and "0 < e_NetAmount e" and "NewFromFloat D (EffectiveCap p c) = Some cap"
    and "cap < e_HedgeCoverage e - e_NetAmount e" and "1 \<le> (e_HedgeCoverage e - e_NetAmount e) * 10 ^ 9"
  shows "\<exists>dec. Decide D p c (Some e) = Some dec \<and> hd_BlockedByCap dec \<and>
    hd_Notional dec = e_HedgeCoverage e - e_NetAmount e \<and>
    \<bar>e_NetAmount e - (e_HedgeCoverage e + hd_Notional dec)\<bar> = 2 * \<bar>e_NetAmount e - e_HedgeCoverage e\<bar> \<and>
    cap < \<bar>e_NetAmount e - (e_HedgeCoverage e + hd_Notional dec)\<bar>"
proof -
  obtain ratio cap' eps where k:
    "NewFromFloat D (EffectiveRatio p c) = Some ratio" "NewFromFloat D (EffectiveCap p c) = Some cap'" "0 \<le> cap'"
    "NewFromFloat D float_1e_9 = Some eps" "eps * 10 ^ 9 = 1" "0 < eps"
    using assms(1-3) by (rule Decide_total)
  let ?x = "e_HedgeCoverage e - e_NetAmount e"
  have x: "0 < ?x" using assms(5,6) k(2,3) by simp
  then have a: "\<bar>e_NetAmount e - e_HedgeCoverage e\<bar> = ?x" by (simp add: abs_if)
  have "\<not> ?x < eps" using assms(7) k(5) by (metis mult_strict_right_mono not_less zero_less_numeral zero_less_power)
  with Decide_finite [of e D p c ratio cap eps] assms(4-6) k a
  obtain dec where "Decide D p c (Some e) = Some dec" "hd_BlockedByCap dec" "hd_Notional dec = ?x" by auto
  moreover have "\<bar>e_NetAmount e - (e_HedgeCoverage e + ?x)\<bar> = 2 * ?x" using x by (simp add: abs_if)
  ultimately show ?thesis using a x assms(6) by auto
qed

theorem Decide_overcovered_doubles_witness:
  "\<exists>dec. Decide rat_decimal sample_policy ''EUR'' (Some (sample_exposure 100 2000100)) = Some dec \<and> hd_Notional dec = 2000000"
  using Decide_overcovered_doubles [of rat_decimal sample_policy "''EUR''" "sample_exposure 100 2000100" 1000000] by auto

text \<open>C31. \<open>Decide\<close> panics exactly when there is a non-zero net amount and the cap that applies is
  infinite or NaN; with a finite cap every decision returns.\<close>

theorem Decide_panics_iff:
  assumes "decimal_ok D" and "policy_ok p"
  shows "Decide D p c expo = None \<longleftrightarrow>
    (\<exists>e. expo = Some e \<and> e_NetAmount e \<noteq> 0 \<and> \<not> f_finite (EffectiveCap p c))"
proof (cases "f_finite (EffectiveCap p c)")
  case True
  obtain ratio cap eps where k:
    "NewFromFloat D (EffectiveRatio p c) = Some ratio"
    "NewFromFloat D (EffectiveCap p c) = Some cap"
    "NewFromFloat D float_1e_9 = Some eps"
    using assms True by (rule Decide_total)
  with True show ?thesis
    by (auto simp: Decide_def Let_def split: option.splits)
next
  case False
  then have "NewFromFloat D (EffectiveCap p c) = None"
    using assms(1) by (simp add: decimal_panics)
  with False show ?thesis
    by (auto simp: Decide_def Let_def split: option.splits)
qed

text \<open>An environment in which the cap is the string \<open>Inf\<close>, which \<open>strconv.ParseFloat\<close> reads as
  the positive infinity without an error.\<close>

definition inf_env :: "string \<Rightarrow> string" where
  "inf_env k = (if k = ''MAX_OPEN_EXPOSURE_USD'' then ''Inf'' else [])"

definition inf_parse :: "string \<Rightarrow> float64 \<times> bool" where
  "inf_parse s = (if s = ''Inf'' then (PosInf, False) else (NaN, True))"

lemma inf_policy_cap: "EffectiveCap (policy_New inf_env inf_parse) c = PosInf"
  by (simp add: EffectiveCap_def policy_New_def env_float_def inf_env_def inf_parse_def)

theorem Decide_panics_iff_witness:
  "Decide rat_decimal (policy_New inf_env inf_parse) ''EUR'' (Some (sample_exposure 100 0)) = None"
  using Decide_panics_iff [of rat_decimal "policy_New inf_env inf_parse" "''EUR''" "Some (sample_exposure 100 0)"]
  by (simp add: policy_New_policy_ok inf_policy_cap f_finite_def)

section \<open>Histories of a policy\<close>

text \<open>The two methods that change a policy after \<open>New\<close>, and a history of them.\<close>

datatype policy_op = OpSetOverride string Override | OpApplySlippageTuning string float64

fun policy_step :: "policy_op \<Rightarrow> policy \<Rightarrow> policy" where
  "policy_step (OpSetOverride c o1) p = SetOverride p c o1"
| "policy_step (OpApplySlippageTuning c m) p = ApplySlippageTuning p c m"

lemma policy_step_ok [simp]: "policy_ok (policy_step x p) = policy_ok p"
  by (cases x) simp_all

lemma policy_history_ok: "policy_ok (fold policy_step ops p) = policy_ok p"
  by (induction ops arbitrary: p) simp_all

text \<open>C32. Whatever the environment, the parser of floats and the history of overrides and tunings
  are, infinities and NaN included, the effective ratio is a number between 0 and 1 and the
  effective cap is a number that is not negative.\<close>

theorem policy_history_bounds:
  fixes env pf ops c
  defines "p \<equiv> fold policy_step ops (policy_New env pf)"
  shows "f_le f_zero (EffectiveRatio p c) \<and> f_le (EffectiveRatio p c) f_one \<and>
         f_le f_zero (EffectiveCap p c)"
proof -
  have p: "policy_ok p"
    by (simp add: p_def policy_history_ok policy_New_policy_ok)
  obtain x where "EffectiveRatio p c = Fin x" "0 \<le> x" "x \<le> 1"
    using p by (rule EffectiveRatio_unit)
  with EffectiveCap_nonneg [OF p, of c] show ?thesis
    by simp
qed

lemma Split_append_sep: "Split sep (s @ sep # t) = Split sep s @ Split sep t"
  by (induction s) (auto split: list.splits)

lemma Split_no_sep: "sep \<notin> set s \<Longrightarrow> Split sep s = [s]"
  by (induction s) auto

lemma parse_override_other:
  "k \<noteq> ToUpper (TrimSpace (Split CHR '':'' (TrimSpace entry) ! 0)) \<Longrightarrow> parse_override pf entry out k = out k"
  by (auto simp: parse_override_def Let_def)

text \<open>Every entry \<open>parseOverrides\<close> keeps has a non-empty upper-case currency and a positive
  ratio or a positive cap, and an entry for a currency does not disturb the others: parsing
  \<open>v\<close>, a semicolon and one more entry changes at most the currency of that entry.\<close>

theorem parseOverrides_entries:
  "(\<forall>k ov. parseOverrides pf v k = Some ov \<longrightarrow> override_ok k ov) \<and>
   (CHR '';'' \<notin> set entry \<longrightarrow>
      k \<noteq> ToUpper (TrimSpace (Split CHR '':'' (TrimSpace entry) ! 0)) \<longrightarrow>
      parseOverrides pf (v @ '';'' @ entry) k = parseOverrides pf v k)"
  using fold_parse_override_ok [of Map.empty pf "Split CHR '';'' v"]
  by (auto simp: parseOverrides_def Split_append_sep Split_no_sep parse_override_other)

definition sample_parse :: "string \<Rightarrow> float64 \<times> bool" where
  "sample_parse s =
     (if s = ''1.0'' then (Fin 1, False) else if s = ''50000'' then (Fin 50000, False)
      else if s = ''0.5'' then (Fin (1 / 2), False) else (f_zero, True))"

lemma sample_overrides:
  "parseOverrides sample_parse ''TRY:1.0:50000'' ''TRY'' = Some \<lparr>ov_Ratio = Fin 1, ov_CapUSD = Fin 50000\<rparr>"
  by code_simp

theorem parseOverrides_entries_witness:
  "parseOverrides sample_parse (''TRY:1.0:50000'' @ '';'' @ ''brl:0.5'') ''TRY'' =
     Some \<lparr>ov_Ratio = Fin 1, ov_CapUSD = Fin 50000\<rparr>"
proof -
  have c: "ToUpper (TrimSpace (Split CHR '':'' (TrimSpace ''brl:0.5'') ! 0)) = ''BRL''"
    by code_simp
  show ?thesis
    using parseOverrides_entries [of sample_parse "''TRY:1.0:50000''" "''brl:0.5''" "''TRY''"]
    by (simp add: c sample_overrides)
qed

section \<open>Overrides and the breach test\<close>

text \<open>An override takes precedence for its currency, whatever the case of the code, and leaves
  the others alone: with a positive ratio and no tuning the effective ratio is the override's,
  clamped to 1; with a positive cap the effective cap is the override's.\<close>

theorem SetOverride_precedence:
  assumes "f_lt f_zero (ov_Ratio ov)" and "f_lt f_zero (ov_CapUSD ov)"
    and "tuning p (ToUpper c) = None" and "ToUpper c = ToUpper c'" and "ToUpper other \<noteq> ToUpper c"
  shows "EffectiveRatio (SetOverride p c ov) c' = (if f_lt f_one (ov_Ratio ov) then f_one else ov_Ratio ov) \<and>
         EffectiveCap (SetOverride p c ov) c' = ov_CapUSD ov \<and>
         EffectiveRatio (SetOverride p c ov) other = EffectiveRatio p other \<and>
         EffectiveCap (SetOverride p c ov) other = EffectiveCap p other"
proof -
  have "\<not> f_lt (ov_Ratio ov) f_zero"
    using assms(1) f_lt_trans f_lt_irrefl by blast
  with assms show ?thesis
    by (auto simp: EffectiveRatio_def EffectiveCap_def SetOverride_def Let_def split: option.splits)
qed

theorem SetOverride_precedence_witness:
  "EffectiveRatio (SetOverride sample_policy ''try'' \<lparr>ov_Ratio = Fin (1 / 2), ov_CapUSD = Fin 50000\<rparr>) ''TRY'' = Fin (1 / 2) \<and>
   EffectiveCap (SetOverride sample_policy ''try'' \<lparr>ov_Ratio = Fin (1 / 2), ov_CapUSD = Fin 50000\<rparr>) ''EUR'' = Fin 1000000"
proof -
  have u: "ToUpper ''try'' = ToUpper ''TRY''" by code_simp
  have v: "ToUpper ''EUR'' \<noteq> ToUpper ''try''" by code_simp
  show ?thesis
    using SetOverride_precedence [OF _ _ _ u v, of "\<lparr>ov_Ratio = Fin (1 / 2), ov_CapUSD = Fin 50000\<rparr>" sample_policy]
    by simp
qed

text \<open>\<open>Breach\<close> and the flag of \<open>Decide\<close> agree on every snapshot the tracker produces with a
  non-zero net amount. With a net amount of zero they part: \<open>Decide\<close> never flags a breach, while
  \<open>Breach\<close> still compares the coverage that is left with the cap.\<close>

theorem Decide_Breach:
  assumes "decimal_ok D" and "policy_ok p" and "f_finite (EffectiveCap p c)"
    and "e_OpenAmount e = e_NetAmount e - e_HedgeCoverage e"
  shows "\<exists>dec cap. Decide D p c (Some e) = Some dec \<and> NewFromFloat D (EffectiveCap p c) = Some cap \<and>
    Breach D p c (Some e) = Some (cap < \<bar>e_NetAmount e - e_HedgeCoverage e\<bar>) \<and>
    (hd_BlockedByCap dec \<longleftrightarrow> e_NetAmount e \<noteq> 0 \<and> Breach D p c (Some e) = Some True)"
proof -
  obtain ratio cap eps where k:
    "NewFromFloat D (EffectiveRatio p c) = Some ratio"
    "NewFromFloat D (EffectiveCap p c) = Some cap"
    "NewFromFloat D float_1e_9 = Some eps"
    using assms(1-3) by (rule Decide_total)
  have b: "Breach D p c (Some e) = Some (cap < \<bar>e_NetAmount e - e_HedgeCoverage e\<bar>)"
    using assms(4) k(2) by (auto simp: Breach_def Let_def)
  show ?thesis
    by (cases "e_NetAmount e = 0") (use Decide_finite [of e D p c ratio cap eps] k b in
      \<open>auto simp: Decide_def\<close>)
qed

theorem Decide_Breach_witness:
  "\<exists>dec. Decide rat_decimal sample_policy ''EUR'' (Some (sample_exposure 0 2000000)) = Some dec \<and>
     \<not> hd_BlockedByCap dec \<and> Breach rat_decimal sample_policy ''EUR'' (Some (sample_exposure 0 2000000)) = Some True"
  using Decide_Breach [of rat_decimal sample_policy "''EUR''" "sample_exposure 0 2000000"]
  by auto

text \<open>\<open>ShouldHedge\<close> asks for a hedge exactly when the decision has a positive notional, which it
  then returns.\<close>

lemma ShouldHedge_Decide:
  "ShouldHedge D p c expo = map_option (\<lambda>dec. (0 < hd_Notional dec, hd_Notional dec)) (Decide D p c expo)"
proof (cases "Decide D p c expo")
  case None
  then show ?thesis by (simp add: ShouldHedge_def)
next
  case (Some dec)
  then have "hd_Notional dec \<ge> 0"
    by (auto simp: Decide_def Let_def split: option.splits if_splits)
  with Some show ?thesis
    by (auto simp: ShouldHedge_def)
qed

end
