(* ===== verification/World.thy ===== *)
theory World
  imports Domain
begin

text \<open>
  What the service sees of its surroundings: the clock, fresh UUIDs, HTTP servers and a Kafka
  broker. They are not part of the repository, so each is an oracle of the record \<open>world\<close> that
  the definitions take and return: an arbitrary function of how often it was asked (and of the
  request), together with the log of what the service did to it. A theorem that quantifies over
  the world holds for every behaviour of the clock, the network and the peers.
\<close>

section \<open>Requests and responses\<close>

record 'b http_request =
  rq_Method :: string
  rq_URL :: string
  rq_Header :: "(string \<times> string) list"
  rq_Body :: 'b

record http_response =
  rs_StatusCode :: int
  rs_Body :: string

text \<open>The reply of \<open>http.Client.Do\<close> is the text of an error or a response.\<close>

type_synonym http_reply = "string + http_response"

record 'b world =
  w_clock :: "nat \<Rightarrow> time"
  w_ticks :: nat
  w_uuid :: "nat \<Rightarrow> string"
  w_ids :: nat
  w_url_err :: "string \<Rightarrow> string option"
  w_http :: "nat \<Rightarrow> 'b http_request \<Rightarrow> http_reply"
  w_sent :: "'b http_request list"
  w_kafka :: "nat \<Rightarrow> string \<times> 'b \<Rightarrow> string option"
  w_msgs :: "(string \<times> 'b) list"
  w_slept :: "duration list"

section \<open>Actions\<close>

definition time_now :: "'b world \<Rightarrow> time \<times> 'b world" where
  "time_now w = (w_clock w (w_ticks w), w\<lparr>w_ticks := Suc (w_ticks w)\<rparr>)"

definition new_uuid :: "'b world \<Rightarrow> string \<times> 'b world" where
  "new_uuid w = (w_uuid w (w_ids w), w\<lparr>w_ids := Suc (w_ids w)\<rparr>)"

definition http_do :: "'b http_request \<Rightarrow> 'b world \<Rightarrow> http_reply \<times> 'b world" where
  "http_do rq w = (w_http w (length (w_sent w)) rq, w\<lparr>w_sent := w_sent w @ [rq]\<rparr>)"

definition kafka_write :: "string \<times> 'b \<Rightarrow> 'b world \<Rightarrow> string option \<times> 'b world" where
  "kafka_write m w = (w_kafka w (length (w_msgs w)) m, w\<lparr>w_msgs := w_msgs w @ [m]\<rparr>)"

definition sleep_for :: "duration \<Rightarrow> 'b world \<Rightarrow> 'b world" where
  "sleep_for d w = w\<lparr>w_slept := w_slept w @ [d]\<rparr>"

text \<open>\<open>http.NewRequestWithContext\<close> fails on a URL that does not parse.\<close>

definition new_request ::
  "'b world \<Rightarrow> string \<Rightarrow> string \<Rightarrow> (string \<times> string) list \<Rightarrow> 'b \<Rightarrow> string + 'b http_request" where
  "new_request w meth url hdr body =
     (case w_url_err w url of
        Some e \<Rightarrow> Inl e
      | None \<Rightarrow> Inr \<lparr>rq_Method = meth, rq_URL = url, rq_Header = hdr, rq_Body = body\<rparr>)"

definition status_ok :: "int \<Rightarrow> bool" where
  "status_ok c \<longleftrightarrow> 200 \<le> c \<and> c < 300"

section \<open>What an action leaves alone\<close>

text \<open>The oracles never change; an action adds to its own log only.\<close>

definition same_oracles :: "'b world \<Rightarrow> 'b world \<Rightarrow> bool" where
  "same_oracles w w' \<longleftrightarrow> w_clock w' = w_clock w \<and> w_uuid w' = w_uuid w \<and> w_url_err w' = w_url_err w \<and>
     w_http w' = w_http w \<and> w_kafka w' = w_kafka w"

lemma same_oracles_refl [simp]: "same_oracles w w"
  by (simp add: same_oracles_def)

lemma same_oracles_trans: "same_oracles w w' \<Longrightarrow> same_oracles w' w'' \<Longrightarrow> same_oracles w w''"
  by (simp add: same_oracles_def)

lemma time_now_frame [frame_simps, simp]:
  "fst (time_now w) = w_clock w (w_ticks w)" "w_ticks (snd (time_now w)) = Suc (w_ticks w)"
  "w_ids (snd (time_now w)) = w_ids w" "w_sent (snd (time_now w)) = w_sent w"
  "w_msgs (snd (time_now w)) = w_msgs w" "w_slept (snd (time_now w)) = w_slept w"
  "same_oracles w (snd (time_now w))"
  by (simp_all add: time_now_def same_oracles_def)

lemma new_uuid_frame [frame_simps, simp]:
  "fst (new_uuid w) = w_uuid w (w_ids w)" "w_ids (snd (new_uuid w)) = Suc (w_ids w)"
  "w_ticks (snd (new_uuid w)) = w_ticks w" "w_sent (snd (new_uuid w)) = w_sent w"
  "w_msgs (snd (new_uuid w)) = w_msgs w" "same_oracles w (snd (new_uuid w))"
  by (simp_all add: new_uuid_def same_oracles_def)

lemma http_do_frame [frame_simps, simp]:
  "fst (http_do rq w) = w_http w (length (w_sent w)) rq" "w_sent (snd (http_do rq w)) = w_sent w @ [rq]"
  "w_ids (snd (http_do rq w)) = w_ids w" "w_ticks (snd (http_do rq w)) = w_ticks w"
  "w_msgs (snd (http_do rq w)) = w_msgs w" "w_slept (snd (http_do rq w)) = w_slept w"
  "same_oracles w (snd (http_do rq w))"
  by (simp_all add: http_do_def same_oracles_def)

lemma kafka_write_frame [frame_simps, simp]:
  "fst (kafka_write m w) = w_kafka w (length (w_msgs w)) m" "w_msgs (snd (kafka_write m w)) = w_msgs w @ [m]"
  "w_ids (snd (kafka_write m w)) = w_ids w" "w_ticks (snd (kafka_write m w)) = w_ticks w"
  "w_sent (snd (kafka_write m w)) = w_sent w" "same_oracles w (snd (kafka_write m w))"
  by (simp_all add: kafka_write_def same_oracles_def)

lemma sleep_for_frame [frame_simps, simp]:
  "w_sent (sleep_for d w) = w_sent w" "w_ids (sleep_for d w) = w_ids w" "w_ticks (sleep_for d w) = w_ticks w"
  "w_msgs (sleep_for d w) = w_msgs w" "w_slept (sleep_for d w) = w_slept w @ [d]"
  "same_oracles w (sleep_for d w)"
  by (simp_all add: sleep_for_def same_oracles_def)

lemma same_oracles_simps:
  "same_oracles w w' \<Longrightarrow> w_clock w' = w_clock w" "same_oracles w w' \<Longrightarrow> w_uuid w' = w_uuid w"
  "same_oracles w w' \<Longrightarrow> w_url_err w' = w_url_err w" "same_oracles w w' \<Longrightarrow> w_http w' = w_http w"
  "same_oracles w w' \<Longrightarrow> w_kafka w' = w_kafka w"
  by (simp_all add: same_oracles_def)

lemma oracles_kept [simp]:
  "w_http (snd (time_now w)) = w_http w" "w_url_err (snd (time_now w)) = w_url_err w"
  "w_http (sleep_for d w) = w_http w" "w_url_err (sleep_for d w) = w_url_err w"
  "w_http (snd (http_do rq w)) = w_http w" "w_url_err (snd (http_do rq w)) = w_url_err w"
  "w_uuid (snd (time_now w)) = w_uuid w" "w_clock (snd (new_uuid w)) = w_clock w"
  "w_clock (snd (time_now w)) = w_clock w" "w_uuid (snd (new_uuid w)) = w_uuid w"
  by (simp_all add: time_now_def sleep_for_def http_do_def new_uuid_def)

end
