(* ===== verification/AuditLog.thy ===== *)
theory AuditLog
  imports World
begin

text \<open>
  The audit sinks of \<open>internal/audit/audit.go\<close>: the event types and the event record, the in-memory
  \<open>Recorder\<close> and the sink that discards. What the handlers rely on of a sink is the locale
  \<open>audit_sink\<close>: emitting appends to the log and to nothing else. It is interpreted on both sinks.
\<close>

section \<open>Events\<close>

datatype EventType =
  EventHedgeCreated | EventHedgeExecuted | EventHedgeFailed | EventExposureAdded
| EventCapBreach | EventSlippageAlert | EventPnLEntry | EventSettlement

fun event_string :: "EventType \<Rightarrow> string" where
  "event_string EventHedgeCreated = ''hedge_created''"
| "event_string EventHedgeExecuted = ''hedge_executed''"
| "event_string EventHedgeFailed = ''hedge_failed''"
| "event_string EventExposureAdded = ''exposure_added''"
| "event_string EventCapBreach = ''cap_breach''"
| "event_string EventSlippageAlert = ''slippage_alert''"
| "event_string EventPnLEntry = ''pnl_entry''"
| "event_string EventSettlement = ''settlement_obligation''"

record Event =
  ae_Type :: EventType
  ae_HedgeID :: string
  ae_Currency :: string
  ae_Detail :: string
  ae_At :: time

section \<open>Sinks\<close>

text \<open>\<open>Recorder.Emit\<close> reads the clock only for an event without a time.\<close>

record recorder =
  rec_events :: "Event list"

definition NewRecorder :: recorder where
  "NewRecorder = \<lparr>rec_events = []\<rparr>"

definition recorder_Emit :: "recorder \<Rightarrow> Event \<Rightarrow> 'b world \<Rightarrow> recorder \<times> 'b world" where
  "recorder_Emit r e w =
     (let (e', w') = (if ae_At e = 0 then (let (now, w1) = time_now w in (e\<lparr>ae_At := now\<rparr>, w1)) else (e, w))
      in (r\<lparr>rec_events := rec_events r @ [e']\<rparr>, w'))"

definition recorder_Events :: "recorder \<Rightarrow> Event list" where
  "recorder_Events r = rec_events r"

definition NopSink_Emit :: "unit \<Rightarrow> Event \<Rightarrow> 'b world \<Rightarrow> unit \<times> 'b world" where
  "NopSink_Emit u e w = ((), w)"

text \<open>The interface \<open>Sink\<close> holds a recorder or the discarding sink.\<close>

datatype sink = SinkRecorder recorder | SinkNop

fun sink_Emit :: "sink \<Rightarrow> Event \<Rightarrow> 'b world \<Rightarrow> sink \<times> 'b world" where
  "sink_Emit (SinkRecorder r) e w = (let (r', w') = recorder_Emit r e w in (SinkRecorder r', w'))"
| "sink_Emit SinkNop e w = (SinkNop, snd (NopSink_Emit () e w))"

section \<open>The interface\<close>

text \<open>A sink has a log that only grows at its end, by at most the event emitted, with its type,
  hedge and currency unchanged and its time only filled in; it uses nothing of the world but the
  clock.\<close>

definition stamped :: "Event \<Rightarrow> Event \<Rightarrow> bool" where
  "stamped e e' \<longleftrightarrow> ae_Type e' = ae_Type e \<and> ae_HedgeID e' = ae_HedgeID e \<and> ae_Currency e' = ae_Currency e \<and>
     ae_Detail e' = ae_Detail e \<and> (ae_At e \<noteq> 0 \<longrightarrow> ae_At e' = ae_At e)"

locale audit_sink =
  fixes emit :: "'s \<Rightarrow> Event \<Rightarrow> 'b world \<Rightarrow> 's \<times> 'b world"
    and log :: "'s \<Rightarrow> Event list"
    and keeps :: "Event \<Rightarrow> bool"
  assumes emit_log: "\<exists>e'. stamped e e' \<and> log (fst (emit s e w)) = log s @ (if keeps e then [e'] else [])"
    and emit_world: "w_sent (snd (emit s e w)) = w_sent w \<and> w_msgs (snd (emit s e w)) = w_msgs w \<and>
      w_ids (snd (emit s e w)) = w_ids w \<and> same_oracles w (snd (emit s e w))"
begin

fun emit_all :: "Event list \<Rightarrow> 's \<Rightarrow> 'b world \<Rightarrow> 's \<times> 'b world" where
  "emit_all [] s w = (s, w)"
| "emit_all (e # es) s w = (let (s', w') = emit s e w in emit_all es s' w')"

text \<open>Whatever is emitted, the old log is a prefix of the new one and the kept events follow it in
  the order they were emitted.\<close>

lemma emit_all_log:
  "\<exists>es'. log (fst (emit_all es s w)) = log s @ es' \<and> list_all2 stamped (filter keeps es) es'"
proof (induction es arbitrary: s w)
  case (Cons e es)
  obtain s' w' where sw: "emit s e w = (s', w')" by fastforce
  from emit_log [of e s w] obtain e' where e': "stamped e e'" "log s' = log s @ (if keeps e then [e'] else [])"
    using sw by auto
  from Cons [of s' w'] obtain es' where
    "log (fst (emit_all es s' w')) = log s' @ es'" "list_all2 stamped (filter keeps es) es'" by blast
  with e' sw show ?case
    by (intro exI [of _ "(if keeps e then [e'] else []) @ es'"]) simp
qed simp

lemma emit_all_silent:
  "w_sent (snd (emit_all es s w)) = w_sent w \<and> w_msgs (snd (emit_all es s w)) = w_msgs w"
proof (induction es arbitrary: s w)
  case (Cons e es)
  then show ?case using emit_world [of s e w] by (simp add: case_prod_beta)
qed simp

end

lemma recorder_Emit_events:
  "recorder_Events (fst (recorder_Emit r e w)) =
     recorder_Events r @ [if ae_At e = 0 then e\<lparr>ae_At := w_clock w (w_ticks w)\<rparr> else e]"
  by (simp add: recorder_Emit_def recorder_Events_def Let_def case_prod_beta)

lemma recorder_Emit_world:
  "snd (recorder_Emit r e w) = (if ae_At e = 0 then snd (time_now w) else w)"
  by (simp add: recorder_Emit_def Let_def case_prod_beta)

interpretation recorder: audit_sink recorder_Emit recorder_Events "\<lambda>_. True"
proof unfold_locales
  fix e :: Event and s and w :: "'b world"
  show "\<exists>e'. stamped e e' \<and> recorder_Events (fst (recorder_Emit s e w)) = recorder_Events s @ (if True then [e'] else [])"
    by (intro exI [of _ "if ae_At e = 0 then e\<lparr>ae_At := w_clock w (w_ticks w)\<rparr> else e"])
      (simp add: stamped_def recorder_Emit_events)
qed (simp_all add: recorder_Emit_world)

interpretation nop: audit_sink NopSink_Emit "\<lambda>_. []" "\<lambda>_. False"
  by unfold_locales (auto simp: NopSink_Emit_def stamped_def)

section \<open>Any sink\<close>

fun sink_log :: "sink \<Rightarrow> Event list" where
  "sink_log (SinkRecorder r) = recorder_Events r"
| "sink_log SinkNop = []"

lemma sink_Emit_world:
  "w_sent (snd (sink_Emit s e w)) = w_sent w" "w_msgs (snd (sink_Emit s e w)) = w_msgs w"
  "w_ids (snd (sink_Emit s e w)) = w_ids w" "same_oracles w (snd (sink_Emit s e w))"
  by (cases s; simp add: recorder_Emit_world NopSink_Emit_def case_prod_beta)+

lemma event_string_inj: "event_string t = event_string t' \<longleftrightarrow> t = t'"
  by (cases t; cases t') simp_all

end
