(* ===== verification/Clients.thy ===== *)
theory Clients
  imports AuditLog
begin

text \<open>
  The outbound clients of \<open>internal/clients/clients.go\<close>: the audit-event-log client (Kafka or HTTP), the
  Reconciliation client and the in-memory dead-letter store. Both clients run the same loop of
  three attempts. A JSON body is represented by the value that is encoded; encoding fails exactly
  on a float that is not finite.
\<close>

section \<open>Payloads\<close>

record 'd AuditPayload =
  ap_EventType :: string
  ap_Source :: string
  ap_HedgeID :: string
  ap_Currency :: string
  ap_Detail :: string
  ap_At :: string
  ap_Amount :: 'd

record 'd ExecutionRecord =
  er_HedgeID :: string
  er_Currency :: string
  er_Venue :: string
  er_VenueTradeID :: string
  er_Notional :: 'd
  er_FillPrice :: 'd
  er_QuotedPrice :: 'd
  er_SlippageBPS :: float64
  er_ExecutedAt :: string

record 'd envelope =
  en_schema_version :: string
  en_id :: string
  en_ts :: string
  en_source_service :: string
  en_actor_id :: string
  en_action :: string
  en_target_type :: string
  en_target_id :: string
  en_payload_hash :: string
  en_payload :: "'d AuditPayload"

datatype 'd body =
  AuditBody "'d AuditPayload"
| ExecutionBody "'d ExecutionRecord"
| ObligationBody "'d SettlementObligation"
| EnvelopeBody "'d envelope"
| TextBody string
| NoBody

fun json_error :: "'d body \<Rightarrow> string option" where
  "json_error (ExecutionBody r) =
     (if f_finite (er_SlippageBPS r) then None else Some ''json: unsupported value'')"
| "json_error _ = None"

type_synonym 'd net = "'d body world"

text \<open>The encodings of the standard library that only occur inside keys and messages: the layouts of
  times, the number formats and the hash of a payload.\<close>

record 'd go_fmt =
  RFC3339 :: "time \<Rightarrow> string"
  RFC3339Nano :: "time \<Rightarrow> string"
  FormatG :: "float64 \<Rightarrow> string"
  FormatF2 :: "float64 \<Rightarrow> string"
  FormatInt :: "int \<Rightarrow> string"
  sha256_hex :: "'d body \<Rightarrow> string"

section \<open>The dead-letter store\<close>

record 'd DeadLetter =
  dl_Topic :: string
  dl_Key :: string
  dl_Payload :: "'d body"
  dl_Reason :: string
  dl_At :: time

type_synonym 'd MemDeadLetter = "'d DeadLetter list"

definition NewMemDeadLetter :: "'d MemDeadLetter" where
  "NewMemDeadLetter = []"

definition DeadLetter_Append :: "'d MemDeadLetter \<Rightarrow> 'd DeadLetter \<Rightarrow> 'd MemDeadLetter" where
  "DeadLetter_Append m dl = m @ [dl]"

definition DeadLetter_List :: "'d MemDeadLetter \<Rightarrow> int \<Rightarrow> 'd DeadLetter list" where
  "DeadLetter_List m limit0 =
     (let limit = (if limit0 \<le> 0 \<or> int (length m) < limit0 then int (length m) else limit0)
      in take (nat limit) m)"

text \<open>A client may have no store; both clients share the one they have. The two \<open>deadLetter\<close>
  methods have the same text.\<close>

definition deadLetter ::
  "string \<Rightarrow> string \<Rightarrow> 'd body \<Rightarrow> string \<Rightarrow> 'd MemDeadLetter option \<Rightarrow> 'd net \<Rightarrow>
   'd MemDeadLetter option \<times> 'd net" where
  "deadLetter topic key payload reason dl w =
     (case dl of None \<Rightarrow> (None, w) | Some m \<Rightarrow>
        (let (now, w1) = time_now w
         in (Some (DeadLetter_Append m \<lparr>dl_Topic = topic, dl_Key = key, dl_Payload = payload,
                                        dl_Reason = reason, dl_At = now\<rparr>), w1)))"

section \<open>The delivery loop\<close>

datatype client_error =
  ErrUnavailable string | ErrBadRequest string | RequestError string | MarshalError string | CtxError string

text \<open>\<open>ctx n\<close> is the error of the context if it ends during the wait before the last \<open>n\<close>
  attempts. \<open>context.Background()\<close> never ends.\<close>

type_synonym ctx = "nat \<Rightarrow> string option"

definition Background :: ctx where
  "Background = (\<lambda>_. None)"

definition post_headers :: "string \<Rightarrow> (string \<times> string) list" where
  "post_headers key =
     (''Content-Type'', ''application/json'') # (if key \<noteq> [] then [(''Idempotency-Key'', key)] else [])"

text \<open>The loop of \<open>Emit\<close> and of \<open>publish\<close>, with the number of attempts left: the waits happen while
  another attempt is left.\<close>

fun post_loop ::
  "'d go_fmt \<Rightarrow> ctx \<Rightarrow> string \<Rightarrow> string \<Rightarrow> string \<Rightarrow> 'd body \<Rightarrow> nat \<Rightarrow> duration \<Rightarrow>
   'd MemDeadLetter option \<Rightarrow> 'd net \<Rightarrow> client_error option \<times> 'd MemDeadLetter option \<times> 'd net" where
  "post_loop F ctx topic url key body 0 backoff dl w = (None, dl, w)"
| "post_loop F ctx topic url key body (Suc n) backoff dl w =
     (case new_request w ''POST'' url (post_headers key) body of
        Inl e \<Rightarrow> (Some (RequestError e), dl, w)
      | Inr rq \<Rightarrow>
          (let (reply, w1) = http_do rq w in
           case reply of
             Inl err \<Rightarrow>
               if 0 < n then
                 (case ctx n of
                    Some e \<Rightarrow> (Some (CtxError e), dl, w1)
                  | None \<Rightarrow> post_loop F ctx topic url key body n (backoff * 2) dl (sleep_for backoff w1))
               else (let (dl', w2) = deadLetter topic key body err dl w1
                     in (Some (ErrUnavailable err), dl', w2))
           | Inr resp \<Rightarrow>
               if status_ok (rs_StatusCode resp) then (None, dl, w1)
               else if rs_StatusCode resp = 400 then (Some (ErrBadRequest (rs_Body resp)), dl, w1)
               else if 0 < n then
                 (case ctx n of
                    Some e \<Rightarrow> (Some (CtxError e), dl, w1)
                  | None \<Rightarrow> post_loop F ctx topic url key body n (backoff * 2) dl (sleep_for backoff w1))
               else (let (dl', w2) = deadLetter topic key body
                           (''status '' @ FormatInt F (rs_StatusCode resp) @ '': '' @ rs_Body resp) dl w1
                     in (Some (ErrUnavailable (''status '' @ FormatInt F (rs_StatusCode resp))), dl', w2))))"

section \<open>The audit client\<close>

record AuditClient =
  ac_baseURL :: string
  ac_kafka :: "string list option"
  ac_last :: "string \<rightharpoonup> string"

definition splitCSV :: "string \<Rightarrow> string list" where
  "splitCSV s = filter (\<lambda>p. p \<noteq> []) (map TrimSpace (Split CHR '','' s))"

definition NewAuditClient :: "(string \<Rightarrow> string) \<Rightarrow> AuditClient" where
  "NewAuditClient env =
     \<lparr>ac_baseURL = env ''AUDIT_EVENT_LOG_URL'',
      ac_kafka = (if env ''KAFKA_BROKERS'' \<noteq> [] then Some (splitCSV (env ''KAFKA_BROKERS'')) else None),
      ac_last = Map.empty\<rparr>"

definition emitKafka ::
  "'d go_fmt \<Rightarrow> 'd AuditPayload \<Rightarrow> string \<Rightarrow> 'd MemDeadLetter option \<Rightarrow> 'd net \<Rightarrow>
   client_error option \<times> 'd MemDeadLetter option \<times> 'd net" where
  "emitKafka F ev eventID dl w =
     (let (uid, w1) = (if eventID = [] then new_uuid w else (eventID, w));
          env = \<lparr>en_schema_version = ''1'', en_id = uid, en_ts = ap_At ev, en_source_service = ''fx-hedging'',
                 en_actor_id = ''fx-hedging'', en_action = ap_EventType ev, en_target_type = ''hedge'',
                 en_target_id = ap_HedgeID ev, en_payload_hash = ''sha256:'' @ sha256_hex F (AuditBody ev),
                 en_payload = ev\<rparr>;
          (err, w2) = kafka_write (uid, EnvelopeBody env) w1
      in (case err of
            Some e \<Rightarrow> (let (dl', w3) = deadLetter ''audit'' uid (EnvelopeBody env) e dl w2
                       in (Some (ErrUnavailable e), dl', w3))
          | None \<Rightarrow> (None, dl, w2)))"

definition AuditClient_Emit ::
  "'d go_fmt \<Rightarrow> ctx \<Rightarrow> AuditClient \<Rightarrow> 'd AuditPayload \<Rightarrow> string \<Rightarrow> string \<Rightarrow> 'd MemDeadLetter option \<Rightarrow> 'd net \<Rightarrow>
   client_error option \<times> AuditClient \<times> 'd MemDeadLetter option \<times> 'd net" where
  "AuditClient_Emit F ctx a ev eventID entityKey dl w =
     (let a1 = (if entityKey \<noteq> [] then a\<lparr>ac_last := (ac_last a)(entityKey \<mapsto> eventID)\<rparr> else a) in
      if ac_kafka a1 \<noteq> None then
        (let (err, dl', w') = emitKafka F ev eventID dl w in (err, a1, dl', w'))
      else if ac_baseURL a1 = [] then (None, a1, dl, w)
      else (case json_error (AuditBody ev) of
              Some e \<Rightarrow> (Some (MarshalError e), a1, dl, w)
            | None \<Rightarrow>
                (let (err, dl', w') = post_loop F ctx ''audit'' (ac_baseURL a1 @ ''/v1/audit-events'') eventID
                                        (AuditBody ev) 3 (200 * millisecond) dl w
                 in (err, a1, dl', w'))))"

definition LastEmitted :: "AuditClient \<Rightarrow> string \<Rightarrow> string" where
  "LastEmitted a entityKey = lookup_or [] (ac_last a) entityKey"

section \<open>The Reconciliation client\<close>

record ReconClient =
  rc_baseURL :: string

definition NewReconClient :: "(string \<Rightarrow> string) \<Rightarrow> ReconClient" where
  "NewReconClient env = \<lparr>rc_baseURL = env ''RECONCILIATION_URL''\<rparr>"

definition publish ::
  "'d go_fmt \<Rightarrow> ctx \<Rightarrow> ReconClient \<Rightarrow> string \<Rightarrow> string \<Rightarrow> 'd body \<Rightarrow> 'd MemDeadLetter option \<Rightarrow> 'd net \<Rightarrow>
   client_error option \<times> 'd MemDeadLetter option \<times> 'd net" where
  "publish F ctx r path key body dl w =
     (if rc_baseURL r = [] then (None, dl, w)
      else (case json_error body of
              Some e \<Rightarrow> (Some (MarshalError e), dl, w)
            | None \<Rightarrow> post_loop F ctx ''recon'' (rc_baseURL r @ path) key body 3 (300 * millisecond) dl w))"

definition PublishExecution ::
  "'d go_fmt \<Rightarrow> ctx \<Rightarrow> ReconClient \<Rightarrow> 'd ExecutionRecord \<Rightarrow> 'd MemDeadLetter option \<Rightarrow> 'd net \<Rightarrow>
   client_error option \<times> 'd MemDeadLetter option \<times> 'd net" where
  "PublishExecution F ctx r rc dl w = publish F ctx r ''/v1/executions'' (er_HedgeID rc) (ExecutionBody rc) dl w"

definition PublishObligation ::
  "'d go_fmt \<Rightarrow> ctx \<Rightarrow> ReconClient \<Rightarrow> 'd SettlementObligation \<Rightarrow> 'd MemDeadLetter option \<Rightarrow> 'd net \<Rightarrow>
   client_error option \<times> 'd MemDeadLetter option \<times> 'd net" where
  "PublishObligation F ctx r ob dl w =
     publish F ctx r ''/v1/settlement-obligations'' (so_Currency ob @ ''-'' @ RFC3339Nano F (so_At ob))
       (ObligationBody ob) dl w"

section \<open>What a delivery does\<close>

definition post_request :: "string \<Rightarrow> string \<Rightarrow> 'd body \<Rightarrow> 'd body http_request" where
  "post_request url key body =
     \<lparr>rq_Method = ''POST'', rq_URL = url, rq_Header = post_headers key, rq_Body = body\<rparr>"

text \<open>The reply to the \<open>i\<close>-th request from now on, and the replies after which the loop tries again.\<close>

definition reply_at :: "'d net \<Rightarrow> 'd body http_request \<Rightarrow> nat \<Rightarrow> http_reply" where
  "reply_at w rq i = w_http w (length (w_sent w) + i) rq"

definition retryable :: "http_reply \<Rightarrow> bool" where
  "retryable reply = (case reply of Inl _ \<Rightarrow> True
     | Inr resp \<Rightarrow> \<not> status_ok (rs_StatusCode resp) \<and> rs_StatusCode resp \<noteq> 400)"

text \<open>The contract of a delivery with at most \<open>n\<close> attempts: \<open>k\<close> identical requests were sent with doubling
  waits between them, all but the last were answered by a failure worth retrying, and the last
  reply decides: success, a rejection that is not kept, or, after all attempts, one dead
  letter.\<close>

definition delivery_result ::
  "string \<Rightarrow> string \<Rightarrow> 'd body \<Rightarrow> http_reply \<Rightarrow> 'd MemDeadLetter option \<Rightarrow> client_error option \<Rightarrow>
   'd MemDeadLetter option \<Rightarrow> bool" where
  "delivery_result topic key body rep dl err dl' \<longleftrightarrow>
     (if retryable rep then
        (\<exists>m. err = Some (ErrUnavailable m)) \<and>
        (case dl of None \<Rightarrow> dl' = None
         | Some m \<Rightarrow> \<exists>reason tm. dl' = Some (m @ [\<lparr>dl_Topic = topic, dl_Key = key, dl_Payload = body,
                                               dl_Reason = reason, dl_At = tm\<rparr>]))
      else dl' = dl \<and>
        (case rep of Inl _ \<Rightarrow> False
         | Inr resp \<Rightarrow> err = (if status_ok (rs_StatusCode resp) then None
                            else Some (ErrBadRequest (rs_Body resp)))))"

definition delivery ::
  "string \<Rightarrow> string \<Rightarrow> 'd body \<Rightarrow> 'd body http_request \<Rightarrow> nat \<Rightarrow> duration \<Rightarrow> nat \<Rightarrow>
   'd MemDeadLetter option \<Rightarrow> 'd net \<Rightarrow> client_error option \<times> 'd MemDeadLetter option \<times> 'd net \<Rightarrow> bool" where
  "delivery topic key body rq n backoff k dl w out \<longleftrightarrow>
     (case out of (err, dl', w') \<Rightarrow>
        1 \<le> k \<and> k \<le> n \<and> same_oracles w w' \<and> w_msgs w' = w_msgs w \<and> w_ids w' = w_ids w \<and>
        w_sent w' = w_sent w @ replicate k rq \<and>
        w_slept w' = w_slept w @ map (\<lambda>i. backoff * 2 ^ i) [0..<k - 1] \<and>
        (\<forall>i<k - 1. retryable (reply_at w rq i)) \<and>
        (retryable (reply_at w rq (k - 1)) \<longrightarrow> k = n) \<and>
        delivery_result topic key body (reply_at w rq (k - 1)) dl err dl')"

lemma delivery_now:
  assumes "\<not> retryable (reply_at w rq 0)" and "reply_at w rq 0 = Inr resp"
  shows "delivery topic key body rq (Suc n) backoff 1 dl w
    (if status_ok (rs_StatusCode resp) then None else Some (ErrBadRequest (rs_Body resp)), dl, snd (http_do rq w))"
  using assms by (simp add: delivery_def delivery_result_def)

lemma delivery_dead:
  assumes "retryable (reply_at w rq 0)"
  shows "delivery topic key body rq (Suc 0) backoff 1 dl w
    (Some (ErrUnavailable m), deadLetter topic key body reason dl (snd (http_do rq w)))"
proof -
  have "same_oracles w (snd (time_now (snd (http_do rq w))))"
    by (rule same_oracles_trans [of _ "snd (http_do rq w)"]) simp_all
  with assms show ?thesis
    by (cases dl) (auto simp: delivery_def delivery_result_def deadLetter_def DeadLetter_Append_def case_prod_beta)
qed

text \<open>One more attempt before a delivery.\<close>

lemma delivery_later:
  assumes "retryable (reply_at w rq 0)"
    and d: "delivery topic key body rq n (backoff * 2) k dl (sleep_for backoff (snd (http_do rq w))) out"
  shows "delivery topic key body rq (Suc n) backoff (Suc k) dl w out"
proof -
  let ?v = "sleep_for backoff (snd (http_do rq w))"
  obtain err dl' w' where out: "out = (err, dl', w')" by (cases out)
  have r: "reply_at ?v rq i = reply_at w rq (Suc i)" for i
    by (simp add: reply_at_def)
  have v: "same_oracles w ?v" "w_sent ?v = w_sent w @ [rq]" "w_slept ?v = w_slept w @ [backoff]"
    by (rule same_oracles_trans [of _ "snd (http_do rq w)"]) simp_all
  from d out have k: "1 \<le> k" by (simp add: delivery_def)
  then obtain j where j: "k = Suc j" by (cases k) auto
  have slept: "[backoff] @ map (\<lambda>i. backoff * 2 * 2 ^ i) [0..<j] = map (\<lambda>i. backoff * 2 ^ i) [0..<Suc j]"
    by (simp add: map_upt_Suc mult.assoc del: upt_Suc)
  have all: "(\<forall>i<Suc j. retryable (reply_at w rq i)) \<longleftrightarrow> (\<forall>i<j. retryable (reply_at w rq (Suc i)))"
    using assms(1) less_Suc_eq_0_disj by auto
  show ?thesis
    using d v slept unfolding delivery_def out j
    by (auto simp: r all intro: same_oracles_trans simp del: upt_Suc)
qed

lemma post_loop_delivery:
  assumes "w_url_err w url = None"
  shows "\<exists>k. delivery topic key body (post_request url key body) (Suc n) backoff k dl w
    (post_loop F Background topic url key body (Suc n) backoff dl w)"
  using assms
proof (induction n arbitrary: backoff w)
  case 0
  show ?case
  proof (cases "reply_at w (post_request url key body) 0")
    case (Inl e)
    then show ?thesis
      using 0 delivery_dead [of w "post_request url key body"]
      by (intro exI [of _ 1])
        (simp add: new_request_def reply_at_def retryable_def http_do_def case_prod_beta post_request_def)
  next
    case (Inr resp)
    then show ?thesis
      using 0 delivery_dead [of w "post_request url key body"] delivery_now [of w "post_request url key body" resp]
      by (intro exI [of _ 1])
        (auto simp: new_request_def reply_at_def retryable_def http_do_def case_prod_beta post_request_def)
  qed
next
  case (Suc n)
  let ?rq = "post_request url key body"
  from Suc.IH [of "sleep_for backoff (snd (http_do ?rq w))" "backoff * 2"] Suc.prems obtain k where
    k: "delivery topic key body ?rq (Suc n) (backoff * 2) k dl (sleep_for backoff (snd (http_do ?rq w)))
      (post_loop F Background topic url key body (Suc n) (backoff * 2) dl (sleep_for backoff (snd (http_do ?rq w))))"
    by auto
  have step: "post_loop F Background topic url key body (Suc (Suc n)) backoff dl w =
    (if retryable (reply_at w ?rq 0)
     then post_loop F Background topic url key body (Suc n) (backoff * 2) dl (sleep_for backoff (snd (http_do ?rq w)))
     else case reply_at w ?rq 0 of Inr resp \<Rightarrow>
       (if status_ok (rs_StatusCode resp) then None else Some (ErrBadRequest (rs_Body resp)), dl, snd (http_do ?rq w)))"
    using Suc.prems
    by (simp add: new_request_def reply_at_def retryable_def http_do_def Background_def post_request_def
        del: post_loop.simps(1) split: sum.splits)
  show ?case
  proof (cases "retryable (reply_at w ?rq 0)")
    case True
    with delivery_later [OF True k] step show ?thesis by auto
  next
    case False
    then obtain resp where "reply_at w ?rq 0 = Inr resp"
      by (auto simp: retryable_def split: sum.splits)
    with delivery_now [OF False this] False step show ?thesis
      by (intro exI [of _ 1]) simp
  qed
qed

text \<open>Whatever happens to a delivery, the oracles stay the same, and no UUID is drawn but for a Kafka
  message without an event id.\<close>

definition world_later :: "'b world \<Rightarrow> 'b world \<Rightarrow> bool" where
  "world_later w w' \<longleftrightarrow> same_oracles w w' \<and> w_ids w \<le> w_ids w'"

lemma world_later_refl [simp]: "world_later w w"
  by (simp add: world_later_def)

lemma world_later_trans: "world_later w w' \<Longrightarrow> world_later w' w'' \<Longrightarrow> world_later w w''"
  by (auto simp: world_later_def intro: same_oracles_trans)

lemma world_later_actions:
  "world_later w0 w \<Longrightarrow> world_later w0 (snd (time_now w))"
  "world_later w0 w \<Longrightarrow> world_later w0 (snd (new_uuid w))"
  "world_later w0 w \<Longrightarrow> world_later w0 (snd (http_do rq w))"
  "world_later w0 w \<Longrightarrow> world_later w0 (snd (kafka_write m w))"
  "world_later w0 w \<Longrightarrow> world_later w0 (sleep_for d w)"
  by (erule world_later_trans, simp add: world_later_def)+

lemma deadLetter_later: "world_later w0 w \<Longrightarrow> world_later w0 (snd (deadLetter t k b r dl w))"
  by (simp add: deadLetter_def case_prod_beta world_later_actions split: option.splits)

lemma post_loop_later:
  "world_later w0 w \<Longrightarrow> world_later w0 (snd (snd (post_loop F ctx topic url key body n backoff dl w)))"
proof (induction n arbitrary: backoff w)
  case (Suc n)
  then show ?case
    by (auto simp: case_prod_beta Let_def world_later_actions deadLetter_later split: sum.splits option.splits)
qed simp

lemma publish_later: "world_later w0 w \<Longrightarrow> world_later w0 (snd (snd (publish F ctx r path key body dl w)))"
  by (simp add: publish_def post_loop_later split: option.splits)

lemma AuditClient_Emit_later:
  "world_later w0 w \<Longrightarrow> world_later w0 (snd (snd (snd (AuditClient_Emit F ctx a ev i k dl w))))"
  by (auto simp: AuditClient_Emit_def emitKafka_def Let_def case_prod_beta post_loop_later world_later_actions deadLetter_later
      split: option.splits)

text \<open>C37. Publishing to Reconciliation: without a URL nothing happens, a record that cannot be encoded is
  refused before anything is sent, and otherwise at most three identical requests go out, all
  with the same idempotency key, 300 and 600 ms apart. A reply of the 2xx class ends the delivery
  with success, a 400 with an error that is neither retried nor kept, and only after three
  failures is there an error \<open>ErrUnavailable\<close> and, if there is a dead-letter store, exactly one new
  letter with the key and the record.\<close>

theorem publish_contract:
  fixes F :: "'d go_fmt" and r :: ReconClient and path key :: string and body :: "'d body"
    and dl :: "'d MemDeadLetter option" and w :: "'d net"
  defines "out \<equiv> publish F Background r path key body dl w"
  shows "(rc_baseURL r = [] \<longrightarrow> out = (None, dl, w)) \<and>
    (rc_baseURL r \<noteq> [] \<and> json_error body = Some e \<longrightarrow> out = (Some (MarshalError e), dl, w)) \<and>
    (rc_baseURL r \<noteq> [] \<and> json_error body = None \<and> w_url_err w (rc_baseURL r @ path) = None \<longrightarrow>
       (\<exists>k. delivery ''recon'' key body (post_request (rc_baseURL r @ path) key body) 3 (300 * millisecond) k dl w out))"
  using post_loop_delivery [of w "rc_baseURL r @ path" "''recon''" key body 2]
  by (simp add: out_def publish_def eval_nat_numeral del: post_loop.simps)

definition failing_world :: "int \<Rightarrow> 'd net" where
  "failing_world code =
     \<lparr>w_clock = (\<lambda>n. int n + 1), w_ticks = 0, w_uuid = (\<lambda>n. replicate (Suc n) CHR ''u''), w_ids = 0,
      w_url_err = (\<lambda>_. None), w_http = (\<lambda>_ _. Inr \<lparr>rs_StatusCode = code, rs_Body = []\<rparr>), w_sent = [],
      w_kafka = (\<lambda>_ _. None), w_msgs = [], w_slept = []\<rparr>"

definition sample_fmt :: "'d go_fmt" where
  "sample_fmt = \<lparr>RFC3339 = (\<lambda>_. []), RFC3339Nano = (\<lambda>_. []), FormatG = (\<lambda>_. []), FormatF2 = (\<lambda>_. []),
     FormatInt = (\<lambda>_. []), sha256_hex = (\<lambda>_. [])\<rparr>"

lemma status_codes [simp]: "\<not> status_ok 503" "\<not> status_ok 400" "status_ok 200" "status_ok 201"
  by (simp_all add: status_ok_def)

theorem publish_contract_witness:
  "length (w_sent (snd (snd (publish sample_fmt Background \<lparr>rc_baseURL = ''r''\<rparr> ''/x'' ''k'' (TextBody ''b'')
     (Some []) (failing_world 503 :: rat net))))) = 3"
proof -
  let ?w = "failing_world 503 :: rat net" and ?r = "\<lparr>rc_baseURL = ''r''\<rparr>" and ?rq = "post_request ''r/x'' ''k'' (TextBody ''b'')"
  have "\<exists>k. delivery ''recon'' ''k'' (TextBody ''b'') ?rq 3 (300 * millisecond) k (Some []) ?w
      (publish sample_fmt Background ?r ''/x'' ''k'' (TextBody ''b'') (Some []) ?w)"
    using publish_contract [of ?r sample_fmt "''/x''" "''k''" "TextBody ''b''" "Some []" ?w]
    by (simp add: failing_world_def)
  then show ?thesis
    by (auto simp: delivery_def reply_at_def retryable_def failing_world_def case_prod_beta)
qed

text \<open>C38. The audit client: the entity's last event is recorded before anything is sent, whatever
  becomes of the delivery. With a broker there is exactly one message, keyed by the event id or,
  if that is empty, by a fresh UUID, and an event the broker refuses becomes one dead letter;
  without a broker and with a URL the delivery has the contract of three attempts with the event
  id as idempotency key; with neither nothing is sent.\<close>

theorem Emit_contract:
  assumes "AuditClient_Emit F Background a ev eventID entityKey dl w = (err, a', dl', w')"
  shows "(entityKey \<noteq> [] \<longrightarrow> LastEmitted a' entityKey = eventID) \<and>
    (\<forall>k. k \<noteq> entityKey \<longrightarrow> LastEmitted a' k = LastEmitted a k) \<and>
    (ac_kafka a \<noteq> None \<longrightarrow> w_sent w' = w_sent w \<and>
       (\<exists>key body. w_msgs w' = w_msgs w @ [(key, body)] \<and> key = (if eventID = [] then w_uuid w (w_ids w) else eventID) \<and>
          (case w_kafka w (length (w_msgs w)) (key, body) of
             None \<Rightarrow> err = None \<and> dl' = dl
           | Some e \<Rightarrow> err = Some (ErrUnavailable e) \<and>
               map_option length dl' = map_option (\<lambda>m. Suc (length m)) dl))) \<and>
    (ac_kafka a = None \<and> ac_baseURL a = [] \<longrightarrow> err = None \<and> dl' = dl \<and> w' = w) \<and>
    (ac_kafka a = None \<and> ac_baseURL a \<noteq> [] \<and> w_url_err w (ac_baseURL a @ ''/v1/audit-events'') = None \<longrightarrow>
       (\<exists>k. delivery ''audit'' eventID (AuditBody ev)
          (post_request (ac_baseURL a @ ''/v1/audit-events'') eventID (AuditBody ev)) 3 (200 * millisecond) k dl w (err, dl', w')))"
proof -
  have a': "a' = (if entityKey \<noteq> [] then a\<lparr>ac_last := (ac_last a)(entityKey \<mapsto> eventID)\<rparr> else a)"
    using assms by (auto simp: AuditClient_Emit_def Let_def split: if_splits prod.splits option.splits)
  then have last: "entityKey \<noteq> [] \<longrightarrow> LastEmitted a' entityKey = eventID"
    "\<forall>k. k \<noteq> entityKey \<longrightarrow> LastEmitted a' k = LastEmitted a k"
    by (simp_all add: LastEmitted_def)
  have kafka: "w_sent w' = w_sent w \<and>
       (\<exists>key body. w_msgs w' = w_msgs w @ [(key, body)] \<and> key = (if eventID = [] then w_uuid w (w_ids w) else eventID) \<and>
          (case w_kafka w (length (w_msgs w)) (key, body) of
             None \<Rightarrow> err = None \<and> dl' = dl
           | Some e \<Rightarrow> err = Some (ErrUnavailable e) \<and>
               map_option length dl' = map_option (\<lambda>m. Suc (length m)) dl))"
    if "ac_kafka a \<noteq> None"
    using assms that
    by (cases dl) (auto simp: AuditClient_Emit_def emitKafka_def Let_def kafka_write_def new_uuid_def time_now_def
        deadLetter_def DeadLetter_Append_def split: if_splits prod.splits option.splits)
  have noop: "err = None \<and> dl' = dl \<and> w' = w" if "ac_kafka a = None \<and> ac_baseURL a = []"
    using assms that by (simp add: AuditClient_Emit_def Let_def split: if_splits)
  have http: "\<exists>k. delivery ''audit'' eventID (AuditBody ev)
      (post_request (ac_baseURL a @ ''/v1/audit-events'') eventID (AuditBody ev)) 3 (200 * millisecond) k dl w (err, dl', w')"
    if h: "ac_kafka a = None \<and> ac_baseURL a \<noteq> [] \<and> w_url_err w (ac_baseURL a @ ''/v1/audit-events'') = None"
  proof -
    have "(err, dl', w') = post_loop F Background ''audit'' (ac_baseURL a @ ''/v1/audit-events'') eventID
        (AuditBody ev) (Suc 2) (200 * millisecond) dl w"
      using assms h by (simp add: AuditClient_Emit_def Let_def split: if_splits prod.splits)
    moreover have "\<exists>k. delivery ''audit'' eventID (AuditBody ev)
        (post_request (ac_baseURL a @ ''/v1/audit-events'') eventID (AuditBody ev)) (Suc 2) (200 * millisecond) k dl w
        (post_loop F Background ''audit'' (ac_baseURL a @ ''/v1/audit-events'') eventID
          (AuditBody ev) (Suc 2) (200 * millisecond) dl w)"
      by (rule post_loop_delivery) (simp add: h)
    ultimately show ?thesis by (simp only: eval_nat_numeral)
  qed
  show ?thesis
    using last kafka noop http by blast
qed

definition sample_payload :: "rat AuditPayload" where
  "sample_payload = \<lparr>ap_EventType = ''t'', ap_Source = [], ap_HedgeID = [], ap_Currency = [], ap_Detail = [], ap_At = [], ap_Amount = 0\<rparr>"

theorem Emit_contract_witness:
  "let (err, a', dl', w') = AuditClient_Emit sample_fmt Background \<lparr>ac_baseURL = ''a'', ac_kafka = None, ac_last = Map.empty\<rparr>
         sample_payload ''e1'' ''ccy:EUR'' (Some []) (failing_world 503)
   in LastEmitted a' ''ccy:EUR'' = ''e1'' \<and> length (w_sent w') = 3 \<and> map_option length dl' = Some 1"
proof -
  let ?a = "\<lparr>ac_baseURL = ''a'', ac_kafka = None, ac_last = Map.empty\<rparr> :: AuditClient"
    and ?w = "failing_world 503 :: rat net"
  obtain err a' dl' w' where out: "AuditClient_Emit sample_fmt Background ?a sample_payload ''e1'' ''ccy:EUR'' (Some []) ?w =
      (err, a', dl', w')"
    by (cases "AuditClient_Emit sample_fmt Background ?a sample_payload ''e1'' ''ccy:EUR'' (Some []) ?w") auto
  from Emit_contract [OF out] have "LastEmitted a' ''ccy:EUR'' = ''e1''"
    and "\<exists>k. delivery ''audit'' ''e1'' (AuditBody sample_payload)
          (post_request ''a/v1/audit-events'' ''e1'' (AuditBody sample_payload)) 3 (200 * millisecond) k (Some []) ?w (err, dl', w')"
    by (simp_all add: failing_world_def)
  then show ?thesis
    unfolding out
    by (auto simp: delivery_def delivery_result_def reply_at_def retryable_def failing_world_def)
qed

end
