(* ===== verification/Provider.thy ===== *)
theory Provider
  imports Policy Clients
begin

text \<open>
  The dummy FX provider of \<open>internal/provider/dummy.go\<close>, the only implementation of the interface
  \<open>FXProvider\<close> the REST handlers use: configuration, quotes, immediate fills and the samples it
  records.
\<close>

section \<open>State and operations\<close>

record 'd DummyFXProvider =
  pv_Rate :: float64
  pv_FailExecute :: bool
  pv_SlippageBPS :: float64
  pv_samples :: "'d SlippageSample list"

datatype provider_error = ErrQuoteFailed | ErrExecuteFailed

definition NewDummy :: "getenv \<Rightarrow> parse_float \<Rightarrow> 'd DummyFXProvider" where
  "NewDummy env pf =
     (let rate = env_float env pf ''DUMMY_FX_RATE'' (\<lambda>f. f_lt f_zero f) (fround (11 / 10));
          slip = env_float env pf ''DUMMY_FX_SLIPPAGE_BPS'' (\<lambda>_. True) f_zero
      in \<lparr>pv_Rate = rate, pv_FailExecute = (env ''DUMMY_FX_FAIL'' = ''1''), pv_SlippageBPS = slip, pv_samples = []\<rparr>)"

definition provider_Quote ::
  "'d DummyFXProvider \<Rightarrow> string \<Rightarrow> float64 \<Rightarrow> string \<Rightarrow> provider_error + float64" where
  "provider_Quote d currency notional tenor = (if pv_FailExecute d then Inl ErrQuoteFailed else Inr (pv_Rate d))"

text \<open>\<open>None\<close> is the panic of \<open>decimal.NewFromFloat\<close> on a slippage that is not finite.\<close>

definition provider_Execute ::
  "'d::linordered_idom decimal_pkg \<Rightarrow> 'd DummyFXProvider \<Rightarrow> 'd Hedge \<Rightarrow> 'd net \<Rightarrow>
   (provider_error + 'd Fill list) option \<times> 'd DummyFXProvider \<times> 'd net" where
  "provider_Execute D d h w =
     (if pv_FailExecute d then (Some (Inl ErrExecuteFailed), d, w)
      else
        (let quoted = h_QuotedRate h;
             executed = (if \<not> f_eq (pv_SlippageBPS d) f_zero
                         then map_option (\<lambda>m. quoted * m)
                                (NewFromFloat D (f_add f_one (f_div (pv_SlippageBPS d) (Fin 10000))))
                         else Some quoted)
         in (case executed of None \<Rightarrow> (None, d, w) | Some price \<Rightarrow>
              (let (uid, w1) = new_uuid w;
                   (now, w2) = time_now w1;
                   fill = \<lparr>fl_HedgeID = h_ID h, fl_Venue = [], fl_VenueTradeID = ''venue-'' @ uid,
                           fl_Price = price, fl_Amount = h_Notional h, fl_Timestamp = now\<rparr>;
                   d1 = d\<lparr>pv_samples := pv_samples d @
                     [\<lparr>ss_Pair = h_Currency h @ ''USD'', ss_QuotedRate = quoted, ss_ExecutedRate = price,
                       ss_SlippageBPS = pv_SlippageBPS d, ss_Timestamp = fl_Timestamp fill\<rparr>]\<rparr>
               in (Some (Inr [fill]), d1, w2)))))"

definition provider_Samples :: "'d DummyFXProvider \<Rightarrow> 'd SlippageSample list" where
  "provider_Samples d = pv_samples d"

section \<open>Facts\<close>

text \<open>A provider built from the environment quotes a positive rate, so the slippage and the profit of a
  hedge are always computed.\<close>

lemma default_rate: "fround (11 / 10) = Fin (2476979795053773 / 2251799813685248)"
  by code_simp

lemma NewDummy_rate_positive: "f_lt f_zero (pv_Rate (NewDummy env pf))"
  using env_float_cases [of env pf "''DUMMY_FX_RATE''" "\<lambda>f. f_lt f_zero f" "fround (11 / 10)"]
  by (auto simp: NewDummy_def default_rate)

lemma provider_Execute_fill:
  assumes "provider_Execute D d h w = (Some (Inr fills), d', w')"
  obtains f where "fills = [f]" and "fl_HedgeID f = h_ID h" and "fl_Venue f = []" and "fl_Amount f = h_Notional h"
    and "fl_VenueTradeID f = ''venue-'' @ w_uuid w (w_ids w)" and "w' = snd (time_now (snd (new_uuid w)))"
    and "\<not> pv_FailExecute d" and "f_eq (pv_SlippageBPS d) f_zero \<Longrightarrow> fl_Price f = h_QuotedRate h"
  using assms by (auto simp: provider_Execute_def Let_def case_prod_beta split: if_splits option.splits)

lemma provider_Execute_frame:
  assumes "provider_Execute D d h w = (r, d', w')"
  shows "w_sent w' = w_sent w \<and> w_msgs w' = w_msgs w \<and> same_oracles w w' \<and>
    pv_Rate d' = pv_Rate d \<and> pv_FailExecute d' = pv_FailExecute d \<and> pv_SlippageBPS d' = pv_SlippageBPS d"
  using assms
  by (auto simp: provider_Execute_def Let_def case_prod_beta same_oracles_def new_uuid_def time_now_def
      split: if_splits option.splits)

lemma provider_Execute_error:
  "provider_Execute D d h w = (Some (Inl e), d', w') \<Longrightarrow> e = ErrExecuteFailed \<and> pv_FailExecute d \<and> d' = d \<and> w' = w"
  by (auto simp: provider_Execute_def Let_def case_prod_beta split: if_splits option.splits)

end
