(* ===== verification/Executor.thy ===== *)
theory Executor
  imports Provider
begin

text \<open>
  The execution layer of \<open>internal/executor/executor.go\<close>: the interface \<open>Executor\<close>, the bank and venue
  adapters, the latency-instrumented wrapper and the router. The router works on any
  implementation of the interface, so its operations take the interface as a record of
  functions; the implementations of the repository are one such record, \<open>repo_executors\<close>. An
  executor that is submitted to may change (the wrapper counts), so \<open>Submit\<close> returns the executor
  as well, and the router keeps its executors in a list and names them by their position.
\<close>

section \<open>The interface\<close>

record Quote =
  q_Venue :: string
  q_Rate :: float64
  q_Liquidity :: float64
  q_CostBPS :: float64
  q_Tenor :: string
  q_ExpiresAt :: time

datatype exec_error =
  QuoteFailed string | SubmitFailed string | IncompleteFill string | CancelError string

text \<open>The outcome of \<open>Submit\<close>: \<open>None\<close> is a panic, otherwise the fills and the error.\<close>

type_synonym 'd exec_out = "('d Fill list \<times> exec_error option) option"

record ('x, 'd) executor_iface =
  ex_Name :: "'x \<Rightarrow> string"
  ex_Quote :: "'x \<Rightarrow> string \<Rightarrow> float64 \<Rightarrow> string \<Rightarrow> 'd net \<Rightarrow> (exec_error + Quote) \<times> 'd net"
  ex_Submit :: "'x \<Rightarrow> 'd Hedge \<Rightarrow> 'd net \<Rightarrow> 'd exec_out \<times> 'x \<times> 'd net"

text \<open>\<open>decodeJSON\<close> reads at most \<open>2^20\<close> bytes; the decoding of the two response bodies, with zero values
  for absent fields, is an argument.\<close>

record decoders =
  dec_quote :: "string \<Rightarrow> string + float64 \<times> float64 \<times> float64"
  dec_order :: "string \<Rightarrow> string + string \<times> float64 \<times> float64"

definition decodeJSON :: "(string \<Rightarrow> 'a) \<Rightarrow> http_response \<Rightarrow> 'a" where
  "decodeJSON dec resp = dec (take (2 ^ 20) (rs_Body resp))"

text \<open>What the adapters use of the libraries: the decimals, the number formats and the decoders.\<close>

record 'd libs =
  lib_dec :: "'d decimal_pkg"
  lib_fmt :: "'d go_fmt"
  lib_json :: decoders

section \<open>The bank adapter\<close>

record BankAdapter =
  ba_baseURL :: string
  ba_apiKey :: string
  ba_rate :: float64

definition NewBankAdapter :: "getenv \<Rightarrow> float64 \<Rightarrow> BankAdapter" where
  "NewBankAdapter env fallbackRate =
     \<lparr>ba_baseURL = env ''BANK_API_URL'', ba_apiKey = env ''BANK_API_KEY'', ba_rate = fallbackRate\<rparr>"

definition bank_Name :: "BankAdapter \<Rightarrow> string" where
  "bank_Name b = ''bank''"

definition bank_auth :: "BankAdapter \<Rightarrow> (string \<times> string) list" where
  "bank_auth b = (if ba_apiKey b \<noteq> [] then [(''Authorization'', ''Bearer '' @ ba_apiKey b)] else [])"

definition bank_liveQuote ::
  "'d libs \<Rightarrow> BankAdapter \<Rightarrow> string \<Rightarrow> float64 \<Rightarrow> string \<Rightarrow> 'd net \<Rightarrow> (exec_error + Quote) \<times> 'd net" where
  "bank_liveQuote L b currency notional tenor w =
     (let url = ba_baseURL b @ ''/v1/quote?ccy='' @ ToUpper currency @ ''&notional='' @
                FormatG (lib_fmt L) notional @ ''&tenor='' @ tenor in
      case new_request w ''GET'' url (bank_auth b) NoBody of
        Inl e \<Rightarrow> (Inl (QuoteFailed e), w)
      | Inr rq \<Rightarrow>
          (let (reply, w1) = http_do rq w in
           case reply of
             Inl e \<Rightarrow> (Inl (QuoteFailed e), w1)
           | Inr resp \<Rightarrow>
               if \<not> status_ok (rs_StatusCode resp)
               then (Inl (QuoteFailed (''status '' @ FormatInt (lib_fmt L) (rs_StatusCode resp))), w1)
               else (case decodeJSON (dec_quote (lib_json L)) resp of
                       Inl e \<Rightarrow> (Inl (QuoteFailed e), w1)
                     | Inr (rate, liq, cost) \<Rightarrow>
                         (let (now, w2) = time_now w1
                          in (Inr \<lparr>q_Venue = bank_Name b, q_Rate = rate, q_Liquidity = liq, q_CostBPS = cost,
                                   q_Tenor = tenor, q_ExpiresAt = now + 5 * second\<rparr>, w2)))))"

definition bank_Quote ::
  "'d libs \<Rightarrow> BankAdapter \<Rightarrow> string \<Rightarrow> float64 \<Rightarrow> string \<Rightarrow> 'd net \<Rightarrow> (exec_error + Quote) \<times> 'd net" where
  "bank_Quote L b currency notional tenor w =
     (if ba_baseURL b = [] then
        (let (now, w1) = time_now w
         in (Inr \<lparr>q_Venue = bank_Name b, q_Rate = ba_rate b, q_Liquidity = notional, q_CostBPS = fround (1 / 2),
                  q_Tenor = tenor, q_ExpiresAt = now + 5 * second\<rparr>, w1))
      else bank_liveQuote L b currency notional tenor w)"

text \<open>The fill built from a decoded order: the two conversions can panic.\<close>

definition order_fill ::
  "'d libs \<Rightarrow> 'd Hedge \<Rightarrow> string \<Rightarrow> string \<times> float64 \<times> float64 \<Rightarrow> 'd net \<Rightarrow> 'd exec_out \<times> 'd net" where
  "order_fill L h name ord w =
     (case ord of (tradeID, price, amount) \<Rightarrow>
        (case NewFromFloat (lib_dec L) price of None \<Rightarrow> (None, w) | Some p \<Rightarrow>
          (case NewFromFloat (lib_dec L) amount of None \<Rightarrow> (None, w) | Some a \<Rightarrow>
            (let (now, w1) = time_now w
             in (Some ([\<lparr>fl_HedgeID = h_ID h, fl_Venue = name, fl_VenueTradeID = tradeID, fl_Price = p,
                         fl_Amount = a, fl_Timestamp = now\<rparr>], None), w1)))))"

definition idempotency_header :: "'d Hedge \<Rightarrow> (string \<times> string) list" where
  "idempotency_header h = (if h_ClientRequestID h \<noteq> [] then [(''Idempotency-Key'', h_ClientRequestID h)] else [])"

text \<open>The part of the two live submissions that follows building the request.\<close>

definition submit_request ::
  "'d libs \<Rightarrow> 'd Hedge \<Rightarrow> string \<Rightarrow> string + 'd body http_request \<Rightarrow> 'd net \<Rightarrow> 'd exec_out \<times> 'd net" where
  "submit_request L h name made w =
     (case made of
        Inl e \<Rightarrow> (Some ([], Some (SubmitFailed e)), w)
      | Inr rq \<Rightarrow>
          (let (reply, w1) = http_do rq w in
           case reply of
             Inl e \<Rightarrow> (Some ([], Some (SubmitFailed e)), w1)
           | Inr resp \<Rightarrow>
               if \<not> status_ok (rs_StatusCode resp)
               then (Some ([], Some (SubmitFailed (''status '' @ FormatInt (lib_fmt L) (rs_StatusCode resp)))), w1)
               else (case decodeJSON (dec_order (lib_json L)) resp of
                       Inl e \<Rightarrow> (Some ([], Some (SubmitFailed e)), w1)
                     | Inr ord \<Rightarrow> order_fill L h name ord w1)))"

definition quoted :: "string \<Rightarrow> string" where
  "quoted s = CHR 0x22 # s @ [CHR 0x22]"

definition bank_liveSubmit :: "'d libs \<Rightarrow> BankAdapter \<Rightarrow> 'd Hedge \<Rightarrow> 'd net \<Rightarrow> 'd exec_out \<times> 'd net" where
  "bank_liveSubmit L b h w =
     (let body = ''{'' @ quoted ''currency'' @ '':'' @ quoted (h_Currency h) @ '','' @ quoted ''notional'' @ '':'' @
                 DecString (lib_dec L) (h_Notional h) @ '','' @ quoted ''tenor'' @ '':'' @ quoted (h_Tenor h) @ '','' @
                 quoted ''type'' @ '':'' @ quoted (h_Type h) @ '','' @ quoted ''client_request_id'' @ '':'' @
                 quoted (h_ClientRequestID h) @ '','' @ quoted ''quoted_rate'' @ '':'' @
                 DecString (lib_dec L) (h_QuotedRate h) @ ''}''
      in submit_request L h (bank_Name b)
           (new_request w ''POST'' (ba_baseURL b @ ''/v1/hedges'')
              ((''Content-Type'', ''application/json'') # bank_auth b @ idempotency_header h) (TextBody body)) w)"

text \<open>The immediate fill of a hedge, used without a live URL.\<close>

definition fallback_fill :: "'d Hedge \<Rightarrow> string \<Rightarrow> string \<Rightarrow> 'd \<Rightarrow> 'd net \<Rightarrow> 'd exec_out \<times> 'd net" where
  "fallback_fill h name prefix price w =
     (let (uid, w1) = new_uuid w; (now, w2) = time_now w1
      in (Some ([\<lparr>fl_HedgeID = h_ID h, fl_Venue = name, fl_VenueTradeID = prefix @ uid, fl_Price = price,
                  fl_Amount = h_Notional h, fl_Timestamp = now\<rparr>], None), w2))"

definition bank_Submit :: "'d libs \<Rightarrow> BankAdapter \<Rightarrow> 'd Hedge \<Rightarrow> 'd net \<Rightarrow> 'd exec_out \<times> 'd net" where
  "bank_Submit L b h w =
     (if ba_baseURL b = [] then fallback_fill h (bank_Name b) ''bank-'' (h_QuotedRate h) w
      else bank_liveSubmit L b h w)"

definition cancel_request :: "string + 'd body http_request \<Rightarrow> 'd net \<Rightarrow> exec_error option \<times> 'd net" where
  "cancel_request made w =
     (case made of
        Inl e \<Rightarrow> (Some (CancelError e), w)
      | Inr rq \<Rightarrow>
          (let (reply, w1) = http_do rq w
           in (case reply of Inl e \<Rightarrow> (Some (CancelError e), w1) | Inr _ \<Rightarrow> (None, w1))))"

definition bank_Cancel :: "BankAdapter \<Rightarrow> string \<Rightarrow> 'd net \<Rightarrow> exec_error option \<times> 'd net" where
  "bank_Cancel b hedgeID w =
     (if ba_baseURL b = [] then (None, w)
      else cancel_request (new_request w ''DELETE'' (ba_baseURL b @ ''/v1/hedges/'' @ hedgeID) (bank_auth b) NoBody) w)"

section \<open>The venue adapter\<close>

record VenueAdapter =
  va_baseURL :: string
  va_apiKey :: string
  va_rate :: float64
  va_slip :: float64

definition NewVenueAdapter :: "getenv \<Rightarrow> float64 \<Rightarrow> float64 \<Rightarrow> VenueAdapter" where
  "NewVenueAdapter env fallbackRate fallbackSlipBPS =
     \<lparr>va_baseURL = env ''FX_VENUE_URL'', va_apiKey = env ''FX_VENUE_API_KEY'', va_rate = fallbackRate,
      va_slip = fallbackSlipBPS\<rparr>"

definition venue_Name :: "VenueAdapter \<Rightarrow> string" where
  "venue_Name v = ''venue''"

definition venue_auth :: "VenueAdapter \<Rightarrow> (string \<times> string) list" where
  "venue_auth v = (if va_apiKey v \<noteq> [] then [(''X-API-Key'', va_apiKey v)] else [])"

definition venue_Quote ::
  "'d libs \<Rightarrow> VenueAdapter \<Rightarrow> string \<Rightarrow> float64 \<Rightarrow> string \<Rightarrow> 'd net \<Rightarrow> (exec_error + Quote) \<times> 'd net" where
  "venue_Quote L v currency notional tenor w =
     (if va_baseURL v = [] then
        (let (now, w1) = time_now w
         in (Inr \<lparr>q_Venue = venue_Name v, q_Rate = va_rate v, q_Liquidity = notional, q_CostBPS = fround (1 / 5),
                  q_Tenor = tenor, q_ExpiresAt = now + 2 * second\<rparr>, w1))
      else
        (let url = va_baseURL v @ ''/quote?pair='' @ ToUpper currency @ ''USD&amount='' @
                   FormatG (lib_fmt L) notional @ ''&tenor='' @ tenor in
         case new_request w ''GET'' url (venue_auth v) NoBody of
           Inl e \<Rightarrow> (Inl (QuoteFailed e), w)
         | Inr rq \<Rightarrow>
             (let (reply, w1) = http_do rq w in
              case reply of
                Inl e \<Rightarrow> (Inl (QuoteFailed e), w1)
              | Inr resp \<Rightarrow>
                  if \<not> status_ok (rs_StatusCode resp)
                  then (Inl (QuoteFailed (''status '' @ FormatInt (lib_fmt L) (rs_StatusCode resp))), w1)
                  else (case decodeJSON (dec_quote (lib_json L)) resp of
                          Inl e \<Rightarrow> (Inl (QuoteFailed e), w1)
                        | Inr (rate, liq, cost) \<Rightarrow>
                            (let (now, w2) = time_now w1
                             in (Inr \<lparr>q_Venue = venue_Name v, q_Rate = rate, q_Liquidity = liq, q_CostBPS = cost,
                                      q_Tenor = tenor, q_ExpiresAt = now + 2 * second\<rparr>, w2))))))"

definition venue_Submit ::
  "'d::linordered_idom libs \<Rightarrow> VenueAdapter \<Rightarrow> 'd Hedge \<Rightarrow> 'd net \<Rightarrow> 'd exec_out \<times> 'd net" where
  "venue_Submit L v h w =
     (if va_baseURL v = [] then
        (let executed = (if \<not> f_eq (va_slip v) f_zero
                         then map_option (\<lambda>m. h_QuotedRate h * m)
                                (NewFromFloat (lib_dec L) (f_add f_one (f_div (va_slip v) (Fin 10000))))
                         else Some (h_QuotedRate h))
         in (case executed of None \<Rightarrow> (None, w) | Some price \<Rightarrow> fallback_fill h (venue_Name v) ''venue-'' price w))
      else
        (let body = ''{'' @ quoted ''pair'' @ '':'' @ quoted (h_Currency h @ ''USD'') @ '','' @ quoted ''amount'' @ '':'' @
                    DecString (lib_dec L) (h_Notional h) @ '','' @ quoted ''tenor'' @ '':'' @ quoted (h_Tenor h) @ '','' @
                    quoted ''client_request_id'' @ '':'' @ quoted (h_ClientRequestID h) @ ''}''
         in submit_request L h (venue_Name v)
              (new_request w ''POST'' (va_baseURL v @ ''/orders'')
                 ((''Content-Type'', ''application/json'') # venue_auth v @ idempotency_header h) (TextBody body)) w))"

definition venue_Cancel :: "VenueAdapter \<Rightarrow> string \<Rightarrow> 'd net \<Rightarrow> exec_error option \<times> 'd net" where
  "venue_Cancel v hedgeID w =
     (if va_baseURL v = [] then (None, w)
      else cancel_request (new_request w ''DELETE'' (va_baseURL v @ ''/orders/'' @ hedgeID) (venue_auth v) NoBody) w)"

end
