(* ===== verification/Latency.thy ===== *)
theory Latency
  imports Executor
begin

text \<open>
  The latency-instrumented executor of \<open>internal/executor/executor.go\<close>, and the closed type of the
  executors the repository builds. One submission alone is a function of the counters; the
  counters are atomics that concurrent submissions share, so their updates are also given as a
  step relation over the threads, with the load and the compare-and-swap of the maximum as
  separate steps.
\<close>

section \<open>State and operations\<close>

text \<open>The counters are \<open>atomic.Int64\<close>; they are integers here, for fewer than \<open>2^63\<close> submissions.\<close>

record latency =
  la_target :: duration
  la_count :: int
  la_exceeded :: int
  la_maxObs :: int

datatype executor = Bank BankAdapter | Venue VenueAdapter | LatencyExec latency executor

definition NewLatencyExecutor :: "executor \<Rightarrow> duration \<Rightarrow> executor" where
  "NewLatencyExecutor ex target0 =
     (let target = (if target0 \<le> 0 then 500 * millisecond else target0)
      in LatencyExec \<lparr>la_target = target, la_count = 0, la_exceeded = 0, la_maxObs = 0\<rparr> ex)"

text \<open>The counters after a submission that took \<open>ns\<close> and met no other: the compare-and-swap
  succeeds at once.\<close>

definition observe :: "duration \<Rightarrow> latency \<Rightarrow> latency" where
  "observe ns l =
     (let l1 = l\<lparr>la_count := la_count l + 1\<rparr>;
          l2 = (if ns \<le> la_maxObs l1 then l1 else l1\<lparr>la_maxObs := ns\<rparr>)
      in if la_target l2 < ns then l2\<lparr>la_exceeded := la_exceeded l2 + 1\<rparr> else l2)"

fun exec_Name :: "executor \<Rightarrow> string" where
  "exec_Name (Bank b) = bank_Name b"
| "exec_Name (Venue v) = venue_Name v"
| "exec_Name (LatencyExec l ex) = exec_Name ex"

fun exec_Quote ::
  "'d libs \<Rightarrow> executor \<Rightarrow> string \<Rightarrow> float64 \<Rightarrow> string \<Rightarrow> 'd net \<Rightarrow> (exec_error + Quote) \<times> 'd net" where
  "exec_Quote L (Bank b) currency notional tenor w = bank_Quote L b currency notional tenor w"
| "exec_Quote L (Venue v) currency notional tenor w = venue_Quote L v currency notional tenor w"
| "exec_Quote L (LatencyExec l ex) currency notional tenor w = exec_Quote L ex currency notional tenor w"

fun exec_Submit ::
  "'d::linordered_idom libs \<Rightarrow> executor \<Rightarrow> 'd Hedge \<Rightarrow> 'd net \<Rightarrow> 'd exec_out \<times> executor \<times> 'd net" where
  "exec_Submit L (Bank b) h w = (let (r, w') = bank_Submit L b h w in (r, Bank b, w'))"
| "exec_Submit L (Venue v) h w = (let (r, w') = venue_Submit L v h w in (r, Venue v, w'))"
| "exec_Submit L (LatencyExec l ex) h w =
     (let (start, w1) = time_now w;
          (r, ex', w2) = exec_Submit L ex h w1
      in (case r of None \<Rightarrow> (None, LatencyExec l ex', w2)
          | Some out \<Rightarrow>
              (let (now, w3) = time_now w2; elapsed = time_sub now start
               in (Some out, LatencyExec (observe elapsed l) ex', w3))))"

fun exec_Cancel :: "executor \<Rightarrow> string \<Rightarrow> 'd net \<Rightarrow> exec_error option \<times> 'd net" where
  "exec_Cancel (Bank b) hedgeID w = bank_Cancel b hedgeID w"
| "exec_Cancel (Venue v) hedgeID w = venue_Cancel v hedgeID w"
| "exec_Cancel (LatencyExec l ex) hedgeID w = exec_Cancel ex hedgeID w"

definition Stats :: "latency \<Rightarrow> int \<times> int \<times> duration" where
  "Stats l = (la_count l, la_exceeded l, la_maxObs l)"

definition repo_executors :: "'d::linordered_idom libs \<Rightarrow> (executor, 'd) executor_iface" where
  "repo_executors L = \<lparr>ex_Name = exec_Name, ex_Quote = exec_Quote L, ex_Submit = exec_Submit L\<rparr>"

section \<open>Concurrent submissions\<close>

text \<open>Where a thread is after its inner submission returned: before \<open>count.Add\<close>, before the load of the
  maximum, between the load and the compare-and-swap, before the test against the target, or
  done.\<close>

datatype pc = AtCount | AtLoad | Loaded int | AtExceed | Finished

type_synonym lstate = "latency \<times> (nat \<Rightarrow> pc)"

inductive lstep :: "nat set \<Rightarrow> (nat \<Rightarrow> duration) \<Rightarrow> lstate \<Rightarrow> lstate \<Rightarrow> bool"
  for T :: "nat set" and ns :: "nat \<Rightarrow> duration" where
  count: "t \<in> T \<Longrightarrow> p t = AtCount \<Longrightarrow>
    lstep T ns (l, p) (l\<lparr>la_count := la_count l + 1\<rparr>, p(t := AtLoad))"
| load: "t \<in> T \<Longrightarrow> p t = AtLoad \<Longrightarrow> lstep T ns (l, p) (l, p(t := Loaded (la_maxObs l)))"
| below: "t \<in> T \<Longrightarrow> p t = Loaded cur \<Longrightarrow> ns t \<le> cur \<Longrightarrow> lstep T ns (l, p) (l, p(t := AtExceed))"
| swap: "t \<in> T \<Longrightarrow> p t = Loaded cur \<Longrightarrow> cur < ns t \<Longrightarrow> la_maxObs l = cur \<Longrightarrow>
    lstep T ns (l, p) (l\<lparr>la_maxObs := ns t\<rparr>, p(t := AtExceed))"
| again: "t \<in> T \<Longrightarrow> p t = Loaded cur \<Longrightarrow> cur < ns t \<Longrightarrow> la_maxObs l \<noteq> cur \<Longrightarrow>
    lstep T ns (l, p) (l, p(t := AtLoad))"
| exceed: "t \<in> T \<Longrightarrow> p t = AtExceed \<Longrightarrow>
    lstep T ns (l, p) (if la_target l < ns t then l\<lparr>la_exceeded := la_exceeded l + 1\<rparr> else l, p(t := Finished))"

inductive_cases lstep_cases: "lstep T ns s s'"

definition swapped :: "pc \<Rightarrow> bool" where
  "swapped x \<longleftrightarrow> x = AtExceed \<or> x = Finished"

text \<open>The threads that have counted themselves, and those that are done and were over the target.\<close>

definition counted :: "nat set \<Rightarrow> (nat \<Rightarrow> pc) \<Rightarrow> nat set" where
  "counted T p = {t \<in> T. p t \<noteq> AtCount}"

definition late :: "nat set \<Rightarrow> (nat \<Rightarrow> duration) \<Rightarrow> duration \<Rightarrow> (nat \<Rightarrow> pc) \<Rightarrow> nat set" where
  "late T ns target p = {t \<in> T. p t = Finished \<and> target < ns t}"

text \<open>The invariant relates the counters to the start \<open>l0\<close> and to where the threads are.\<close>

definition latency_inv :: "nat set \<Rightarrow> (nat \<Rightarrow> duration) \<Rightarrow> latency \<Rightarrow> lstate \<Rightarrow> bool" where
  "latency_inv T ns l0 s \<longleftrightarrow>
     (case s of (l, p) \<Rightarrow>
        la_target l = la_target l0 \<and>
        la_count l = la_count l0 + int (card (counted T p)) \<and>
        la_exceeded l = la_exceeded l0 + int (card (late T ns (la_target l0) p)) \<and>
        la_maxObs l \<in> insert (la_maxObs l0) (ns ` T) \<and> la_maxObs l0 \<le> la_maxObs l \<and>
        (\<forall>t\<in>T. swapped (p t) \<longrightarrow> ns t \<le> la_maxObs l) \<and>
        (\<forall>t\<in>T. \<forall>cur. p t = Loaded cur \<longrightarrow> cur \<le> la_maxObs l))"

lemma counted_same: "(x \<noteq> AtCount) = (p t \<noteq> AtCount) \<Longrightarrow> counted T (p(t := x)) = counted T p"
  by (auto simp: counted_def)

lemma counted_new:
  assumes "finite T" and "t \<in> T" and "p t = AtCount" and "x \<noteq> AtCount"
  shows "card (counted T (p(t := x))) = Suc (card (counted T p))"
proof -
  have "counted T (p(t := x)) = insert t (counted T p)" using assms(2-4) by (auto simp: counted_def)
  with assms show ?thesis by (simp add: counted_def)
qed

lemma late_same: "x \<noteq> Finished \<Longrightarrow> p t \<noteq> Finished \<Longrightarrow> late T ns d (p(t := x)) = late T ns d p"
  by (auto simp: late_def)

lemma late_new:
  assumes "finite T" and "t \<in> T" and "p t \<noteq> Finished"
  shows "card (late T ns d (p(t := Finished))) = card (late T ns d p) + (if d < ns t then 1 else 0)"
proof (cases "d < ns t")
  case True
  then have "late T ns d (p(t := Finished)) = insert t (late T ns d p)" using assms(2) by (auto simp: late_def)
  with True assms show ?thesis by (simp add: late_def)
next
  case False
  then have "late T ns d (p(t := Finished)) = late T ns d p" using assms(3) by (auto simp: late_def)
  with False show ?thesis by simp
qed

lemma latency_inv_step:
  assumes "finite T" and "lstep T ns s s'" and "latency_inv T ns l0 s"
  shows "latency_inv T ns l0 s'"
  using assms(2)
proof cases
  case (count t p l)
  with assms(1,3) show ?thesis
    by (auto simp: latency_inv_def swapped_def counted_new late_same)
next
  case (load t p l)
  with assms(3) show ?thesis
    by (auto simp: latency_inv_def swapped_def counted_same late_same)
next
  case (below t p cur l)
  then have "cur \<le> la_maxObs l" using assms(3) by (auto simp: latency_inv_def)
  with below assms(3) show ?thesis
    by (auto simp: latency_inv_def swapped_def counted_same late_same)
next
  case (swap t p cur l)
  with assms(3) show ?thesis
    by (auto simp: latency_inv_def swapped_def counted_same late_same intro: order.trans less_imp_le)
next
  case (again t p cur l)
  with assms(3) show ?thesis
    by (auto simp: latency_inv_def swapped_def counted_same late_same)
next
  case (exceed t p l)
  with assms(1,3) show ?thesis
    by (auto simp: latency_inv_def swapped_def counted_same late_new)
qed

lemma latency_inv_run:
  assumes "finite T" and "(lstep T ns)\<^sup>*\<^sup>* s s'" and "latency_inv T ns l0 s"
  shows "latency_inv T ns l0 s'"
  using assms(2,3) by induction (blast intro: latency_inv_step [OF assms(1)])+

lemma latency_inv_start: "latency_inv T ns l (l, \<lambda>_. AtCount)"
  by (simp add: latency_inv_def swapped_def counted_def late_def)

lemma fold_observe:
  "la_target (fold (\<lambda>t. observe (ns t)) ts l) = la_target l \<and>
   la_count (fold (\<lambda>t. observe (ns t)) ts l) = la_count l + int (length ts) \<and>
   la_exceeded (fold (\<lambda>t. observe (ns t)) ts l) = la_exceeded l + int (length (filter (\<lambda>t. la_target l < ns t) ts)) \<and>
   la_maxObs (fold (\<lambda>t. observe (ns t)) ts l) = Max (set (la_maxObs l # map ns ts))"
proof (induction ts arbitrary: l)
  case (Cons t ts)
  have "Max (set (la_maxObs (observe (ns t) l) # map ns ts)) = Max (set (la_maxObs l # map ns (t # ts)))"
    by (cases "ts = []") (auto simp: observe_def Let_def max_def)
  with Cons [of "observe (ns t) l"] show ?case
    by (simp add: observe_def Let_def)
qed simp

text \<open>C15. The counters of the latency executor are linearizable: whatever the interleaving of the loads
  and compare-and-swaps of concurrent submissions, once all are done the counters are those of
  running the submissions one after the other, in any order.\<close>

theorem latency_linearizable:
  assumes "distinct ts" and "(lstep (set ts) ns)\<^sup>*\<^sup>* (l, \<lambda>_. AtCount) (l', p)"
    and "\<forall>t\<in>set ts. p t = Finished"
  shows "l' = fold (\<lambda>t. observe (ns t)) ts l"
proof -
  have inv: "latency_inv (set ts) ns l (l', p)"
    using latency_inv_run [OF _ assms(2) latency_inv_start] by simp
  have "card (counted (set ts) p) = length ts"
    using assms(1,3) by (simp add: counted_def distinct_card cong: conj_cong)
  moreover have "late (set ts) ns (la_target l) p = set (filter (\<lambda>t. la_target l < ns t) ts)"
    using assms(3) by (auto simp: late_def)
  then have "card (late (set ts) ns (la_target l) p) = length (filter (\<lambda>t. la_target l < ns t) ts)"
    using assms(1) by (metis distinct_card distinct_filter)
  moreover have "la_maxObs l' = Max (set (la_maxObs l # map ns ts))"
    using inv assms(3) by (intro Max_eqI [symmetric]) (auto simp: latency_inv_def swapped_def)
  ultimately show ?thesis
    using inv fold_observe [of ns ts l] by (simp add: latency_inv_def)
qed

text \<open>How far a thread is from the end: a load of a maximum that has changed since costs one more
  round, which only happens when another thread has stored.\<close>

fun level :: "int \<Rightarrow> pc \<Rightarrow> nat" where
  "level m AtCount = 4"
| "level m AtLoad = 2"
| "level m (Loaded cur) = (if cur = m then 1 else 3)"
| "level m AtExceed = 1"
| "level m Finished = 0"

definition unswapped :: "nat set \<Rightarrow> (nat \<Rightarrow> pc) \<Rightarrow> nat" where
  "unswapped T p = card {t \<in> T. \<not> swapped (p t)}"

definition potential :: "nat set \<Rightarrow> lstate \<Rightarrow> nat" where
  "potential T s = unswapped T (snd s) * (4 * card T + 1) + (\<Sum>t\<in>T. level (la_maxObs (fst s)) (snd s t))"

lemma level_le: "level m x \<le> 4"
  by (cases x) simp_all

lemma level_sum_le: "finite T \<Longrightarrow> (\<Sum>t\<in>T. level m (p t)) \<le> 4 * card T"
  using sum_bounded_above [of T "\<lambda>t. level m (p t)" 4] level_le by simp

lemma potential_level:
  assumes "finite T" and "t \<in> T" and "level m x < level m (p t)" and "swapped x = swapped (p t)"
    and "la_maxObs l = m" and "la_maxObs l' = m"
  shows "potential T (l', p(t := x)) < potential T (l, p)"
proof -
  have "(\<Sum>u\<in>T. level m ((p(t := x)) u)) < (\<Sum>u\<in>T. level m (p u))"
    by (rule sum_strict_mono_ex1) (use assms in auto)
  moreover have "{u \<in> T. \<not> swapped ((p(t := x)) u)} = {u \<in> T. \<not> swapped (p u)}"
    using assms(4) by auto
  ultimately show ?thesis using assms(5,6) by (simp add: potential_def unswapped_def del: fun_upd_apply)
qed

lemma potential_swapped:
  assumes "finite T" and "t \<in> T" and "swapped x" and "\<not> swapped (p t)"
  shows "potential T (l', p(t := x)) < potential T (l, p)"
proof -
  have "{u \<in> T. \<not> swapped (p u)} = insert t {u \<in> T. \<not> swapped ((p(t := x)) u)}"
    using assms(2-4) by auto
  then have "unswapped T p = Suc (unswapped T (p(t := x)))"
    using assms(1,3) by (simp add: unswapped_def)
  moreover have "(\<Sum>u\<in>T. level (la_maxObs l') ((p(t := x)) u)) < 4 * card T + 1"
    using level_sum_le [OF assms(1), of "la_maxObs l'" "p(t := x)"] by (simp del: fun_upd_apply)
  ultimately show ?thesis
    by (simp add: potential_def del: fun_upd_apply)
qed

lemma lstep_potential:
  assumes "finite T" and "lstep T ns s s'"
  shows "potential T s' < potential T s"
  using assms(2)
proof cases
  case (count t p l)
  then show ?thesis
    using potential_level [OF assms(1) count(3), of "la_maxObs l" AtLoad p l] by (simp add: swapped_def del: fun_upd_apply)
next
  case (load t p l)
  then show ?thesis
    using potential_level [OF assms(1) load(3), of "la_maxObs l" "Loaded (la_maxObs l)" p l]
    by (simp add: swapped_def del: fun_upd_apply)
next
  case (again t p cur l)
  then show ?thesis
    using potential_level [OF assms(1) again(3), of "la_maxObs l" AtLoad p l] by (simp add: swapped_def del: fun_upd_apply)
next
  case (exceed t p l)
  then show ?thesis
    using potential_level [OF assms(1) exceed(3), of "la_maxObs l" Finished p l] by (simp add: swapped_def del: fun_upd_apply)
qed (use assms(1) in \<open>simp_all add: potential_swapped swapped_def del: fun_upd_apply\<close>)

lemma lstep_progress:
  assumes "t \<in> T" and "p t \<noteq> Finished"
  shows "\<exists>s'. lstep T ns (l, p) s'"
proof (cases "p t")
  case (Loaded cur)
  show ?thesis
  proof (cases "ns t \<le> cur")
    case True
    with Loaded assms(1) show ?thesis by (blast intro: lstep.below)
  next
    case False
    then have "cur < ns t" by simp
    with Loaded assms(1) show ?thesis
      by (cases "la_maxObs l = cur") (blast intro: lstep.swap lstep.again)+
  qed
qed (use assms in \<open>auto intro: lstep.count lstep.load lstep.exceed\<close>)

lemma relpow_potential: "finite T \<Longrightarrow> (lstep T ns ^^ n) s s' \<Longrightarrow> n + potential T s' \<le> potential T s"
proof (induction n arbitrary: s')
  case (Suc n)
  from Suc.prems(2) obtain s'' where "(lstep T ns ^^ n) s s''" "lstep T ns s'' s'" by auto
  with Suc.IH [of s''] lstep_potential [OF Suc.prems(1)] Suc.prems(1) show ?case
    by fastforce
qed simp

text \<open>C36. The retry loop of the latency executor ends under every schedule: \<open>k\<close> concurrent submissions
  take at most \<open>k (4k + 5)\<close> steps in all, and a schedule that cannot go on has finished every
  submission.\<close>

theorem latency_terminates:
  assumes "finite T" and "(lstep T ns ^^ n) (l, \<lambda>_. AtCount) (l', p)"
  shows "n \<le> card T * (4 * card T + 5) \<and>
    ((\<nexists>s. lstep T ns (l', p) s) \<longrightarrow> (\<forall>t\<in>T. p t = Finished))"
proof -
  have "potential T (l, \<lambda>_. AtCount) = card T * (4 * card T + 5)"
    by (simp add: potential_def unswapped_def swapped_def algebra_simps)
  with relpow_potential [OF assms] have "n \<le> card T * (4 * card T + 5)" by simp
  then show ?thesis using lstep_progress [of _ T p ns l'] by blast
qed

text \<open>Two submissions of 5 and 7 ns: the first loads the maximum, the second stores 7, and the first has
  to load again.\<close>

definition two_ns :: "nat \<Rightarrow> duration" where
  "two_ns t = (if t = 0 then 5 else 7)"

definition fresh_latency :: latency where
  "fresh_latency = \<lparr>la_target = 6, la_count = 0, la_exceeded = 0, la_maxObs = 0\<rparr>"

fun lexec :: "nat \<Rightarrow> (nat \<Rightarrow> duration) \<Rightarrow> lstate \<Rightarrow> lstate" where
  "lexec t ns (l, p) =
     (case p t of
        AtCount \<Rightarrow> (l\<lparr>la_count := la_count l + 1\<rparr>, p(t := AtLoad))
      | AtLoad \<Rightarrow> (l, p(t := Loaded (la_maxObs l)))
      | Loaded cur \<Rightarrow>
          if ns t \<le> cur then (l, p(t := AtExceed))
          else if la_maxObs l = cur then (l\<lparr>la_maxObs := ns t\<rparr>, p(t := AtExceed))
          else (l, p(t := AtLoad))
      | AtExceed \<Rightarrow> (if la_target l < ns t then l\<lparr>la_exceeded := la_exceeded l + 1\<rparr> else l, p(t := Finished))
      | Finished \<Rightarrow> (l, p))"

lemma lexec_step:
  assumes "t \<in> T" and "snd s t \<noteq> Finished"
  shows "lstep T ns s (lexec t ns s)"
proof (cases s)
  case (Pair l p)
  show ?thesis
  proof (cases "p t")
    case (Loaded cur)
    with Pair assms(1) show ?thesis by (auto intro: lstep.below lstep.swap lstep.again)
  next
    case AtExceed
    with Pair assms(1) show ?thesis using lstep.exceed [of t T p ns l] by simp
  qed (use Pair assms in \<open>auto intro: lstep.count lstep.load\<close>)
qed

fun schedule :: "nat set \<Rightarrow> (nat \<Rightarrow> duration) \<Rightarrow> nat list \<Rightarrow> lstate \<Rightarrow> bool" where
  "schedule T ns [] s = True"
| "schedule T ns (t # ts) s = (t \<in> T \<and> snd s t \<noteq> Finished \<and> schedule T ns ts (lexec t ns s))"

lemma schedule_run:
  "schedule T ns ts s \<Longrightarrow> (lstep T ns ^^ length ts) s (fold (\<lambda>t. lexec t ns) ts s)"
proof (induction ts arbitrary: s)
  case (Cons t ts)
  then have "lstep T ns s (lexec t ns s)" by (intro lexec_step) simp_all
  with Cons show ?case by (simp add: relpowp_Suc_I2 del: relpowp.simps)
qed simp

abbreviation race :: "nat list" where
  "race \<equiv> [0, 1, 0, 1, 1, 0, 0, 0, 0, 1]"

lemma race_end:
  "fold (\<lambda>t. lexec t two_ns) race (fresh_latency, \<lambda>_. AtCount) =
   (\<lparr>la_target = 6, la_count = 2, la_exceeded = 1, la_maxObs = 7\<rparr>, (\<lambda>_. AtCount)(0 := Finished, 1 := Finished))"
  by (simp add: two_ns_def fresh_latency_def fun_upd_twist)

lemma race_run:
  "(lstep {0, 1} two_ns ^^ 10) (fresh_latency, \<lambda>_. AtCount)
   (\<lparr>la_target = 6, la_count = 2, la_exceeded = 1, la_maxObs = 7\<rparr>, (\<lambda>_. AtCount)(0 := Finished, 1 := Finished))"
proof -
  have "schedule {0, 1} two_ns race (fresh_latency, \<lambda>_. AtCount)"
    by (simp add: two_ns_def fresh_latency_def)
  from schedule_run [OF this] show ?thesis unfolding race_end by (simp add: eval_nat_numeral del: relpowp.simps)
qed

theorem latency_linearizable_witness:
  "\<lparr>la_target = 6, la_count = 2, la_exceeded = 1, la_maxObs = 7\<rparr> =
   fold (\<lambda>t. observe (two_ns t)) [0, 1] fresh_latency"
  by (rule latency_linearizable [where p = "(\<lambda>_. AtCount)(0 := Finished, 1 := Finished)"])
    (use relpowp_imp_rtranclp [OF race_run] in simp_all)

theorem latency_terminates_witness:
  "\<exists>l p. (lstep {0, 1} two_ns ^^ 10) (fresh_latency, \<lambda>_. AtCount) (l, p) \<and> la_count l = 2 \<and> p 0 = Finished \<and> p 1 = Finished \<and>
     10 \<le> card {0::nat, 1} * (4 * card {0::nat, 1} + 5)"
proof -
  have "10 \<le> card {0::nat, 1} * (4 * card {0::nat, 1} + 5)" using latency_terminates [OF _ race_run] by simp
  with race_run show ?thesis by (intro exI conjI) (assumption, simp_all)
qed

end
