(* ===== verification/Router.thy ===== *)
theory Router
  imports Latency Settlement
begin

text \<open>
  The multi-venue router of \<open>internal/executor/executor.go\<close>: the choice of the best quote, the single
  submission and the split across venues. The operations take an implementation \<open>X\<close> of the
  interface; the executors are a list, and a leg names its executor by the position.
\<close>

section \<open>Quotes\<close>

text \<open>\<open>NewRouter\<close> panics without an executor.\<close>

definition NewRouter :: "'x list \<Rightarrow> 'x list option" where
  "NewRouter execs = (if length execs = 0 then None else Some execs)"

definition absDiff :: "float64 \<Rightarrow> float64" where
  "absDiff x = (if f_lt x f_zero then f_neg x else x)"

definition effective_rate :: "Quote \<Rightarrow> float64" where
  "effective_rate q = f_mul (q_Rate q) (f_add f_one (f_div (q_CostBPS q) (Fin 10000)))"

definition betterQuote :: "Quote \<Rightarrow> Quote \<Rightarrow> bool" where
  "betterQuote a b =
     (let ea = effective_rate a; eb = effective_rate b; diff = f_sub ea eb
      in if f_lt (fround (1 / 10 ^ 12)) (absDiff diff) then f_lt diff f_zero
         else f_lt (q_Liquidity b) (q_Liquidity a))"

text \<open>Asking every executor in turn; those that fail are skipped.\<close>

fun collect_quotes ::
  "('x, 'd) executor_iface \<Rightarrow> nat \<Rightarrow> 'x list \<Rightarrow> string \<Rightarrow> float64 \<Rightarrow> string \<Rightarrow> 'd net \<Rightarrow>
   (Quote \<times> nat) list \<times> 'd net" where
  "collect_quotes X i [] currency notional tenor w = ([], w)"
| "collect_quotes X i (ex # rest) currency notional tenor w =
     (let (r, w1) = ex_Quote X ex currency notional tenor w;
          (qs, w2) = collect_quotes X (Suc i) rest currency notional tenor w1
      in (case r of Inl _ \<Rightarrow> (qs, w2) | Inr q \<Rightarrow> ((q, i) # qs, w2)))"

fun best_of :: "Quote \<times> nat \<Rightarrow> (Quote \<times> nat) list \<Rightarrow> Quote \<times> nat" where
  "best_of best [] = best"
| "best_of best (cand # rest) =
     best_of (if betterQuote (fst cand) (fst best) then cand else best) rest"

definition BestQuote ::
  "('x, 'd) executor_iface \<Rightarrow> 'x list \<Rightarrow> string \<Rightarrow> float64 \<Rightarrow> string \<Rightarrow> 'd net \<Rightarrow>
   (exec_error + Quote \<times> nat) \<times> 'd net" where
  "BestQuote X execs currency notional tenor w =
     (let (results, w1) = collect_quotes X 0 execs currency notional tenor w
      in (case results of [] \<Rightarrow> (Inl (QuoteFailed []), w1) | b # rest \<Rightarrow> (Inr (best_of b rest), w1)))"

section \<open>Submission\<close>

text \<open>Fills without a venue get the name of the executor they came from.\<close>

definition name_fills :: "string \<Rightarrow> 'd Fill list \<Rightarrow> 'd Fill list" where
  "name_fills name fills = map (\<lambda>f. if fl_Venue f = [] then f\<lparr>fl_Venue := name\<rparr> else f) fills"

text \<open>The sort of the legs: the inner loop moves the element at \<open>j\<close> to the left while it has more
  liquidity than its neighbour.\<close>

fun sift :: "nat \<Rightarrow> (Quote \<times> nat) list \<Rightarrow> (Quote \<times> nat) list" where
  "sift 0 lqs = lqs"
| "sift (Suc j) lqs =
     (if f_lt (q_Liquidity (fst (lqs ! j))) (q_Liquidity (fst (lqs ! Suc j)))
      then sift j (lqs[j := lqs ! Suc j, Suc j := lqs ! j])
      else lqs)"

definition sort_legs :: "(Quote \<times> nat) list \<Rightarrow> (Quote \<times> nat) list" where
  "sort_legs lqs = fold sift [1..<length lqs] lqs"

text \<open>The loop over the sorted legs returns \<open>None\<close> for a panic, and otherwise the fills and what is left
  to allocate.\<close>

fun split_loop ::
  "'d::linordered_idom decimal_pkg \<Rightarrow> ('x, 'd) executor_iface \<Rightarrow> 'd Hedge \<Rightarrow> 'd \<Rightarrow> (Quote \<times> nat) list \<Rightarrow>
   'd \<Rightarrow> 'd Fill list \<Rightarrow> 'x list \<Rightarrow> 'd net \<Rightarrow> ('d Fill list \<times> 'd) option \<times> 'x list \<times> 'd net" where
  "split_loop D X h eps [] remaining fills execs w = (Some (fills, remaining), execs, w)"
| "split_loop D X h eps ((q, i) # rest) remaining fills execs w =
     (if remaining \<le> eps then (Some (fills, remaining), execs, w)
      else (case NewFromFloat D (q_Liquidity q) of None \<Rightarrow> (None, execs, w) | Some liq \<Rightarrow>
        if liq \<le> 0 then split_loop D X h eps rest remaining fills execs w
        else
          (let alloc = (if remaining < liq then remaining else liq) in
           case NewFromFloat D (q_Rate q) of None \<Rightarrow> (None, execs, w) | Some rate \<Rightarrow>
             (let leg = h\<lparr>h_Notional := alloc, h_QuotedRate := rate\<rparr>;
                  (r, ex', w1) = ex_Submit X (execs ! i) leg w;
                  execs1 = execs[i := ex']
              in (case r of None \<Rightarrow> (None, execs1, w1)
                  | Some (_, Some _) \<Rightarrow> split_loop D X h eps rest remaining fills execs1 w1
                  | Some (legFills, None) \<Rightarrow>
                      split_loop D X h eps rest (remaining - alloc)
                        (fills @ name_fills (ex_Name X ex') legFills) execs1 w1)))))"

definition splitAndExecute ::
  "'d::linordered_idom decimal_pkg \<Rightarrow> ('x, 'd) executor_iface \<Rightarrow> 'x list \<Rightarrow> 'd Hedge \<Rightarrow> 'd net \<Rightarrow>
   'd exec_out \<times> 'x list \<times> 'd net" where
  "splitAndExecute D X execs h w =
     (let notionalF = InexactFloat64 D (h_Notional h);
          (lqs, w1) = collect_quotes X 0 execs (h_Currency h) notionalF (h_Tenor h) w in
      if lqs = [] then (Some ([], Some (QuoteFailed [])), execs, w1)
      else
        (case NewFromFloat D float_1e_9 of None \<Rightarrow> (None, execs, w1) | Some epsilon \<Rightarrow>
          (let (r, execs1, w2) = split_loop D X h epsilon (sort_legs lqs) (h_Notional h) [] execs w1
           in (case r of None \<Rightarrow> (None, execs1, w2)
               | Some (fills, remaining) \<Rightarrow>
                   (Some (fills, if epsilon < remaining
                                 then Some (IncompleteFill (DecString D remaining)) else None), execs1, w2)))))"

text \<open>The hedge is passed by reference: its quoted rate is set before the submission, so the operation
  returns the hedge too.\<close>

definition RouteAndExecute ::
  "'d::linordered_idom decimal_pkg \<Rightarrow> ('x, 'd) executor_iface \<Rightarrow> 'x list \<Rightarrow> 'd Hedge \<Rightarrow> 'd net \<Rightarrow>
   'd exec_out \<times> 'd Hedge \<times> 'x list \<times> 'd net" where
  "RouteAndExecute D X execs h w =
     (let notionalF = InexactFloat64 D (h_Notional h);
          (best, w1) = BestQuote X execs (h_Currency h) notionalF (h_Tenor h) w
      in (case best of
            Inl e \<Rightarrow> (Some ([], Some e), h, execs, w1)
          | Inr (q, i) \<Rightarrow>
              (case NewFromFloat D (q_Rate q) of None \<Rightarrow> (None, h, execs, w1) | Some rate \<Rightarrow>
                (let h1 = h\<lparr>h_QuotedRate := rate\<rparr> in
                 if f_le (q_Liquidity q) f_zero \<or> f_le notionalF (q_Liquidity q) then
                   (let (r, ex', w2) = ex_Submit X (execs ! i) h1 w1; execs1 = execs[i := ex']
                    in (case r of None \<Rightarrow> (None, h1, execs1, w2)
                        | Some (_, Some e) \<Rightarrow> (Some ([], Some e), h1, execs1, w2)
                        | Some (fills, None) \<Rightarrow> (Some (name_fills (ex_Name X ex') fills, None), h1, execs1, w2)))
                 else
                   (let (r, execs1, w2) = splitAndExecute D X execs h1 w1 in (r, h1, execs1, w2))))))"

section \<open>The choice of the quote\<close>

lemma tolerance_nonneg: "f_le f_zero (fround (1 / 10 ^ 12))"
  by (rule fround_nonneg) simp

lemma diff_neg_iff:
  assumes "f_lt (fround (1 / 10 ^ 12)) (absDiff (f_sub (Fin x) (Fin y)))"
  shows "f_lt (f_sub (Fin x) (Fin y)) f_zero \<longleftrightarrow> x < y"
proof -
  let ?d = "fround (x - y)"
  have d: "f_sub (Fin x) (Fin y) = ?d" by (simp add: f_sub_def)
  have nz: "?d \<noteq> f_zero"
  proof
    assume "?d = f_zero"
    with assms d have "f_lt (fround (1 / 10 ^ 12)) f_zero" by (simp add: absDiff_def)
    with tolerance_nonneg show False by (simp add: f_not_lt [symmetric])
  qed
  show ?thesis
  proof (cases "x < y")
    case True
    then have "f_le ?d f_zero" by (intro fround_nonpos) simp
    with nz True show ?thesis by (auto simp: d f_le_def f_eq_def)
  next
    case False
    then have "f_le f_zero ?d" by (intro fround_nonneg) simp
    with False show ?thesis by (simp add: d f_not_lt [symmetric])
  qed
qed

text \<open>Two quotes are separated when their effective rates are equal or differ by more than the
  tolerance of the comparison; within the tolerance \<open>betterQuote\<close> looks at the liquidity only, which
  does not give an order.\<close>

definition separated :: "Quote \<Rightarrow> Quote \<Rightarrow> bool" where
  "separated a b \<longleftrightarrow> effective_rate a = effective_rate b \<or>
     f_lt (fround (1 / 10 ^ 12)) (absDiff (f_sub (effective_rate a) (effective_rate b)))"

definition comparable :: "(Quote \<times> nat) list \<Rightarrow> bool" where
  "comparable qs \<longleftrightarrow> (\<forall>a\<in>set qs. f_finite (effective_rate (fst a)) \<and> q_Liquidity (fst a) \<noteq> NaN \<and>
     (\<forall>b\<in>set qs. separated (fst a) (fst b)))"

text \<open>The order on quotes the router documents: lower effective rate first, then more liquidity.\<close>

definition at_least_as_good :: "Quote \<Rightarrow> Quote \<Rightarrow> bool" where
  "at_least_as_good a b \<longleftrightarrow> f_lt (effective_rate a) (effective_rate b) \<or>
     effective_rate a = effective_rate b \<and> f_le (q_Liquidity b) (q_Liquidity a)"

lemma betterQuote_iff:
  assumes "f_finite (effective_rate a)" "f_finite (effective_rate b)" "separated a b"
  shows "betterQuote a b \<longleftrightarrow> f_lt (effective_rate a) (effective_rate b) \<or>
    effective_rate a = effective_rate b \<and> f_lt (q_Liquidity b) (q_Liquidity a)"
proof -
  from assms(1,2) obtain x y where xy: "effective_rate a = Fin x" "effective_rate b = Fin y"
    by (cases "effective_rate a"; cases "effective_rate b") (auto simp: f_finite_def)
  show ?thesis
  proof (cases "x = y")
    case True
    have "\<not> f_lt (fround (1 / 10 ^ 12)) f_zero"
      using tolerance_nonneg by (simp add: f_not_lt)
    with True xy show ?thesis
      by (simp add: betterQuote_def Let_def f_sub_def absDiff_def)
  next
    case False
    then have "f_lt (fround (1 / 10 ^ 12)) (absDiff (f_sub (Fin x) (Fin y)))"
      using assms(3) xy by (simp add: separated_def)
    with False xy diff_neg_iff [OF this] show ?thesis
      by (simp add: betterQuote_def Let_def)
  qed
qed

lemma at_least_as_good_trans:
  "at_least_as_good a b \<Longrightarrow> at_least_as_good b c \<Longrightarrow> at_least_as_good a c"
  by (auto simp: at_least_as_good_def intro: f_lt_trans f_le_trans)

lemma at_least_as_good_cases:
  assumes "f_finite (effective_rate a)" "f_finite (effective_rate b)" "separated a b"
    "q_Liquidity a \<noteq> NaN" "q_Liquidity b \<noteq> NaN"
  shows "if betterQuote a b then at_least_as_good a b else at_least_as_good b a"
proof -
  from assms(1,2) obtain x y where "effective_rate a = Fin x" "effective_rate b = Fin y"
    by (cases "effective_rate a"; cases "effective_rate b") (auto simp: f_finite_def)
  then show ?thesis
    using assms(4,5) by (auto simp: betterQuote_iff [OF assms(1-3)] at_least_as_good_def f_not_lt intro: f_lt_imp_le)
qed

lemma best_of_mem: "best_of b rest \<in> set (b # rest)"
proof (induction rest arbitrary: b)
  case (Cons c rest)
  from Cons [of "if betterQuote (fst c) (fst b) then c else b"] show ?case by (auto split: if_splits)
qed simp

lemma best_of_optimal:
  "comparable (b # rest) \<Longrightarrow> c \<in> set (b # rest) \<Longrightarrow> at_least_as_good (fst (best_of b rest)) (fst c)"
proof (induction rest arbitrary: b c)
  case Nil
  then show ?case by (auto simp: comparable_def at_least_as_good_def)
next
  case (Cons d rest)
  let ?n = "if betterQuote (fst d) (fst b) then d else b"
  have comp: "comparable (?n # rest)" using Cons.prems(1) by (auto simp: comparable_def)
  have "if betterQuote (fst d) (fst b) then at_least_as_good (fst d) (fst b) else at_least_as_good (fst b) (fst d)"
    using Cons.prems(1) by (intro at_least_as_good_cases) (auto simp: comparable_def)
  moreover have "at_least_as_good (fst x) (fst x)" if "x \<in> {b, d}" for x
    using that Cons.prems(1) by (auto simp: comparable_def at_least_as_good_def)
  ultimately have n: "at_least_as_good (fst ?n) (fst b)" "at_least_as_good (fst ?n) (fst d)"
    by (auto split: if_splits)
  have best: "at_least_as_good (fst (best_of ?n rest)) (fst ?n)"
    using Cons.IH [OF comp, of ?n] by simp
  show ?case
  proof (cases "c \<in> set rest")
    case True
    then show ?thesis using Cons.IH [OF comp, of c] by simp
  next
    case False
    with Cons.prems(2) have "c = b \<or> c = d" by auto
    with n best show ?thesis by (auto intro: at_least_as_good_trans)
  qed
qed

lemma collect_quotes_index:
  "(q, i) \<in> set (fst (collect_quotes X k execs c n t w)) \<Longrightarrow> k \<le> i \<and> i < k + length execs"
proof (induction execs arbitrary: k w)
  case (Cons ex execs)
  then show ?case by (fastforce simp: case_prod_beta split: sum.splits)
qed simp

text \<open>C35. The best quote: when the effective rates of the quotes are equal or differ by more than the
  tolerance of \<open>1e-12\<close>, \<open>BestQuote\<close> returns the quote of one of the executors that answered, with
  the lowest effective rate, and among those with the lowest rate one of the highest liquidity; it
  fails exactly when no executor answered.\<close>

theorem BestQuote_optimal:
  assumes "collect_quotes X 0 execs currency notional tenor w = (qs, w1)" and "comparable qs"
  shows "case BestQuote X execs currency notional tenor w of
      (Inl e, w') \<Rightarrow> qs = [] \<and> w' = w1
    | (Inr (q, i), w') \<Rightarrow> (q, i) \<in> set qs \<and> i < length execs \<and> w' = w1 \<and>
        (\<forall>(q', j)\<in>set qs. at_least_as_good q q')"
proof (cases qs)
  case Nil
  with assms(1) show ?thesis by (simp add: BestQuote_def)
next
  case (Cons b rest)
  obtain q i where qi: "best_of b rest = (q, i)" by fastforce
  have "(q, i) \<in> set qs" using best_of_mem [of b rest] qi Cons by simp
  moreover from this have "i < length execs"
    using collect_quotes_index [of q i X 0 execs currency notional tenor w] assms(1) by simp
  moreover have "\<forall>(q', j)\<in>set qs. at_least_as_good q q'"
    using best_of_optimal [of b rest] assms(2) Cons qi by fastforce
  ultimately show ?thesis using assms(1) Cons qi by (simp add: BestQuote_def)
qed

section \<open>The order of the legs\<close>

abbreviation liq :: "Quote \<times> nat \<Rightarrow> float64" where
  "liq lq \<equiv> q_Liquidity (fst lq)"

text \<open>The inner loop seen from the right end of the sorted prefix.\<close>

fun place :: "Quote \<times> nat \<Rightarrow> (Quote \<times> nat) list \<Rightarrow> (Quote \<times> nat) list" where
  "place x [] = [x]"
| "place x (y # ys) = (if f_lt (liq y) (liq x) then y # place x ys else x # y # ys)"

lemma sift_place: "sift (length ys) (rev ys @ x # zs) = rev (place x ys) @ zs"
proof (induction ys arbitrary: zs)
  case (Cons y ys)
  show ?case
    using Cons [of "y # zs"] by (simp add: nth_append list_update_append)
qed simp

lemma fold_sift: "k \<le> length lqs \<Longrightarrow> fold sift [0..<k] lqs = rev (fold place (take k lqs) []) @ drop k lqs"
proof (induction k)
  case (Suc k)
  let ?ys = "fold place (take k lqs) []"
  have len: "length (fold place xs ys) = length xs + length ys" for xs ys
  proof (induction xs arbitrary: ys)
    case (Cons x xs)
    have "length (place x ys) = Suc (length ys)" by (induction ys) auto
    with Cons show ?case by simp
  qed simp
  have "fold sift [0..<Suc k] lqs = sift (length ?ys) (rev ?ys @ lqs ! k # drop (Suc k) lqs)"
    using Suc len [of "take k lqs" "[]"] by (simp add: Cons_nth_drop_Suc)
  also have "\<dots> = rev (place (lqs ! k) ?ys) @ drop (Suc k) lqs" by (rule sift_place)
  finally show ?case using Suc.prems by (simp add: take_Suc_conv_app_nth)
qed simp

lemma sort_legs_eq: "sort_legs lqs = rev (fold place lqs [])"
proof (cases lqs)
  case (Cons x xs)
  have "fold sift [0..<length lqs] lqs = fold sift [1..<length lqs] lqs"
    using Cons by (simp add: upt_rec del: upt_Suc)
  with fold_sift [of "length lqs" lqs] show ?thesis by (simp add: sort_legs_def)
qed (simp add: sort_legs_def)

lemma mset_place: "mset (place x ys) = add_mset x (mset ys)"
  by (induction ys) auto

lemma sorted_place:
  assumes "sorted_wrt (\<lambda>a b. f_le (liq a) (liq b)) ys" and "\<forall>y\<in>set (x # ys). liq y \<noteq> NaN"
  shows "sorted_wrt (\<lambda>a b. f_le (liq a) (liq b)) (place x ys)"
  using assms
proof (induction ys)
  case (Cons y ys)
  have "set (place x ys) = insert x (set ys)" using mset_place [of x ys] by (metis set_mset_add_mset_insert set_mset_mset)
  with Cons show ?case
    by (auto simp: f_not_lt f_lt_imp_le intro: f_le_trans)
qed simp

lemma filter_place:
  "filter (\<lambda>a. liq a = v) (place x ys) = (if liq x = v then [x] else []) @ filter (\<lambda>a. liq a = v) ys"
  by (induction ys) auto

lemma fold_place:
  "mset (fold place xs ys) = mset xs + mset ys \<and>
   filter (\<lambda>a. liq a = v) (fold place xs ys) = rev (filter (\<lambda>a. liq a = v) xs) @ filter (\<lambda>a. liq a = v) ys \<and>
   (sorted_wrt (\<lambda>a b. f_le (liq a) (liq b)) ys \<and> (\<forall>y\<in>set (xs @ ys). liq y \<noteq> NaN) \<longrightarrow>
    sorted_wrt (\<lambda>a b. f_le (liq a) (liq b)) (fold place xs ys))"
proof (induction xs arbitrary: ys)
  case (Cons x xs)
  have "set (place x ys) = insert x (set ys)" using mset_place [of x ys] by (metis set_mset_add_mset_insert set_mset_mset)
  with Cons [of "place x ys"] show ?case
    by (auto simp: mset_place filter_place sorted_place)
qed simp

text \<open>The hand-written sort of \<open>splitAndExecute\<close> is a stable sort by descending liquidity: the legs
  are permuted, legs of equal liquidity keep their order, and if no liquidity is a NaN no leg
  comes before one with more liquidity.\<close>

theorem sort_legs_correct:
  "mset (sort_legs lqs) = mset lqs \<and>
   filter (\<lambda>a. liq a = v) (sort_legs lqs) = filter (\<lambda>a. liq a = v) lqs \<and>
   ((\<forall>a\<in>set lqs. liq a \<noteq> NaN) \<longrightarrow> sorted_wrt (\<lambda>a b. f_le (liq b) (liq a)) (sort_legs lqs))"
  using fold_place [of lqs "[]" v] by (simp add: sort_legs_eq sorted_wrt_rev rev_filter [symmetric])

definition sample_quote :: "rat \<Rightarrow> rat \<Rightarrow> Quote" where
  "sample_quote rate amount =
     \<lparr>q_Venue = [], q_Rate = Fin rate, q_Liquidity = Fin amount, q_CostBPS = f_zero, q_Tenor = ''SPOT'', q_ExpiresAt = 0\<rparr>"

theorem sort_legs_correct_witness:
  "sorted_wrt (\<lambda>a b. f_le (liq b) (liq a)) (sort_legs [(sample_quote 1 30, 0), (sample_quote 1 70, 1), (sample_quote 2 30, 2)])"
  by (rule sort_legs_correct [THEN conjunct2, THEN conjunct2, THEN mp]) (simp add: sample_quote_def)

lemma sort_legs_set: "set (sort_legs lqs) = set lqs"
  using fold_place [of lqs "[]"] by (metis add.right_neutral mset.simps(1) set_mset_mset set_rev sort_legs_eq)

lemma BestQuote_index:
  assumes "fst (BestQuote X execs currency notional tenor w) = Inr (q, i)"
  shows "i < length execs"
proof -
  from assms obtain b rest where "fst (collect_quotes X 0 execs currency notional tenor w) = b # rest"
    and "best_of b rest = (q, i)"
    by (auto simp: BestQuote_def case_prod_beta split: list.splits)
  with best_of_mem [of b rest] collect_quotes_index [of q i X 0 execs currency notional tenor w]
  show ?thesis by simp
qed

section \<open>The contract of an executor\<close>

text \<open>What the router needs of the executors it may use: a submission that reports no error fills
  exactly the notional of the leg, for the hedge it was given. \<open>good\<close> says which executors
  keep the contract, and a submission does not end it.\<close>

locale executor_contract =
  fixes X :: "('x, 'd::linordered_idom) executor_iface" and good :: "'x \<Rightarrow> bool"
  assumes submit_good: "good x \<Longrightarrow> ex_Submit X x h w = (r, x', w') \<Longrightarrow> good x'"
    and submit_amount: "good x \<Longrightarrow> ex_Submit X x h w = (Some (fs, None), x', w') \<Longrightarrow>
      (\<Sum>f\<leftarrow>fs. fl_Amount f) = h_Notional h"
    and submit_owner: "good x \<Longrightarrow> ex_Submit X x h w = (Some (fs, None), x', w') \<Longrightarrow> f \<in> set fs \<Longrightarrow>
      fl_HedgeID f = h_ID h"
begin

definition total :: "'d Fill list \<Rightarrow> 'd" where
  "total fs = (\<Sum>f\<leftarrow>fs. fl_Amount f)"

definition owned :: "'d Hedge \<Rightarrow> 'd Fill list \<Rightarrow> bool" where
  "owned h fs \<longleftrightarrow> (\<forall>f\<in>set fs. fl_HedgeID f = h_ID h)"

lemma total_append [simp]: "total (xs @ ys) = total xs + total ys"
  by (simp add: total_def)

lemma total_name_fills [simp]: "total (name_fills n fs) = total fs"
  by (induction fs) (simp_all add: total_def name_fills_def)

lemma owned_name_fills [simp]: "owned h (name_fills n fs) = owned h fs"
  by (induction fs) (simp_all add: owned_def name_fills_def)

lemma owned_append [simp]: "owned h (xs @ ys) \<longleftrightarrow> owned h xs \<and> owned h ys"
  by (auto simp: owned_def)

lemma split_loop_total:
  assumes "split_loop D X h eps lqs remaining fills execs w = (Some (fills', remaining'), execs', w')"
    and "\<forall>x\<in>set execs. good x" and "\<forall>(q, i)\<in>set lqs. i < length execs" and "0 \<le> remaining" and "owned h fills"
  shows "total fills' + remaining' = total fills + remaining \<and> 0 \<le> remaining' \<and> remaining' \<le> remaining \<and>
    owned h fills' \<and> (\<forall>x\<in>set execs'. good x)"
  using assms
proof (induction lqs arbitrary: remaining fills execs w)
  case (Cons lq lqs)
  obtain q i where lq: "lq = (q, i)" by fastforce
  show ?case
  proof (cases "remaining \<le> eps")
    case True
    with Cons.prems lq show ?thesis by simp
  next
    case False
    then obtain a where a: "NewFromFloat D (q_Liquidity q) = Some a"
      using Cons.prems(1) lq by (auto split: option.splits)
    show ?thesis
    proof (cases "a \<le> 0")
      case True
      with Cons.prems lq False a show ?thesis by (intro Cons.IH [of remaining fills execs w]) auto
    next
      case pos: False
      let ?al = "if remaining < a then remaining else a"
      from Cons.prems(1) lq False a pos obtain rate where rate: "NewFromFloat D (q_Rate q) = Some rate"
        by (auto simp: Let_def split: option.splits if_splits)
      obtain r ex' w1 where sub: "ex_Submit X (execs ! i) (h\<lparr>h_Notional := ?al, h_QuotedRate := rate\<rparr>) w = (r, ex', w1)"
        by (metis prod_cases3)
      have gi: "good (execs ! i)" using Cons.prems(2,3) lq by auto
      then have g: "\<forall>x\<in>set (execs[i := ex']). good x" and len: "\<forall>(q, i)\<in>set lqs. i < length (execs[i := ex'])"
        using Cons.prems(2,3) submit_good [OF _ sub] by (auto dest: set_update_subset_insert [THEN subsetD])
      have al: "0 \<le> ?al" "?al \<le> remaining" using Cons.prems(4) pos by auto
      from Cons.prems(1) lq False a pos rate sub obtain out where r: "r = Some out"
        by (auto simp: Let_def split: option.splits if_splits)
      obtain lf err where out: "out = (lf, err)" by fastforce
      show ?thesis
      proof (cases err)
        case (Some e)
        with Cons.prems lq False a pos rate sub r out g len show ?thesis
          by (intro Cons.IH [of remaining fills "execs[i := ex']" w1]) (simp_all add: Let_def split: if_splits)
      next
        case None
        have "total lf = ?al" and o: "owned h lf"
          using submit_amount [OF gi] submit_owner [OF gi] sub r out None by (auto simp: total_def owned_def)
        moreover have "split_loop D X h eps lqs (remaining - ?al) (fills @ name_fills (ex_Name X ex') lf) (execs[i := ex']) w1 =
            (Some (fills', remaining'), execs', w')"
          using Cons.prems(1) lq False a pos rate sub r out None by (simp add: Let_def split: if_splits)
        ultimately show ?thesis
          using Cons.IH [of "remaining - ?al" "fills @ name_fills (ex_Name X ex') lf" "execs[i := ex']" w1] g len al Cons.prems(5)
          by simp
      qed
    qed
  qed
qed simp

lemma split_total:
  assumes "splitAndExecute D X execs h w = (Some (fills, err), execs', w')" and "\<forall>x\<in>set execs. good x"
    and "0 \<le> h_Notional h" and "NewFromFloat D float_1e_9 = Some eps"
  shows "total fills \<le> h_Notional h \<and> owned h fills \<and> (err = None \<longrightarrow> h_Notional h - total fills \<le> eps)"
proof -
  obtain lqs w1 where cq: "collect_quotes X 0 execs (h_Currency h) (InexactFloat64 D (h_Notional h)) (h_Tenor h) w = (lqs, w1)"
    by fastforce
  obtain r execs2 w2 where sl: "split_loop D X h eps (sort_legs lqs) (h_Notional h) [] execs w1 = (r, execs2, w2)"
    by (metis prod_cases3)
  show ?thesis
  proof (cases "lqs = []")
    case True
    with assms cq show ?thesis by (auto simp: splitAndExecute_def owned_def total_def)
  next
    case False
    with assms(1,4) cq sl obtain rem where r: "r = Some (fills, rem)"
      and e: "err = (if eps < rem then Some (IncompleteFill (DecString D rem)) else None)"
      by (auto simp: splitAndExecute_def split: option.splits)
    have "\<forall>(q, i)\<in>set (sort_legs lqs). i < length execs"
      using collect_quotes_index [of _ _ X 0 execs "h_Currency h" "InexactFloat64 D (h_Notional h)" "h_Tenor h" w] cq
      by (auto simp: sort_legs_set)
    from split_loop_total [OF sl [unfolded r] assms(2) this assms(3)] e show ?thesis
      by (auto simp: owned_def total_def split: if_splits)
  qed
qed

text \<open>What a routed order that reports success has filled: never more than the notional, and less by at
  most \<open>1e-9\<close>.\<close>

lemma route_total:
  assumes r: "RouteAndExecute D X execs h w = (Some (fills, None), h', execs', w')" and g: "\<forall>x\<in>set execs. good x"
    and n: "0 \<le> h_Notional h" and eps: "NewFromFloat D float_1e_9 = Some eps" "0 \<le> eps"
  shows "total fills \<le> h_Notional h \<and> h_Notional h - total fills \<le> eps \<and> owned h fills"
proof -
  obtain best w1 where bq: "BestQuote X execs (h_Currency h) (InexactFloat64 D (h_Notional h)) (h_Tenor h) w = (best, w1)"
    by fastforce
  with r obtain q i where b: "best = Inr (q, i)"
    by (auto simp: RouteAndExecute_def split: sum.splits)
  with r bq obtain rate where rate: "NewFromFloat D (q_Rate q) = Some rate"
    by (auto simp: RouteAndExecute_def split: option.splits)
  let ?h = "h\<lparr>h_QuotedRate := rate\<rparr>"
  have i: "i < length execs" using bq b
      BestQuote_index [of X execs "h_Currency h" "InexactFloat64 D (h_Notional h)" "h_Tenor h" w q i] by simp
  show ?thesis
  proof (cases "f_le (q_Liquidity q) f_zero \<or> f_le (InexactFloat64 D (h_Notional h)) (q_Liquidity q)")
    case True
    obtain out ex' w2 where s: "ex_Submit X (execs ! i) ?h w1 = (out, ex', w2)" by (metis prod_cases3)
    with r bq b rate True obtain fs where fs: "out = Some (fs, None)" "fills = name_fills (ex_Name X ex') fs"
      by (auto simp: RouteAndExecute_def Let_def split: option.splits)
    have gi: "good (execs ! i)" using g i by simp
    have "total fs = h_Notional h" and "owned h fs"
      using submit_amount [OF gi s [unfolded fs(1)]] submit_owner [OF gi s [unfolded fs(1)]] by (simp_all add: total_def owned_def)
    with fs(2) eps(2) show ?thesis by simp
  next
    case False
    obtain out execs2 w2 where s: "splitAndExecute D X execs ?h w1 = (out, execs2, w2)" by (metis prod_cases3)
    with False r bq b rate have "out = Some (fills, None)"
      by (simp add: RouteAndExecute_def Let_def)
    from split_total [OF s [unfolded this] g _ eps(1)] n show ?thesis by (simp add: owned_def)
  qed
qed

end

section \<open>The executors of the repository\<close>

text \<open>The adapters that fill at once: no live URL, and a rate and slippage that convert.\<close>

fun fallback :: "executor \<Rightarrow> bool" where
  "fallback (Bank b) \<longleftrightarrow> ba_baseURL b = [] \<and> f_finite (ba_rate b)"
| "fallback (Venue v) \<longleftrightarrow> va_baseURL v = [] \<and> f_finite (va_rate v) \<and>
     f_finite (f_add f_one (f_div (va_slip v) (Fin 10000)))"
| "fallback (LatencyExec l ex) \<longleftrightarrow> fallback ex"

lemma exec_Submit_fallback:
  assumes "fallback ex" and "exec_Submit L ex h w = (r, ex', w')"
  shows "fallback ex' \<and> (\<forall>fs. r = Some (fs, None) \<longrightarrow> (\<exists>f. fs = [f] \<and> fl_Amount f = h_Notional h \<and> fl_HedgeID f = h_ID h \<and> fl_Venue f \<noteq> [])) \<and>
    (decimal_ok (lib_dec L) \<longrightarrow> (\<exists>fs. r = Some (fs, None)))"
  using assms
proof (induction ex arbitrary: w r ex' w')
  case (Bank b)
  then show ?case by (auto simp: bank_Submit_def fallback_fill_def Let_def case_prod_beta bank_Name_def)
next
  case (Venue v)
  have "decimal_ok (lib_dec L) \<Longrightarrow> NewFromFloat (lib_dec L) (f_add f_one (f_div (va_slip v) (Fin 10000))) \<noteq> None"
    using Venue.prems(1) by (simp add: decimal_panics)
  with Venue show ?case
    by (auto simp: venue_Submit_def fallback_fill_def Let_def case_prod_beta venue_Name_def split: option.splits if_splits)
next
  case (LatencyExec l ex)
  obtain r1 ex1 w1 where s: "exec_Submit L ex h (snd (time_now w)) = (r1, ex1, w1)" by (metis prod_cases3)
  with LatencyExec.prems have "r = r1" and "\<exists>l'. ex' = LatencyExec l' ex1"
    by (auto simp: Let_def case_prod_beta split: option.splits)
  with LatencyExec.IH [OF _ s] LatencyExec.prems(1) show ?case by auto
qed

interpretation routed: executor_contract "repo_executors L" fallback for L :: "'d::linordered_idom libs"
proof unfold_locales
  fix x x' :: executor and h :: "'d Hedge" and w w' :: "'d net" and r fs f
  assume g: "fallback x"
  show "fallback x'" if "ex_Submit (repo_executors L) x h w = (r, x', w')"
    using exec_Submit_fallback [OF g, of L h w r x' w'] that by (simp add: repo_executors_def)
  assume "ex_Submit (repo_executors L) x h w = (Some (fs, None), x', w')"
  then obtain f' where f': "fs = [f']" "fl_Amount f' = h_Notional h" "fl_HedgeID f' = h_ID h"
    using exec_Submit_fallback [OF g, of L h w] by (auto simp: repo_executors_def)
  then show "(\<Sum>f\<leftarrow>fs. fl_Amount f) = h_Notional h" by simp
  assume "f \<in> set fs"
  with f' show "fl_HedgeID f = h_ID h" by simp
qed

text \<open>C4. For every implementation of the interface whose submissions fill what they are given, a routed
  order that reports success has filled the notional up to \<open>1e-9\<close>, never more than it, and every
  fill belongs to the hedge, whether the order was split or not.\<close>

theorem RouteAndExecute_fills:
  assumes "executor_contract X good" and "decimal_ok D" and "\<forall>x\<in>set execs. good x" and "0 \<le> h_Notional h"
    and "RouteAndExecute D X execs h w = (Some (fills, None), h', execs', w')"
  shows "(\<Sum>f\<leftarrow>fills. fl_Amount f) \<le> h_Notional h \<and>
    (h_Notional h - (\<Sum>f\<leftarrow>fills. fl_Amount f)) * 10 ^ 9 \<le> 1 \<and>
    (\<forall>f\<in>set fills. fl_HedgeID f = h_ID h)"
proof -
  obtain eps where eps: "NewFromFloat D float_1e_9 = Some eps" "eps * 10 ^ 9 = 1" "0 < eps"
    using decimal_epsilon [OF assms(2)] by blast
  have "executor_contract.total fills \<le> h_Notional h \<and> h_Notional h - executor_contract.total fills \<le> eps \<and>
      executor_contract.owned h fills"
    using executor_contract.route_total [OF assms(1) assms(5) assms(3,4) eps(1)] eps(3) by simp
  moreover have "(h_Notional h - t) * 10 ^ 9 \<le> eps * 10 ^ 9" if "h_Notional h - t \<le> eps" for t
    using that by (intro mult_right_mono) simp_all
  ultimately show ?thesis
    using eps(2) executor_contract.total_def [OF assms(1), of fills] executor_contract.owned_def [OF assms(1), of h fills]
    by simp
qed

text \<open>Liquidity providers of limited depth: two of them can fill 100 only together.\<close>

definition depth_executors :: "(rat, rat) executor_iface" where
  "depth_executors =
     \<lparr>ex_Name = (\<lambda>_. ''lp''), ex_Quote = (\<lambda>depth c n t w. (Inr (sample_quote 1 depth), w)),
      ex_Submit = (\<lambda>depth h w. (Some ([\<lparr>fl_HedgeID = h_ID h, fl_Venue = [], fl_VenueTradeID = ''t'', fl_Price = 1,
         fl_Amount = h_Notional h, fl_Timestamp = 1\<rparr>], None), depth, w))\<rparr>"

interpretation depth: executor_contract depth_executors "\<lambda>_. True"
  by unfold_locales (auto simp: depth_executors_def)

lemma sample_quote_rate [simp]: "effective_rate (sample_quote 1 x) = Fin 1"
proof -
  have "f_mul (Fin 1) (f_add f_one (f_div f_zero (Fin 10000))) = Fin 1" by code_simp
  then show ?thesis by (simp add: effective_rate_def sample_quote_def)
qed

lemma sample_betterQuote [simp]: "betterQuote (sample_quote 1 x) (sample_quote 1 y) \<longleftrightarrow> y < x"
  by (subst betterQuote_iff) (simp_all add: separated_def, simp add: sample_quote_def)

lemma fround_100: "fround 100 = Fin 100"
  by code_simp

lemma depth_route:
  "\<exists>fills h' execs' w'. RouteAndExecute rat_decimal depth_executors [30, 80] (sample_hedge ''h'' ''EUR'' 100 StatusPending)
      (failing_world 503) = (Some (fills, None), h', execs', w') \<and> map fl_Amount fills = [80, 20]"
proof -
  have i: "InexactFloat64 rat_decimal 100 = Fin 100" by (simp add: rat_decimal_def fround_100)
  have l: "q_Liquidity (sample_quote r x) = Fin x" "q_Rate (sample_quote r x) = Fin r" for r x by (simp_all add: sample_quote_def)
  show ?thesis
    by (simp add: RouteAndExecute_def BestQuote_def depth_executors_def splitAndExecute_def sort_legs_eq name_fills_def i l sample_hedge_def)
qed

theorem RouteAndExecute_fills_witness:
  "\<exists>fills h' execs' w'. RouteAndExecute rat_decimal depth_executors [30, 80] (sample_hedge ''h'' ''EUR'' 100 StatusPending)
      (failing_world 503) = (Some (fills, None), h', execs', w') \<and> (\<Sum>f\<leftarrow>fills. fl_Amount f) \<le> 100"
proof -
  obtain fills h' execs' w' where r: "RouteAndExecute rat_decimal depth_executors [30, 80]
      (sample_hedge ''h'' ''EUR'' 100 StatusPending) (failing_world 503) = (Some (fills, None), h', execs', w')"
    using depth_route by blast
  have "h_Notional (sample_hedge ''h'' ''EUR'' 100 StatusPending) = 100" by (simp add: sample_hedge_def)
  with RouteAndExecute_fills [OF depth.executor_contract_axioms rat_decimal_ok _ _ r] r show ?thesis by auto
qed

theorem BestQuote_optimal_witness:
  "fst (BestQuote depth_executors [30, 80] ''EUR'' (Fin 100) ''SPOT'' (failing_world 503)) = Inr (sample_quote 1 80, 1)"
proof -
  let ?w = "failing_world 503 :: rat net"
  let ?qs = "[(sample_quote 1 30, 0), (sample_quote 1 80, 1)] :: (Quote \<times> nat) list"
  have "collect_quotes depth_executors 0 [30, 80] ''EUR'' (Fin 100) ''SPOT'' ?w = (?qs, ?w)"
    by (simp add: depth_executors_def)
  moreover have "comparable ?qs"
    by (simp add: comparable_def separated_def) (simp add: sample_quote_def)
  ultimately have "case BestQuote depth_executors [30, 80] ''EUR'' (Fin 100) ''SPOT'' ?w of
      (Inl e, w') \<Rightarrow> ?qs = [] \<and> w' = ?w
    | (Inr (q, i), w') \<Rightarrow> (q, i) \<in> set ?qs \<and> i < length [30, 80 :: rat] \<and> w' = ?w \<and> (\<forall>(q', j)\<in>set ?qs. at_least_as_good q q')"
    by (rule BestQuote_optimal)
  moreover have "\<not> at_least_as_good (sample_quote 1 30) (sample_quote 1 80)"
    by (simp add: at_least_as_good_def) (simp add: sample_quote_def)
  ultimately show ?thesis
    by (auto split: prod.splits sum.splits)
qed

section \<open>The default router\<close>

lemma exec_Quote_fallback:
  "fallback ex \<Longrightarrow> \<exists>q w'. exec_Quote L ex currency notional tenor w = (Inr q, w') \<and>
     q_Liquidity q = notional \<and> f_finite (q_Rate q)"
proof (induction ex)
  case (Bank b)
  then show ?case by (simp add: bank_Quote_def case_prod_beta)
next
  case (Venue v)
  then show ?case by (simp add: venue_Quote_def case_prod_beta)
qed simp

lemma collect_quotes_fallback:
  assumes "\<forall>ex\<in>set execs. fallback ex"
  shows "length (fst (collect_quotes (repo_executors L) k execs currency notional tenor w)) = length execs \<and>
    (\<forall>(q, i)\<in>set (fst (collect_quotes (repo_executors L) k execs currency notional tenor w)).
       q_Liquidity q = notional \<and> f_finite (q_Rate q))"
  using assms
proof (induction execs arbitrary: k w)
  case (Cons ex execs)
  then obtain q w1 where q: "ex_Quote (repo_executors L) ex currency notional tenor w = (Inr q, w1)"
    "q_Liquidity q = notional" "f_finite (q_Rate q)"
    using exec_Quote_fallback [of ex L currency notional tenor w] by (auto simp: repo_executors_def)
  with Cons.IH [of "Suc k" w1] Cons.prems show ?case by (simp add: case_prod_beta)
qed simp

text \<open>C34. With the adapters in fallback mode, which is how the service starts without live URLs, routing
  never fails: every order is filled at once by exactly one fill of the whole notional, for the
  hedge and with a venue, and the executors stay usable.\<close>

theorem fallback_route_succeeds:
  assumes "execs \<noteq> []" and "\<forall>ex\<in>set execs. fallback ex" and "decimal_ok (lib_dec L)"
    and "InexactFloat64 (lib_dec L) (h_Notional h) \<noteq> NaN"
  shows "\<exists>f h' execs' w'. RouteAndExecute (lib_dec L) (repo_executors L) execs h w = (Some ([f], None), h', execs', w') \<and>
    fl_Amount f = h_Notional h \<and> fl_HedgeID f = h_ID h \<and> fl_Venue f \<noteq> [] \<and>
    length execs' = length execs \<and> (\<forall>ex\<in>set execs'. fallback ex)"
proof -
  let ?X = "repo_executors L" and ?n = "InexactFloat64 (lib_dec L) (h_Notional h)"
  obtain qs w1 where cq: "collect_quotes ?X 0 execs (h_Currency h) ?n (h_Tenor h) w = (qs, w1)" by fastforce
  with collect_quotes_fallback [OF assms(2), of L 0 "h_Currency h" ?n "h_Tenor h" w] assms(1)
  obtain b rest where qs: "qs = b # rest" and all: "\<forall>(q, i)\<in>set qs. q_Liquidity q = ?n \<and> f_finite (q_Rate q)"
    by (cases qs) auto
  obtain q i where best: "best_of b rest = (q, i)" by fastforce
  with best_of_mem [of b rest] qs have mem: "(q, i) \<in> set qs" by simp
  then have q: "q_Liquidity q = ?n" "f_finite (q_Rate q)" using all by auto
  have i: "i < length execs" using collect_quotes_index [of q i ?X 0 execs] mem cq by (metis add_0 fst_conv)
  obtain rate where rate: "NewFromFloat (lib_dec L) (q_Rate q) = Some rate"
    using q(2) decimal_panics [OF assms(3)] by fastforce
  let ?h = "h\<lparr>h_QuotedRate := rate\<rparr>"
  obtain r ex' w2 where s: "exec_Submit L (execs ! i) ?h w1 = (r, ex', w2)" by (metis prod_cases3)
  have fb: "fallback (execs ! i)" using assms(2) i by simp
  from exec_Submit_fallback [OF fb s] assms(3) obtain f where
    f: "r = Some ([f], None)" "fl_Amount f = h_Notional h" "fl_HedgeID f = h_ID h" "fl_Venue f \<noteq> []" "fallback ex'"
    by fastforce
  have "RouteAndExecute (lib_dec L) ?X execs h w = (Some ([f], None), ?h, execs[i := ex'], w2)"
    using cq qs best q(1) rate assms(4) f(1,4) s
    by (simp add: RouteAndExecute_def BestQuote_def name_fills_def) (simp add: repo_executors_def name_fills_def)
  moreover have "\<forall>ex\<in>set (execs[i := ex']). fallback ex"
    using assms(2) f(5) set_update_subset_insert [of execs i ex'] by auto
  ultimately show ?thesis using f by (intro exI [of _ f] exI [of _ ?h] exI [of _ "execs[i := ex']"] exI [of _ w2]) simp
qed

definition default_router :: "executor list" where
  "default_router = [NewLatencyExecutor (Bank (NewBankAdapter (\<lambda>_. []) (fround (11 / 10)))) (500 * millisecond)]"

definition sample_libs :: "rat libs" where
  "sample_libs = \<lparr>lib_dec = rat_decimal, lib_fmt = sample_fmt,
     lib_json = \<lparr>dec_quote = (\<lambda>_. Inl []), dec_order = (\<lambda>_. Inl [])\<rparr>\<rparr>"

lemma default_router_fallback: "\<forall>ex\<in>set default_router. fallback ex"
  by (simp add: default_router_def NewLatencyExecutor_def NewBankAdapter_def default_rate)

theorem fallback_route_succeeds_witness:
  "\<exists>f h' execs' w'. RouteAndExecute rat_decimal (repo_executors sample_libs) default_router
      (sample_hedge ''h'' ''EUR'' 100 StatusPending) (failing_world 503) = (Some ([f], None), h', execs', w') \<and> fl_Amount f = 100"
proof -
  have l: "lib_dec sample_libs = rat_decimal" by (simp add: sample_libs_def)
  have n: "InexactFloat64 rat_decimal 100 \<noteq> NaN" by (simp add: rat_decimal_def)
  have "default_router \<noteq> []" by (simp add: default_router_def)
  from fallback_route_succeeds [OF this default_router_fallback, of sample_libs "sample_hedge ''h'' ''EUR'' 100 StatusPending"
      "failing_world 503"] l n
  show ?thesis by (auto simp: sample_hedge_def)
qed

section \<open>What routing does to the world and to the hedge\<close>

text \<open>Executors that keep the oracles of the world and draw UUIDs forward only.\<close>

locale orderly_executor =
  fixes X :: "('x, 'd::linordered_idom) executor_iface"
  assumes quote_later: "world_later w (snd (ex_Quote X x c n t w))"
    and submit_later: "world_later w (snd (snd (ex_Submit X x h w)))"
begin

lemma collect_quotes_later: "world_later w0 w \<Longrightarrow> world_later w0 (snd (collect_quotes X k execs c n t w))"
proof (induction execs arbitrary: k w)
  case (Cons ex execs)
  have "world_later w0 (snd (ex_Quote X ex c n t w))"
    using Cons.prems quote_later by (rule world_later_trans)
  from Cons.IH [OF this] show ?case by (simp add: case_prod_beta split: sum.splits)
qed simp

lemma split_loop_later:
  "world_later w0 w \<Longrightarrow> world_later w0 (snd (snd (split_loop D X h eps lqs rem fills execs w)))"
proof (induction lqs arbitrary: rem fills execs w)
  case (Cons lq lqs)
  obtain q i where lq: "lq = (q, i)" by fastforce
  have sub: "world_later w0 (snd (snd (ex_Submit X x leg w)))" for x leg
    using Cons.prems submit_later by (rule world_later_trans)
  show ?case
    using Cons lq sub by (auto simp: Let_def case_prod_beta split: option.splits)
qed simp

lemma route_later: "world_later w0 w \<Longrightarrow> world_later w0 (snd (snd (snd (RouteAndExecute D X execs h w))))"
proof -
  assume w: "world_later w0 w"
  let ?b = "BestQuote X execs (h_Currency h) (InexactFloat64 D (h_Notional h)) (h_Tenor h) w"
  have b: "world_later w0 (snd ?b)"
    using collect_quotes_later [OF w] by (simp add: BestQuote_def case_prod_beta split: list.splits)
  have sub: "world_later w0 (snd (snd (ex_Submit X x g (snd ?b))))" for x g
    using b submit_later by (rule world_later_trans)
  have split: "world_later w0 (snd (snd (splitAndExecute D X execs g (snd ?b))))" for g
    using split_loop_later [OF collect_quotes_later [OF b]] collect_quotes_later [OF b]
    by (auto simp: splitAndExecute_def Let_def case_prod_beta split: option.splits)
  show ?thesis
    using b sub split by (auto simp: RouteAndExecute_def Let_def case_prod_beta split: option.splits sum.splits)
qed

end

lemma RouteAndExecute_hedge:
  fixes h :: "'d::linordered_idom Hedge"
  assumes "RouteAndExecute D X execs h w = (r, h', execs', w')"
  shows "\<exists>rate. h' = h\<lparr>h_QuotedRate := rate\<rparr>"
proof -
  have self: "\<exists>rate. g = g\<lparr>h_QuotedRate := rate\<rparr>" for g :: "'d Hedge"
    by (rule exI [of _ "h_QuotedRate g"]) simp
  show ?thesis
    using assms self by (auto simp: RouteAndExecute_def Let_def case_prod_beta split: option.splits sum.splits if_splits)
qed

lemma exec_Quote_later: "world_later w0 w \<Longrightarrow> world_later w0 (snd (exec_Quote L x c n t w))"
proof (induction x)
  case (Bank b)
  then show ?case
    by (auto simp: bank_Quote_def bank_liveQuote_def Let_def case_prod_beta world_later_actions split: sum.splits)
next
  case (Venue v)
  then show ?case
    by (auto simp: venue_Quote_def Let_def case_prod_beta world_later_actions split: sum.splits)
qed simp

lemma fallback_fill_later: "world_later w0 w \<Longrightarrow> world_later w0 (snd (fallback_fill h n pre p w))"
  by (simp add: fallback_fill_def Let_def case_prod_beta world_later_actions)

lemma submit_request_later: "world_later w0 w \<Longrightarrow> world_later w0 (snd (submit_request L h n made w))"
  by (auto simp: submit_request_def order_fill_def Let_def case_prod_beta world_later_actions split: sum.splits option.splits)

lemma exec_Submit_later: "world_later w0 w \<Longrightarrow> world_later w0 (snd (snd (exec_Submit L x h w)))"
proof (induction x arbitrary: w)
  case (Bank b)
  then show ?case
    by (simp add: bank_Submit_def bank_liveSubmit_def Let_def case_prod_beta fallback_fill_later submit_request_later)
next
  case (Venue v)
  then show ?case
    by (auto simp: venue_Submit_def Let_def case_prod_beta fallback_fill_later submit_request_later split: option.splits)
next
  case (LatencyExec l x)
  then show ?case
    by (auto simp: Let_def case_prod_beta world_later_actions split: option.splits)
qed

interpretation repo: orderly_executor "repo_executors L" for L :: "'d::linordered_idom libs"
  by unfold_locales (simp_all add: repo_executors_def exec_Quote_later exec_Submit_later)

end
