(* ===== verification/Service.thy ===== *)
theory Service
  imports Tracker Store RateCache Router
begin

text \<open>
  The state of the service of \<open>internal/api/handlers.go\<close> and the helpers its handlers share: the
  \<open>Service\<close> struct with the in-memory store behind the interface \<open>Store\<close>, the audit emission, and
  the publication to Reconciliation. The world the service runs in is a field of the state. Reading
  the clock for a call that may not need the time advances the clock oracle too; the oracle is
  arbitrary, so no behaviour is lost.
\<close>

section \<open>State\<close>

record 'd Service =
  sv_Store :: "'d memstore"
  sv_Tracker :: "'d tracker"
  sv_Provider :: "'d DummyFXProvider"
  sv_Policy :: "policy option"
  sv_Audit :: "sink option"
  sv_Cache :: "cache option"
  sv_AuditC :: "AuditClient option"
  sv_ReconC :: "ReconClient option"
  sv_DL :: "'d MemDeadLetter option"
  sv_world :: "'d net"

definition NewService ::
  "'d memstore \<Rightarrow> 'd tracker \<Rightarrow> 'd DummyFXProvider \<Rightarrow> policy option \<Rightarrow> sink option \<Rightarrow> 'd net \<Rightarrow> 'd Service" where
  "NewService st tr p pol a w =
     \<lparr>sv_Store = st, sv_Tracker = tr, sv_Provider = p, sv_Policy = pol, sv_Audit = a,
      sv_Cache = Some (cache_New second), sv_AuditC = None, sv_ReconC = None, sv_DL = None, sv_world = w\<rparr>"

definition svc_now :: "'d Service \<Rightarrow> time \<times> 'd Service" where
  "svc_now s = (let (now, w) = time_now (sv_world s) in (now, s\<lparr>sv_world := w\<rparr>))"

definition svc_uuid :: "'d Service \<Rightarrow> string \<times> 'd Service" where
  "svc_uuid s = (let (u, w) = new_uuid (sv_world s) in (u, s\<lparr>sv_world := w\<rparr>))"

definition svc_GetExposure :: "string \<Rightarrow> 'd::linordered_idom Service \<Rightarrow> 'd Exposure option \<times> 'd Service" where
  "svc_GetExposure currency s =
     (let (now, s1) = svc_now s in (Tracker.GetExposure now (sv_Tracker s1) currency, s1))"

section \<open>Audit events\<close>

definition emit :: "'d::linordered_idom libs \<Rightarrow> Event \<Rightarrow> 'd Service \<Rightarrow> 'd Service" where
  "emit L e s =
     (let s1 = (case sv_Audit s of None \<Rightarrow> s
                | Some a \<Rightarrow> (let (a', w) = sink_Emit a e (sv_world s) in s\<lparr>sv_Audit := Some a', sv_world := w\<rparr>))
      in (case sv_AuditC s1 of None \<Rightarrow> s1
          | Some ac \<Rightarrow>
              (let entity = (if ae_HedgeID e = [] then ''ccy:'' @ ae_Currency e else ae_HedgeID e);
                   eventID = event_string (ae_Type e) @ '':'' @ entity @ '':'' @ RFC3339Nano (lib_fmt L) (ae_At e);
                   payload = \<lparr>ap_EventType = event_string (ae_Type e), ap_Source = ''fx-hedging'', ap_HedgeID = ae_HedgeID e,
                              ap_Currency = ae_Currency e, ap_Detail = ae_Detail e, ap_At = RFC3339 (lib_fmt L) (ae_At e),
                              ap_Amount = 0\<rparr>;
                   (err, ac', dl, w) = AuditClient_Emit (lib_fmt L) Background ac payload eventID entity (sv_DL s1) (sv_world s1)
               in s1\<lparr>sv_AuditC := Some ac', sv_DL := dl, sv_world := w\<rparr>)))"

definition emit_at ::
  "'d::linordered_idom libs \<Rightarrow> EventType \<Rightarrow> string \<Rightarrow> string \<Rightarrow> string \<Rightarrow> 'd Service \<Rightarrow> 'd Service" where
  "emit_at L ty hedgeID currency detail s =
     (let (now, s1) = svc_now s
      in emit L \<lparr>ae_Type = ty, ae_HedgeID = hedgeID, ae_Currency = currency, ae_Detail = detail, ae_At = now\<rparr> s1)"

definition emitHedge :: "'d::linordered_idom libs \<Rightarrow> EventType \<Rightarrow> 'd Hedge \<Rightarrow> string \<Rightarrow> 'd Service \<Rightarrow> 'd Service" where
  "emitHedge L ty h detail s = emit_at L ty (h_ID h) (h_Currency h) detail s"

section \<open>Publication\<close>

definition execution_record :: "'d go_fmt \<Rightarrow> 'd Hedge \<Rightarrow> 'd Fill \<Rightarrow> 'd ExecutionRecord" where
  "execution_record F out f =
     \<lparr>er_HedgeID = h_ID out, er_Currency = h_Currency out, er_Venue = fl_Venue f, er_VenueTradeID = fl_VenueTradeID f,
      er_Notional = fl_Amount f, er_FillPrice = fl_Price f, er_QuotedPrice = h_QuotedRate out,
      er_SlippageBPS = h_SlippageBPS out, er_ExecutedAt = RFC3339 F (fl_Timestamp f)\<rparr>"

fun publish_fills :: "'d libs \<Rightarrow> ReconClient \<Rightarrow> 'd Hedge \<Rightarrow> 'd Fill list \<Rightarrow> 'd Service \<Rightarrow> 'd Service" where
  "publish_fills L rc out [] s = s"
| "publish_fills L rc out (f # fs) s =
     (let (err, dl, w) = PublishExecution (lib_fmt L) Background rc (execution_record (lib_fmt L) out f) (sv_DL s) (sv_world s)
      in publish_fills L rc out fs (s\<lparr>sv_DL := dl, sv_world := w\<rparr>))"

definition publishExecutionToRecon :: "'d libs \<Rightarrow> 'd Hedge option \<Rightarrow> 'd Service \<Rightarrow> 'd Service" where
  "publishExecutionToRecon L out s =
     (case (sv_ReconC s, out) of
        (Some rc, Some h) \<Rightarrow> if h_Fills h = [] then s else publish_fills L rc h (h_Fills h) s
      | _ \<Rightarrow> s)"

section \<open>What the helpers leave alone\<close>

text \<open>The books of the service: everything but the audit log, the clients, the dead letters and the world.
  Emitting and publishing never touch them.\<close>

definition same_books :: "'d Service \<Rightarrow> 'd Service \<Rightarrow> bool" where
  "same_books s s' \<longleftrightarrow> sv_Store s' = sv_Store s \<and> sv_Tracker s' = sv_Tracker s \<and> sv_Provider s' = sv_Provider s \<and>
     sv_Policy s' = sv_Policy s \<and> sv_Cache s' = sv_Cache s \<and> sv_ReconC s' = sv_ReconC s"

lemma same_books_refl [simp]: "same_books s s"
  by (simp add: same_books_def)

lemma same_books_trans [trans]: "same_books s s' \<Longrightarrow> same_books s' s'' \<Longrightarrow> same_books s s''"
  by (simp add: same_books_def)

lemma svc_now_books [simp]: "same_books s (snd (svc_now s))"
  by (simp add: svc_now_def same_books_def case_prod_beta)

lemma svc_uuid_books [simp]: "same_books s (snd (svc_uuid s))"
  by (simp add: svc_uuid_def same_books_def case_prod_beta)

lemma emit_books [simp]: "same_books s (emit L e s)"
  by (simp add: emit_def same_books_def Let_def case_prod_beta split: option.splits)

lemma emit_at_books [simp]: "same_books s (emit_at L ty i c d s)"
  by (simp add: emit_at_def case_prod_beta) (metis emit_books same_books_trans svc_now_books)

lemma publish_fills_books [simp]: "same_books s (publish_fills L rc out fs s)"
proof (induction fs arbitrary: s)
  case (Cons f fs)
  obtain err dl w where "PublishExecution (lib_fmt L) Background rc (execution_record (lib_fmt L) out f) (sv_DL s) (sv_world s) = (err, dl, w)"
    by (metis prod_cases3)
  moreover have "same_books s (s\<lparr>sv_DL := dl, sv_world := w\<rparr>)" by (simp add: same_books_def)
  ultimately show ?case using Cons [of "s\<lparr>sv_DL := dl, sv_world := w\<rparr>"] same_books_trans by simp blast
qed simp

lemma publish_books [simp]: "same_books s (publishExecutionToRecon L out s)"
  by (simp add: publishExecutionToRecon_def split: option.splits)

text \<open>The fields of the books after a helper, for the simplifier.\<close>

lemma books_fields:
  assumes "same_books s s'"
  shows "sv_Store s' = sv_Store s" "sv_Tracker s' = sv_Tracker s" "sv_Provider s' = sv_Provider s"
    "sv_Policy s' = sv_Policy s" "sv_Cache s' = sv_Cache s" "sv_ReconC s' = sv_ReconC s"
  using assms by (simp_all add: same_books_def)

lemmas helper_fields [frame_simps, simp] =
  books_fields [OF svc_now_books] books_fields [OF svc_uuid_books] books_fields [OF emit_books]
  books_fields [OF emit_at_books] books_fields [OF publish_books]

lemma emitHedge_fields [frame_simps, simp]:
  "sv_Store (emitHedge L ty h d s) = sv_Store s" "sv_Tracker (emitHedge L ty h d s) = sv_Tracker s"
  "sv_Provider (emitHedge L ty h d s) = sv_Provider s" "sv_Policy (emitHedge L ty h d s) = sv_Policy s"
  "sv_Cache (emitHedge L ty h d s) = sv_Cache s" "sv_ReconC (emitHedge L ty h d s) = sv_ReconC s"
  by (simp_all add: emitHedge_def)

section \<open>Progress of the world\<close>

text \<open>Every step of a handler keeps the oracles and draws UUIDs forward only. The rules are conditional
  rewrites, so that the simplifier carries the fact through a whole handler.\<close>

definition later :: "'d Service \<Rightarrow> 'd Service \<Rightarrow> bool" where
  "later s s' \<longleftrightarrow> world_later (sv_world s) (sv_world s')"

named_theorems later_rules \<open>steps that keep the oracles\<close>

lemma later_refl [simp]: "later s s"
  by (simp add: later_def)

lemma later_trans: "later s s' \<Longrightarrow> later s' s'' \<Longrightarrow> later s s''"
  unfolding later_def by (rule world_later_trans)

lemma later_fields [later_rules]:
  "later s (s'\<lparr>sv_Store := st\<rparr>) = later s s'" "later s (s'\<lparr>sv_Tracker := tr\<rparr>) = later s s'"
  "later s (s'\<lparr>sv_Provider := pv\<rparr>) = later s s'" "later s (s'\<lparr>sv_Policy := pol\<rparr>) = later s s'"
  "later s (s'\<lparr>sv_Cache := ca\<rparr>) = later s s'" "later s (s'\<lparr>sv_DL := dl\<rparr>) = later s s'"
  by (simp_all add: later_def)

lemma later_svc_now [later_rules]: "later s0 s \<Longrightarrow> later s0 (snd (svc_now s))"
  by (simp add: later_def svc_now_def case_prod_beta world_later_actions)

lemma later_svc_uuid [later_rules]: "later s0 s \<Longrightarrow> later s0 (snd (svc_uuid s))"
  by (simp add: later_def svc_uuid_def case_prod_beta world_later_actions)

lemma later_svc_GetExposure [later_rules]: "later s0 s \<Longrightarrow> later s0 (snd (svc_GetExposure c s))"
  by (simp add: svc_GetExposure_def case_prod_beta later_svc_now)

lemma later_emit [later_rules]:
  assumes "later s0 s"
  shows "later s0 (emit L e s)"
proof -
  have sink: "world_later w0 w \<Longrightarrow> world_later w0 (snd (sink_Emit a e w))" for w0 w :: "'a net" and a
    by (erule world_later_trans) (simp add: world_later_def sink_Emit_world)
  show ?thesis
    using assms by (auto simp: emit_def later_def Let_def case_prod_beta AuditClient_Emit_later sink split: option.splits)
qed

lemma later_emit_at [later_rules]: "later s0 s \<Longrightarrow> later s0 (emit_at L ty i c d s)"
  by (simp add: emit_at_def case_prod_beta later_emit later_svc_now)

lemma later_emitHedge [later_rules]: "later s0 s \<Longrightarrow> later s0 (emitHedge L ty h d s)"
  by (simp add: emitHedge_def later_emit_at)

lemma later_publish_fills: "later s0 s \<Longrightarrow> later s0 (publish_fills L rc out fs s)"
  by (induction fs arbitrary: s) (simp_all add: later_def case_prod_beta PublishExecution_def publish_later)

lemma later_publish [later_rules]: "later s0 s \<Longrightarrow> later s0 (publishExecutionToRecon L out s)"
  by (simp add: publishExecutionToRecon_def later_publish_fills split: option.splits)

text \<open>The ids of the stored hedges were drawn from the UUID oracle, so the next one is new when the oracle
  never repeats itself.\<close>

definition issued :: "'d Service \<Rightarrow> bool" where
  "issued s \<longleftrightarrow> inj (w_uuid (sv_world s)) \<and>
     (\<forall>i\<in>fst ` set (st_hedges (sv_Store s)). \<exists>k<w_ids (sv_world s). i = w_uuid (sv_world s) k)"

definition next_id :: "'d Service \<Rightarrow> string" where
  "next_id s = w_uuid (sv_world s) (w_ids (sv_world s))"

lemma next_id_fresh: "issued s \<Longrightarrow> map_of (st_hedges (sv_Store s)) (next_id s) = None"
  unfolding issued_def next_id_def map_of_eq_None_iff by (metis injD less_irrefl)

lemma later_simps:
  "later s s' \<Longrightarrow> w_uuid (sv_world s') = w_uuid (sv_world s)" "later s s' \<Longrightarrow> w_ids (sv_world s) \<le> w_ids (sv_world s')"
  by (simp_all add: later_def world_later_def same_oracles_def)

lemma issued_next:
  assumes "issued s" and "later s s'" and "w_ids (sv_world s) < w_ids (sv_world s')"
    and "fst ` set (st_hedges (sv_Store s')) \<subseteq> insert (next_id s) (fst ` set (st_hedges (sv_Store s)))"
  shows "issued s'"
proof -
  let ?w = "sv_world s" and ?w' = "sv_world s'"
  have u: "w_uuid ?w' = w_uuid ?w" using assms(2) by (rule later_simps)
  have "\<exists>k<w_ids ?w'. i = w_uuid ?w' k" if i: "i \<in> fst ` set (st_hedges (sv_Store s'))" for i
  proof (cases "i = next_id s")
    case True
    then show ?thesis using u assms(3) by (auto simp: next_id_def)
  next
    case False
    with i assms(4) have "i \<in> fst ` set (st_hedges (sv_Store s))" by blast
    with assms(1) obtain k where "k < w_ids ?w" "i = w_uuid ?w k" unfolding issued_def by blast
    with u assms(3) show ?thesis by (intro exI [of _ k]) simp
  qed
  then show ?thesis using assms(1) u by (simp add: issued_def)
qed

lemma issued_later:
  assumes "issued s" and "later s s'"
    and "fst ` set (st_hedges (sv_Store s')) \<subseteq> fst ` set (st_hedges (sv_Store s))"
  shows "issued s'"
proof -
  have u: "w_uuid (sv_world s') = w_uuid (sv_world s)" and n: "w_ids (sv_world s) \<le> w_ids (sv_world s')"
    using later_simps [OF assms(2)] by simp_all
  have "\<exists>k<w_ids (sv_world s'). i = w_uuid (sv_world s') k" if i: "i \<in> fst ` set (st_hedges (sv_Store s'))" for i
  proof -
    from i assms(3) have "i \<in> fst ` set (st_hedges (sv_Store s))" by blast
    with assms(1) obtain k where "k < w_ids (sv_world s)" "i = w_uuid (sv_world s) k" unfolding issued_def by blast
    with u n show ?thesis by (intro exI [of _ k]) simp
  qed
  then show ?thesis using assms(1) u by (simp add: issued_def)
qed

section \<open>A new service\<close>

text \<open>The wiring of \<open>newService\<close> over the in-memory store.\<close>

definition fresh_service :: "getenv \<Rightarrow> parse_float \<Rightarrow> 'd net \<Rightarrow> 'd Service" where
  "fresh_service env pf w =
     (let p = NewDummy env pf; tr = tracker_New; pol = policy_New env pf; rec = NewRecorder;
          svc = NewService store_New tr p (Some pol) (Some (SinkRecorder rec)) w;
          dl = NewMemDeadLetter
      in svc\<lparr>sv_DL := Some dl, sv_AuditC := Some (NewAuditClient env), sv_ReconC := Some (NewReconClient env),
             sv_Cache := Some (cache_New second)\<rparr>)"

lemma fresh_service_fields [simp]:
  "sv_Store (fresh_service env pf w) = store_New" "sv_Tracker (fresh_service env pf w) = tracker_New"
  "sv_Policy (fresh_service env pf w) = Some (policy_New env pf)" "sv_Provider (fresh_service env pf w) = NewDummy env pf"
  "sv_Cache (fresh_service env pf w) = Some (cache_New second)" "sv_world (fresh_service env pf w) = w"
  by (simp_all add: fresh_service_def NewService_def Let_def)

text \<open>How the program starts: it stops with a message, or serves on the in-memory store, or on PostgreSQL with the
  same wiring. \<open>open_db\<close> is the error of \<open>postgres.Open\<close>, if any.\<close>

datatype 'd startup = Fatal string | StartMemory "'d Service" | StartPostgres

definition newService :: "getenv \<Rightarrow> parse_float \<Rightarrow> (string \<Rightarrow> string option) \<Rightarrow> 'd net \<Rightarrow> 'd startup" where
  "newService env pf open_db w =
     (let devMode = (env ''DEV_MODE'' = ''1''); dsn = env ''DB_URL'' in
      case (if dsn \<noteq> [] then (case open_db dsn of Some e \<Rightarrow> Inl (''postgres: open: '' @ e) | None \<Rightarrow> Inr True)
            else if \<not> devMode then Inl ''DB_URL not set and DEV_MODE!=1; refusing to start in production mode''
            else Inr False) of
        Inl msg \<Rightarrow> Fatal msg
      | Inr postgres \<Rightarrow>
          if \<not> devMode \<and> env ''FX_PROVIDER_URL'' = [] then
            Fatal ''FX_PROVIDER_URL required in production mode; real FX provider client not yet implemented; set DEV_MODE=1 for local dev''
          else if postgres then StartPostgres else StartMemory (fresh_service env pf w))"

lemma newService_memory:
  "newService env pf open_db w = StartMemory s \<longleftrightarrow> env ''DEV_MODE'' = ''1'' \<and> env ''DB_URL'' = [] \<and> s = fresh_service env pf w"
  by (auto simp: newService_def Let_def split: option.splits)

definition sample_env :: getenv where
  "sample_env k = (if k = ''DEV_MODE'' then ''1'' else [])"

definition sample_service :: "rat Service" where
  "sample_service = fresh_service sample_env (\<lambda>_. (NaN, True)) (failing_world 503)"

lemma sample_policy_New: "policy_New sample_env (\<lambda>_. (NaN, True)) = sample_policy"
  by (simp add: sample_policy_def policy_New_def env_float_def sample_env_def)

lemma sample_service_fields [simp]:
  "sv_Store sample_service = store_New" "sv_Tracker sample_service = tracker_New" "sv_Policy sample_service = Some sample_policy"
  "sv_Provider sample_service = NewDummy sample_env (\<lambda>_. (NaN, True))" "sv_world sample_service = failing_world 503"
  by (simp_all add: sample_service_def sample_policy_New)

lemma sample_started: "newService sample_env (\<lambda>_. (NaN, True)) open_db (failing_world 503) = StartMemory sample_service"
  by (simp add: newService_memory sample_service_def sample_env_def)

lemma inj_failing_world [simp]: "inj (w_uuid (failing_world code))"
  by (rule injI) (simp add: failing_world_def)

end
