(* ===== verification/Api.thy ===== *)
theory Api
  imports Service
begin

text \<open>
  The REST handlers of \<open>internal/api/handlers.go\<close>. A handler is a function of the state that returns the
  status code and the payload, or \<open>None\<close> when it panics (the HTTP server recovers, and the state
  keeps what was done before). The decoded request body is an argument, \<open>None\<close> if it is not valid
  JSON; the path value and the query parameters are strings.
\<close>

section \<open>Requests and responses\<close>

record 'd addExposureReq =
  ar_Amount :: 'd
  ar_EventID :: string
  ar_Source :: string

record 'd createHedgeReq =
  cr_Currency :: string
  cr_Notional :: 'd
  cr_Tenor :: string
  cr_Type :: string
  cr_ClientRequestID :: string

record 'd pnlResponse =
  pr_From :: time
  pr_To :: time
  pr_ByCurrency :: "'d PnL list"
  pr_Total :: "'d PnL"

record slippageAggregates =
  sa_Pair :: string
  sa_Count :: int
  sa_Mean :: float64
  sa_Max :: float64

record 'd slippageResponse =
  sr_Pair :: string
  sr_From :: time
  sr_To :: time
  sr_Samples :: "'d SlippageSample list"
  sr_Aggregates :: slippageAggregates

datatype 'd payload =
  ErrorBody string
| ExposureBody "'d Exposure option"
| HedgeBody "'d Hedge option"
| PnLBody "'d pnlResponse"
| SlippageBody "'d slippageResponse"
| ObligationsBody "'d SettlementObligation list" int
| HedgesBody "'d Hedge list"
| ExposuresBody "'d Exposure list"
| StatusBody string

type_synonym 'd response = "(int \<times> 'd payload) option"

definition writeError :: "int \<Rightarrow> string \<Rightarrow> 'd response" where
  "writeError status msg = Some (status, ErrorBody msg)"

definition writeJSON :: "int \<Rightarrow> 'd payload \<Rightarrow> 'd response" where
  "writeJSON status v = Some (status, v)"

section \<open>Exposure\<close>

text \<open>The guard against flows that would breach the cap: \<open>None\<close> is a panic of the conversion of the cap,
  \<open>Some True\<close> says the flow is blocked.\<close>

definition cap_guard :: "'d::linordered_idom libs \<Rightarrow> policy \<Rightarrow> string \<Rightarrow> 'd Exposure option \<Rightarrow> 'd \<Rightarrow> bool option" where
  "cap_guard L p currency current amount =
     (case current of None \<Rightarrow> Some False | Some e \<Rightarrow>
        (let openBefore = e_NetAmount e - e_HedgeCoverage e; openAfter = openBefore + amount
         in (case NewFromFloat (lib_dec L) (EffectiveCap p currency) of None \<Rightarrow> None
             | Some capDec \<Rightarrow> Some (capDec < \<bar>openAfter\<bar> \<and> \<bar>openBefore\<bar> < \<bar>openAfter\<bar>))))"

text \<open>What follows the guard.\<close>

definition add_flow ::
  "'d::linordered_idom libs \<Rightarrow> string \<Rightarrow> 'd addExposureReq \<Rightarrow> 'd Service \<Rightarrow> 'd response \<times> 'd Service" where
  "add_flow L currency rq s =
     (let (now, s1) = svc_now s;
          s2 = (if ar_EventID rq \<noteq> [] then
                  s1\<lparr>sv_Tracker := snd (AddEvent now (sv_Tracker s1)
                       \<lparr>ev_EventID = ar_EventID rq, ev_Currency = currency, ev_Amount = ar_Amount rq,
                        ev_Source = ar_Source rq, ev_At = 0\<rparr>)\<rparr>
                else s1\<lparr>sv_Tracker := Tracker.AddExposure now (sv_Tracker s1) currency (ar_Amount rq)\<rparr>);
          s3 = emit_at L EventExposureAdded [] currency ''added exposure'' s2;
          (expo, s4) = svc_GetExposure currency s3
      in (writeJSON 200 (ExposureBody expo), s4))"

definition AddExposure ::
  "'d::linordered_idom libs \<Rightarrow> string \<Rightarrow> 'd addExposureReq option \<Rightarrow> 'd Service \<Rightarrow> 'd response \<times> 'd Service" where
  "AddExposure L path body s =
     (let currency = ToUpper path in
      if currency = [] then (writeError 400 ''currency is required'', s)
      else (case body of None \<Rightarrow> (writeError 400 ''invalid JSON body'', s)
        | Some rq \<Rightarrow>
            if ar_Amount rq = 0 then (writeError 400 ''amount must be non-zero'', s)
            else if ar_EventID rq \<noteq> [] \<and> Seen (sv_Tracker s) (ar_EventID rq) then
              (let (expo, s1) = svc_GetExposure currency s in (writeJSON 200 (ExposureBody expo), s1))
            else
              (case sv_Policy s of None \<Rightarrow> add_flow L currency rq s
               | Some p \<Rightarrow>
                   (let (current, s1) = svc_GetExposure currency s in
                    case cap_guard L p currency current (ar_Amount rq) of
                      None \<Rightarrow> (None, s1)
                    | Some True \<Rightarrow>
                        (writeError 409 ''open exposure cap breached; flow blocked'',
                         emit_at L EventCapBreach [] currency
                           ''blocked exposure-increasing flow that would breach MAX_OPEN_EXPOSURE_USD'' s1)
                    | Some False \<Rightarrow> add_flow L currency rq s1))))"

definition GetExposure :: "string \<Rightarrow> 'd::linordered_idom Service \<Rightarrow> 'd response \<times> 'd Service" where
  "GetExposure path s =
     (let currency = ToUpper path; (expo, s1) = svc_GetExposure currency s in
      case expo of
        None \<Rightarrow> (let (now, s2) = svc_now s1
                 in (writeJSON 200 (ExposureBody (Some \<lparr>e_Currency = currency, e_NetAmount = 0, e_HedgeCoverage = 0,
                                                        e_OpenAmount = 0, e_UpdatedAt = now\<rparr>)), s2))
      | Some e \<Rightarrow> (writeJSON 200 (ExposureBody (Some e)), s1))"

section \<open>Hedges\<close>

definition absFloat :: "float64 \<Rightarrow> float64" where
  "absFloat x = (if f_lt x f_zero then f_neg x else x)"

text \<open>Feeding a rate into the live rate cache, if there is one.\<close>

definition feed_cache :: "string \<Rightarrow> float64 \<Rightarrow> string \<Rightarrow> 'd Service \<Rightarrow> 'd Service" where
  "feed_cache currency rate source s =
     (case sv_Cache s of None \<Rightarrow> s
      | Some c \<Rightarrow> (let (now, s') = svc_now s in s'\<lparr>sv_Cache := Some (cache_Update now c currency rate source)\<rparr>))"

text \<open>One round of the loop of \<open>processFills\<close>, with the slippage, the profit and the executed notional so
  far.\<close>

definition process_fill ::
  "'d::linordered_idom libs \<Rightarrow> 'd Hedge \<Rightarrow> 'd Fill \<Rightarrow> float64 \<times> 'd \<times> 'd \<Rightarrow> 'd Service \<Rightarrow> (float64 \<times> 'd \<times> 'd) \<times> 'd Service" where
  "process_fill L h f acc s =
     (case acc of (slip, pnl, executed) \<Rightarrow>
        if HasFill (sv_Store s) (fl_Venue f) (fl_VenueTradeID f) then (acc, s)
        else
          (let (slip1, pnl1) =
                 (if h_QuotedRate h \<noteq> 0
                  then (InexactFloat64 (lib_dec L)
                          (DivRound (lib_dec L) (fl_Price f - h_QuotedRate h) (h_QuotedRate h) * of_int 10000),
                        pnl + (h_QuotedRate h - fl_Price f) * fl_Amount f)
                  else (slip, pnl));
               s1 = s\<lparr>sv_Store := AddSlippageSample (sv_Store s)
                       \<lparr>ss_Pair = h_Currency h @ ''USD'', ss_QuotedRate = h_QuotedRate h, ss_ExecutedRate = fl_Price f,
                        ss_SlippageBPS = slip1, ss_Timestamp = fl_Timestamp f\<rparr>\<rparr>;
               s2 = (case sv_Policy s1 of None \<Rightarrow> s1
                     | Some p \<Rightarrow>
                         if f_lt f_zero (SlippageAlertBPS p) \<and> f_lt (SlippageAlertBPS p) (absFloat slip1)
                         then emit_at L EventSlippageAlert (h_ID h) (h_Currency h) ''slippage exceeded SLIPPAGE_ALERT_BPS'' s1
                         else s1);
               s3 = feed_cache (h_Currency h) (InexactFloat64 (lib_dec L) (fl_Price f)) ''fill'' s2
           in ((slip1, pnl1, executed + fl_Amount f), s3)))"

fun process_fills_loop ::
  "'d::linordered_idom libs \<Rightarrow> 'd Hedge \<Rightarrow> 'd Fill list \<Rightarrow> float64 \<times> 'd \<times> 'd \<Rightarrow> 'd Service \<Rightarrow> (float64 \<times> 'd \<times> 'd) \<times> 'd Service" where
  "process_fills_loop L h [] acc s = (acc, s)"
| "process_fills_loop L h (f # fs) acc s =
     (let (acc1, s1) = process_fill L h f acc s in process_fills_loop L h fs acc1 s1)"

definition processFills ::
  "'d::linordered_idom libs \<Rightarrow> 'd Hedge \<Rightarrow> 'd Fill list \<Rightarrow> 'd Service \<Rightarrow> (float64 \<times> 'd \<times> 'd) \<times> 'd Service" where
  "processFills L h fills s = process_fills_loop L h fills (f_zero, 0, 0) s"

text \<open>The hedge a valid request starts from.\<close>

definition new_hedge :: "string \<Rightarrow> string \<Rightarrow> 'd::zero createHedgeReq \<Rightarrow> time \<Rightarrow> 'd Hedge" where
  "new_hedge i currency rq now =
     \<lparr>h_ID = i, h_Currency = currency, h_Notional = cr_Notional rq, h_Tenor = cr_Tenor rq, h_Type = cr_Type rq,
      h_Status = StatusPending, h_QuotedRate = 0, h_Fills = [], h_SlippageBPS = f_zero, h_PnL = 0,
      h_ClientRequestID = cr_ClientRequestID rq, h_PolicyRatio = f_zero, h_PolicyCapUSD = 0, h_CapBreached = False,
      h_ValueDate = 0, h_Venue = [], h_CreatedAt = now, h_UpdatedAt = now\<rparr>"

text \<open>The policy context of the hedge, \<open>None\<close> on a panic of a conversion.\<close>

definition policy_context ::
  "'d::linordered_idom libs \<Rightarrow> string \<Rightarrow> 'd Hedge \<Rightarrow> 'd Service \<Rightarrow> 'd Hedge option \<times> 'd Service" where
  "policy_context L currency h s =
     (case sv_Policy s of None \<Rightarrow> (Some h, s)
      | Some p \<Rightarrow>
          (case NewFromFloat (lib_dec L) (EffectiveCap p currency) of None \<Rightarrow> (None, s)
           | Some cap \<Rightarrow>
               (let (expo, s1) = svc_GetExposure currency s in
                case Decide (lib_dec L) p currency expo of None \<Rightarrow> (None, s1)
                | Some dec \<Rightarrow>
                    (let h1 = h\<lparr>h_PolicyRatio := EffectiveRatio p currency, h_PolicyCapUSD := cap,
                                h_CapBreached := hd_BlockedByCap dec\<rparr>
                     in (Some h1, if h_CapBreached h1
                                  then emit_at L EventCapBreach (h_ID h) currency
                                         ''hedge created while open exposure exceeds cap'' s1
                                  else s1)))))"

text \<open>What follows a successful execution.\<close>

definition finish_hedge ::
  "'d::linordered_idom libs \<Rightarrow> string \<Rightarrow> 'd createHedgeReq \<Rightarrow> 'd Hedge \<Rightarrow> 'd Fill list \<Rightarrow> 'd Service \<Rightarrow> 'd response \<times> 'd Service" where
  "finish_hedge L currency rq h fills s =
     (let ((slip, pnl, executedNotional), s1) = processFills L h fills s;
          (now, s2) = svc_now s1;
          s3 = s2\<lparr>sv_Store := snd (UpdateHedge (sv_Store s2) (h_ID h) (\<lambda>stored.
                  (stored\<lparr>h_Status := StatusExecuted, h_Fills := fills, h_SlippageBPS := slip, h_PnL := pnl,
                          h_UpdatedAt := now\<rparr>, None)))\<rparr>
      in (case NewFromFloat (lib_dec L) slip of None \<Rightarrow> (None, s3)
          | Some slipDec \<Rightarrow>
              (let slippageCost = DivRound (lib_dec L) (slipDec * cr_Notional rq) (of_int 10000);
                   s4 = s3\<lparr>sv_Store := AddPnL (sv_Store s3)
                          \<lparr>pl_Currency = currency, pl_Realized = pnl, pl_Unrealized = 0, pl_Total = 0,
                           pl_Components = \<lparr>pc_HedgePnL = pnl, pc_SpotPnL = 0, pc_SlippageCost = slippageCost\<rparr>\<rparr>\<rparr>;
                   s5 = emit_at L EventPnLEntry (h_ID h) currency ''pnl entry recorded'' s4;
                   (now', s6) = svc_now s5;
                   s7 = s6\<lparr>sv_Tracker := AddCoverage now' (sv_Tracker s6) currency executedNotional\<rparr>
               in (case Store.GetHedge (sv_Store s7) (h_ID h) of None \<Rightarrow> (None, s7)
                   | Some out \<Rightarrow>
                       (let s8 = emitHedge L EventHedgeExecuted out ''hedge executed'' s7;
                            s9 = publishExecutionToRecon L (Some out) s8
                        in (writeJSON 201 (HedgeBody (Some out)), s9))))))"

fun provider_error_text :: "provider_error \<Rightarrow> string" where
  "provider_error_text ErrQuoteFailed = ''fx quote failed''"
| "provider_error_text ErrExecuteFailed = ''fx execute failed''"

text \<open>Executing a hedge that was stored.\<close>

definition execute_hedge ::
  "'d::linordered_idom libs \<Rightarrow> string \<Rightarrow> 'd createHedgeReq \<Rightarrow> 'd Hedge \<Rightarrow> 'd Service \<Rightarrow> 'd response \<times> 'd Service" where
  "execute_hedge L currency rq h s =
     (let (r, prov, w) = provider_Execute (lib_dec L) (sv_Provider s) h (sv_world s);
          s1 = s\<lparr>sv_Provider := prov, sv_world := w\<rparr>
      in (case r of None \<Rightarrow> (None, s1)
          | Some (Inl e) \<Rightarrow>
              (let (now, s2) = svc_now s1;
                   s3 = s2\<lparr>sv_Store := snd (UpdateHedge (sv_Store s2) (h_ID h)
                           (\<lambda>stored. (stored\<lparr>h_Status := StatusFailed, h_UpdatedAt := now\<rparr>, None)))\<rparr>;
                   s4 = emitHedge L EventHedgeFailed h (''execute failed: '' @ provider_error_text e) s3
               in (writeJSON 502 (HedgeBody (Store.GetHedge (sv_Store s4) (h_ID h))), s4))
          | Some (Inr fills) \<Rightarrow> finish_hedge L currency rq h fills s1))"

text \<open>Quoting, storing and executing a hedge whose policy context is set.\<close>

definition place_hedge ::
  "'d::linordered_idom libs \<Rightarrow> string \<Rightarrow> 'd createHedgeReq \<Rightarrow> 'd Hedge \<Rightarrow> 'd Service \<Rightarrow> 'd response \<times> 'd Service" where
  "place_hedge L currency rq h s =
     (case provider_Quote (sv_Provider s) currency (InexactFloat64 (lib_dec L) (cr_Notional rq)) (cr_Tenor rq) of
        Inl e \<Rightarrow>
          (let (now, s1) = svc_now s;
               h1 = h\<lparr>h_Status := StatusFailed, h_UpdatedAt := now\<rparr>;
               s2 = s1\<lparr>sv_Store := Store.CreateHedge (sv_Store s1) h1\<rparr>
           in (writeJSON 502 (HedgeBody (Some h1)), emitHedge L EventHedgeFailed h1 (''quote failed: '' @ provider_error_text e) s2))
      | Inr rate \<Rightarrow>
          (case NewFromFloat (lib_dec L) rate of None \<Rightarrow> (None, s)
           | Some quotedRate \<Rightarrow>
               (let s1 = feed_cache currency rate ''quote'' s;
                    (now, s2) = svc_now s1;
                    h1 = h\<lparr>h_QuotedRate := quotedRate, h_Status := StatusExecuting, h_UpdatedAt := now\<rparr>;
                    s3 = s2\<lparr>sv_Store := Store.CreateHedge (sv_Store s2) h1\<rparr>;
                    s4 = emitHedge L EventHedgeCreated h1 ''hedge created'' s3
                in execute_hedge L currency rq h1 s4)))"

text \<open>Creating the hedge of a valid request that is not a duplicate.\<close>

definition start_hedge ::
  "'d::linordered_idom libs \<Rightarrow> string \<Rightarrow> 'd createHedgeReq \<Rightarrow> 'd Service \<Rightarrow> 'd response \<times> 'd Service" where
  "start_hedge L currency rq s =
     (let (now, s1) = svc_now s; (i, s2) = svc_uuid s1;
          (ctx, s3) = policy_context L currency (new_hedge i currency rq now) s2
      in (case ctx of None \<Rightarrow> (None, s3) | Some h \<Rightarrow> place_hedge L currency rq h s3))"

definition CreateHedge ::
  "'d::linordered_idom libs \<Rightarrow> 'd createHedgeReq option \<Rightarrow> 'd Service \<Rightarrow> 'd response \<times> 'd Service" where
  "CreateHedge L body s =
     (case body of None \<Rightarrow> (writeError 400 ''invalid JSON body'', s)
      | Some rq \<Rightarrow>
          (let currency = ToUpper (cr_Currency rq) in
           if currency = [] then (writeError 400 ''currency is required'', s)
           else if cr_Notional rq \<le> 0 then (writeError 400 ''notional must be positive'', s)
           else if \<not> IsValidTenor (cr_Tenor rq) then (writeError 400 ''invalid tenor (spot or forward)'', s)
           else if \<not> IsValidHedgeType (cr_Type rq) then (writeError 400 ''invalid type (spot or forward)'', s)
           else if cr_ClientRequestID rq \<noteq> [] then
             (case GetHedgeByClientRequest (sv_Store s) (cr_ClientRequestID rq) of
                None \<Rightarrow> (None, s)
              | Some (Some existing) \<Rightarrow> (writeJSON 200 (HedgeBody (Some existing)), s)
              | Some None \<Rightarrow> start_hedge L currency rq s)
           else start_hedge L currency rq s))"

definition GetHedge :: "string \<Rightarrow> 'd Service \<Rightarrow> 'd response \<times> 'd Service" where
  "GetHedge i s =
     (case Store.GetHedge (sv_Store s) i of
        None \<Rightarrow> (writeError 404 ''hedge not found'', s)
      | Some h \<Rightarrow> (writeJSON 200 (HedgeBody (Some h)), s))"

end
