(* ===== verification/ApiFacts.thy ===== *)
theory ApiFacts
  imports Api
begin

text \<open>
  What the handlers of \<open>Api\<close> that change the books do to them.
\<close>

section \<open>Flows\<close>

lemma svc_GetExposure_eq:
  "fst (svc_GetExposure c s) = Tracker.GetExposure (fst (svc_now s)) (sv_Tracker s) c"
  "snd (svc_GetExposure c s) = snd (svc_now s)"
  by (simp_all add: svc_GetExposure_def case_prod_beta)

text \<open>The tracker after an accepted flow.\<close>

definition flow_tracker :: "time \<Rightarrow> string \<Rightarrow> 'd::linordered_idom addExposureReq \<Rightarrow> 'd tracker \<Rightarrow> 'd tracker" where
  "flow_tracker now c rq t =
     (if ar_EventID rq \<noteq> [] then snd (AddEvent now t \<lparr>ev_EventID = ar_EventID rq, ev_Currency = c, ev_Amount = ar_Amount rq,
                                                  ev_Source = ar_Source rq, ev_At = 0\<rparr>)
      else Tracker.AddExposure now t c (ar_Amount rq))"

lemma flow_tracker_cov [simp]: "tr_coverage (flow_tracker now c rq t) = tr_coverage t"
  by (simp add: flow_tracker_def AddEvent_fields)

lemma flow_tracker_net:
  assumes "\<not> (ar_EventID rq \<noteq> [] \<and> Seen t (ar_EventID rq))"
  shows "tr_net (flow_tracker now c rq t) = (tr_net t)(c \<mapsto> net_of t c + ar_Amount rq)"
    and "tr_seen (flow_tracker now c rq t) = (if ar_EventID rq = [] then tr_seen t else insert (ar_EventID rq) (tr_seen t))"
  using assms by (auto simp: flow_tracker_def AddEvent_def Seen_def)

lemma add_flow_books:
  assumes "add_flow L c rq s = (r, s')"
  shows "\<exists>now expo. sv_Tracker s' = flow_tracker now c rq (sv_Tracker s) \<and> sv_Store s' = sv_Store s \<and> sv_Provider s' = sv_Provider s \<and>
    sv_Policy s' = sv_Policy s \<and> sv_Cache s' = sv_Cache s \<and> r = Some (200, ExposureBody expo)"
  using assms
  by (auto simp: add_flow_def Let_def case_prod_beta svc_GetExposure_eq flow_tracker_def writeJSON_def)

section \<open>Fills\<close>

lemma feed_cache_fields [frame_simps, simp]:
  "sv_Store (feed_cache c x src s) = sv_Store s" "sv_Tracker (feed_cache c x src s) = sv_Tracker s"
  "sv_Provider (feed_cache c x src s) = sv_Provider s" "sv_Policy (feed_cache c x src s) = sv_Policy s"
  by (simp_all add: feed_cache_def case_prod_beta split: option.splits)

lemma process_fill_new:
  assumes "\<not> HasFill (sv_Store s) (fl_Venue f) (fl_VenueTradeID f)"
    and "process_fill L h f (slip, pnl, ex) s = ((slip', pnl', ex'), s')"
  shows "ex' = ex + fl_Amount f \<and>
    pnl' = (if h_QuotedRate h \<noteq> 0 then pnl + (h_QuotedRate h - fl_Price f) * fl_Amount f else pnl) \<and>
    (\<exists>sm. sv_Store s' = AddSlippageSample (sv_Store s) sm) \<and>
    sv_Tracker s' = sv_Tracker s \<and> sv_Provider s' = sv_Provider s \<and> sv_Policy s' = sv_Policy s"
  using assms
  by (auto simp: process_fill_def Let_def case_prod_beta split: option.splits if_splits)

lemma HasFill_no_venue [simp]: "\<not> HasFill st [] i"
  by (simp add: HasFill_def)

lemma processFills_one:
  assumes "fl_Venue f = []" and "processFills L h [f] s = ((slip, pnl, ex), s')"
  shows "ex = fl_Amount f \<and> pnl = (if h_QuotedRate h \<noteq> 0 then (h_QuotedRate h - fl_Price f) * fl_Amount f else 0) \<and>
    (\<exists>sm. sv_Store s' = AddSlippageSample (sv_Store s) sm) \<and>
    sv_Tracker s' = sv_Tracker s \<and> sv_Provider s' = sv_Provider s \<and> sv_Policy s' = sv_Policy s"
proof -
  have "process_fill L h f (f_zero, 0, 0) s = ((slip, pnl, ex), s')"
    using assms(2) by (simp add: processFills_def case_prod_beta)
  from process_fill_new [OF _ this] assms(1) show ?thesis by auto
qed

section \<open>Hedges\<close>

lemma policy_context_books:
  assumes "policy_context L c h s = (r, s')"
  shows "same_books s s' \<and> (\<forall>h'. r = Some h' \<longrightarrow> h_ID h' = h_ID h \<and> h_Currency h' = h_Currency h \<and>
    h_Notional h' = h_Notional h \<and> h_Tenor h' = h_Tenor h \<and> h_Type h' = h_Type h \<and>
    h_ClientRequestID h' = h_ClientRequestID h \<and> h_Fills h' = h_Fills h \<and> h_Status h' = h_Status h)"
  using assms
  by (auto simp: policy_context_def Let_def case_prod_beta svc_GetExposure_eq same_books_def split: option.splits if_splits)

text \<open>How a hedge is changed when it was executed, and the store after it.\<close>

definition executed_hedge :: "'d Fill list \<Rightarrow> float64 \<Rightarrow> 'd \<Rightarrow> time \<Rightarrow> 'd Hedge \<Rightarrow> 'd Hedge" where
  "executed_hedge fills slip pnl now h =
     h\<lparr>h_Status := StatusExecuted, h_Fills := fills, h_SlippageBPS := slip, h_PnL := pnl, h_UpdatedAt := now\<rparr>"

definition executed_store :: "string \<Rightarrow> 'd SlippageSample \<Rightarrow> 'd Fill list \<Rightarrow> float64 \<Rightarrow> 'd \<Rightarrow> time \<Rightarrow> 'd memstore \<Rightarrow> 'd memstore" where
  "executed_store i sm fills slip pnl now st =
     snd (UpdateHedge (AddSlippageSample st sm) i (\<lambda>h. (executed_hedge fills slip pnl now h, None)))"

lemma sample_hedges [simp]:
  "st_hedges (AddSlippageSample st sm) = st_hedges st" "st_hedges (AddPnL st row) = st_hedges st"
  by (simp_all add: AddSlippageSample_def AddPnL_def)

lemma executed_store_get:
  "map_of (st_hedges st) i = Some h \<Longrightarrow>
   map_of (st_hedges (executed_store i sm fills slip pnl now st)) i = Some (executed_hedge fills slip pnl now h)"
  by (simp add: executed_store_def UpdateHedge_def Let_def)

text \<open>The books after an execution with one fill: the hedge is marked executed, and either the conversion of
  the slippage panics or the profit is recorded and the coverage grows by the fill.\<close>

definition execution_done :: "'d::linordered_idom Hedge \<Rightarrow> 'd Fill \<Rightarrow> 'd memstore \<Rightarrow> 'd tracker \<Rightarrow> 'd response \<Rightarrow> 'd Service \<Rightarrow> bool" where
  "execution_done h f st tr r s' \<longleftrightarrow>
     (\<exists>slip now sm pnl. pnl = (if h_QuotedRate h \<noteq> 0 then (h_QuotedRate h - fl_Price f) * fl_Amount f else 0) \<and>
       (r = None \<and> sv_Tracker s' = tr \<and> sv_Store s' = executed_store (h_ID h) sm [f] slip pnl now st \<or>
        (\<exists>row now'. r = Some (201, HedgeBody (Some (executed_hedge [f] slip pnl now h))) \<and>
           sv_Tracker s' = AddCoverage now' tr (h_Currency h) (fl_Amount f) \<and>
           sv_Store s' = AddPnL (executed_store (h_ID h) sm [f] slip pnl now st) row \<and>
           pl_Realized row = pnl \<and> pl_Currency row = h_Currency h)))"

lemma finish_hedge_books:
  assumes "finish_hedge L (h_Currency h) rq h [f] s = (r, s')" and "fl_Venue f = []"
    and "map_of (st_hedges (sv_Store s)) (h_ID h) = Some h"
  shows "sv_Provider s' = sv_Provider s \<and> sv_Policy s' = sv_Policy s \<and>
    execution_done h f (sv_Store s) (sv_Tracker s) r s'"
proof -
  obtain slip pnl ex s1 where pf: "processFills L h [f] s = ((slip, pnl, ex), s1)" by (metis prod_cases3 surj_pair)
  from processFills_one [OF assms(2) pf] obtain sm where
    ex: "ex = fl_Amount f" and pnl: "pnl = (if h_QuotedRate h \<noteq> 0 then (h_QuotedRate h - fl_Price f) * fl_Amount f else 0)"
    and s1: "sv_Store s1 = AddSlippageSample (sv_Store s) sm" "sv_Tracker s1 = sv_Tracker s"
      "sv_Provider s1 = sv_Provider s" "sv_Policy s1 = sv_Policy s" by auto
  let ?now = "fst (svc_now s1)"
  let ?st = "executed_store (h_ID h) sm [f] slip pnl ?now (sv_Store s)"
  have st: "snd (UpdateHedge (AddSlippageSample (sv_Store s) sm) (h_ID h)
      (\<lambda>stored. (stored\<lparr>h_Status := StatusExecuted, h_Fills := [f], h_SlippageBPS := slip, h_PnL := pnl, h_UpdatedAt := ?now\<rparr>, None))) = ?st"
    by (simp add: executed_store_def executed_hedge_def)
  have get: "map_of (st_hedges ?st) (h_ID h) = Some (executed_hedge [f] slip pnl ?now h)"
    by (rule executed_store_get [OF assms(3)])
  show ?thesis
  proof (cases "NewFromFloat (lib_dec L) slip")
    case None
    with assms(1) pf s1 st have "r = None" "sv_Store s' = ?st" "sv_Tracker s' = sv_Tracker s"
      "sv_Provider s' = sv_Provider s" "sv_Policy s' = sv_Policy s"
      by (auto simp: finish_hedge_def Let_def case_prod_beta)
    with None pnl show ?thesis
      unfolding execution_done_def by (intro conjI exI [of _ slip] exI [of _ ?now] exI [of _ sm] exI [of _ pnl]) simp_all
  next
    case (Some d)
    obtain row now' where "r = Some (201, HedgeBody (Some (executed_hedge [f] slip pnl ?now h)))"
      "sv_Store s' = AddPnL ?st row" "pl_Realized row = pnl" "pl_Currency row = h_Currency h"
      "sv_Tracker s' = AddCoverage now' (sv_Tracker s) (h_Currency h) (fl_Amount f)"
      "sv_Provider s' = sv_Provider s" "sv_Policy s' = sv_Policy s"
      using assms(1) pf s1 st get Some ex by (auto simp: finish_hedge_def Let_def case_prod_beta writeJSON_def)
    with pnl show ?thesis
      unfolding execution_done_def
      by (intro conjI exI [of _ slip] exI [of _ ?now] exI [of _ sm] exI [of _ pnl] disjI2 exI [of _ row] exI [of _ now']) simp_all
  qed
qed

text \<open>What a hedge started by a request has of it.\<close>

definition started :: "'d createHedgeReq \<Rightarrow> string \<Rightarrow> 'd Service \<Rightarrow> HedgeStatus \<Rightarrow> 'd Hedge \<Rightarrow> bool" where
  "started rq c s status h \<longleftrightarrow> h_ID h = next_id s \<and> h_Currency h = c \<and> h_Notional h = cr_Notional rq \<and>
     h_Tenor h = cr_Tenor rq \<and> h_Type h = cr_Type rq \<and> h_ClientRequestID h = cr_ClientRequestID rq \<and> h_Status h = status"

text \<open>The outcomes of creating a hedge: a panic before anything was stored, a failed quote, a panic during the
  execution, a panic after it, and success.\<close>

definition hedge_outcome :: "'d::linordered_idom createHedgeReq \<Rightarrow> string \<Rightarrow> 'd Service \<Rightarrow> 'd response \<Rightarrow> 'd Service \<Rightarrow> bool" where
  "hedge_outcome rq c s r s' \<longleftrightarrow>
     r = None \<and> sv_Store s' = sv_Store s \<and> sv_Tracker s' = sv_Tracker s \<or>
     (\<exists>h. started rq c s StatusFailed h \<and> r = Some (502, HedgeBody (Some h)) \<and>
        sv_Store s' = Store.CreateHedge (sv_Store s) h \<and> sv_Tracker s' = sv_Tracker s) \<or>
     (\<exists>h. started rq c s StatusExecuting h \<and> r = None \<and>
        sv_Store s' = Store.CreateHedge (sv_Store s) h \<and> sv_Tracker s' = sv_Tracker s) \<or>
     (\<exists>h f. started rq c s StatusExecuting h \<and> fl_Amount f = cr_Notional rq \<and> fl_HedgeID f = h_ID h \<and>
        execution_done h f (Store.CreateHedge (sv_Store s) h) (sv_Tracker s) r s')"

lemma execute_hedge_books:
  assumes "execute_hedge L c rq h s = (r, s')" and "started rq c s0 StatusExecuting h" and "\<not> pv_FailExecute (sv_Provider s)"
    and "sv_Store s = Store.CreateHedge (sv_Store s0) h" and "sv_Tracker s = sv_Tracker s0"
  shows "sv_Policy s' = sv_Policy s \<and> hedge_outcome rq c s0 r s'"
proof -
  obtain x prov w where ex: "provider_Execute (lib_dec L) (sv_Provider s) h (sv_world s) = (x, prov, w)" by (metis prod_cases3)
  let ?s = "s\<lparr>sv_Provider := prov, sv_world := w\<rparr>"
  show ?thesis
  proof (cases x)
    case None
    with assms ex show ?thesis by (auto simp: execute_hedge_def hedge_outcome_def)
  next
    case (Some out)
    show ?thesis
    proof (cases out)
      case (Inl e)
      with provider_Execute_error ex Some assms(3) show ?thesis by fastforce
    next
      case (Inr fills)
      from provider_Execute_fill [OF ex [unfolded Some Inr]] obtain f where
        f: "fills = [f]" "fl_HedgeID f = h_ID h" "fl_Venue f = []" "fl_Amount f = h_Notional h" by metis
      have "map_of (st_hedges (sv_Store ?s)) (h_ID h) = Some h" by (simp add: assms(4) Store.CreateHedge_def)
      moreover have "h_Currency h = c" using assms(2) by (simp add: started_def)
      with assms(1) ex Some Inr f(1) have "finish_hedge L (h_Currency h) rq h [f] ?s = (r, s')"
        by (simp add: execute_hedge_def)
      ultimately have "sv_Policy s' = sv_Policy s" "execution_done h f (sv_Store s) (sv_Tracker s) r s'"
        using finish_hedge_books [of L h rq f ?s r s'] f(3) by simp_all
      moreover have "fl_Amount f = cr_Notional rq" using f(4) assms(2) by (simp add: started_def)
      ultimately show ?thesis
        unfolding hedge_outcome_def using assms(2,4,5) f(2) by auto
    qed
  qed
qed

lemma place_hedge_books:
  assumes "place_hedge L c rq h s = (r, s')" and "started rq c s0 StatusPending h"
    and "sv_Store s = sv_Store s0" and "sv_Tracker s = sv_Tracker s0"
  shows "sv_Policy s' = sv_Policy s \<and> hedge_outcome rq c s0 r s'"
proof (cases "pv_FailExecute (sv_Provider s)")
  case True
  then show ?thesis
    using assms by (auto simp: place_hedge_def provider_Quote_def Let_def case_prod_beta hedge_outcome_def started_def writeJSON_def)
next
  case False
  show ?thesis
  proof (cases "NewFromFloat (lib_dec L) (pv_Rate (sv_Provider s))")
    case None
    with False assms show ?thesis
      by (simp add: place_hedge_def provider_Quote_def hedge_outcome_def)
  next
    case (Some q)
    define s2 where "s2 = svc_now (feed_cache c (pv_Rate (sv_Provider s)) ''quote'' s)"
    define h1 where "h1 = h\<lparr>h_QuotedRate := q, h_Status := StatusExecuting, h_UpdatedAt := fst s2\<rparr>"
    define s4 where "s4 = emitHedge L EventHedgeCreated h1 ''hedge created''
        ((snd s2)\<lparr>sv_Store := Store.CreateHedge (sv_Store (snd s2)) h1\<rparr>)"
    have run: "execute_hedge L c rq h1 s4 = (r, s')"
      using assms(1) False Some
      by (simp add: place_hedge_def provider_Quote_def Let_def case_prod_beta s2_def h1_def s4_def)
    have "sv_Store s4 = Store.CreateHedge (sv_Store s0) h1" "sv_Tracker s4 = sv_Tracker s0"
      "sv_Policy s4 = sv_Policy s" "sv_Provider s4 = sv_Provider s"
      by (simp_all add: s4_def s2_def assms(3,4))
    moreover have "started rq c s0 StatusExecuting h1"
      using assms(2) by (simp add: started_def h1_def)
    ultimately show ?thesis using execute_hedge_books [OF run] False by simp
  qed
qed

lemma next_id_now: "fst (svc_uuid (snd (svc_now s))) = next_id s"
  by (simp add: svc_uuid_def svc_now_def next_id_def case_prod_beta)

lemma start_hedge_books:
  assumes "start_hedge L c rq s = (r, s')"
  shows "sv_Policy s' = sv_Policy s \<and> hedge_outcome rq c s r s'"
proof -
  let ?h = "new_hedge (next_id s) c rq (fst (svc_now s))" and ?s2 = "snd (svc_uuid (snd (svc_now s)))"
  obtain ctx s3 where ctx: "policy_context L c ?h ?s2 = (ctx, s3)" by fastforce
  have b: "sv_Store s3 = sv_Store s" "sv_Tracker s3 = sv_Tracker s" "sv_Policy s3 = sv_Policy s"
    and h: "ctx = Some h \<Longrightarrow> started rq c s StatusPending h" for h
    using policy_context_books [OF ctx] by (auto simp: same_books_def started_def new_hedge_def)
  have run: "(r, s') = (case ctx of None \<Rightarrow> (None, s3) | Some h \<Rightarrow> place_hedge L c rq h s3)"
    using assms ctx by (cases ctx) (simp_all add: start_hedge_def case_prod_beta next_id_now)
  show ?thesis
  proof (cases ctx)
    case None
    with run b show ?thesis by (simp add: hedge_outcome_def)
  next
    case (Some h1)
    with run have "place_hedge L c rq h1 s3 = (r, s')" by simp
    from place_hedge_books [OF this h [OF Some] b(1,2)] b(3) show ?thesis by simp
  qed
qed

section \<open>Progress of the world\<close>

lemma later_feed_cache [later_rules]: "later s0 s \<Longrightarrow> later s0 (feed_cache c x src s)"
  by (simp add: feed_cache_def case_prod_beta later_rules split: option.splits)

lemma later_process_fill: "later s0 s \<Longrightarrow> later s0 (snd (process_fill L h f acc s))"
  by (auto simp: process_fill_def Let_def case_prod_beta later_rules split: option.splits)

lemma later_processFills [later_rules]: "later s0 s \<Longrightarrow> later s0 (snd (processFills L h fs s))"
proof -
  have "later s0 s \<Longrightarrow> later s0 (snd (process_fills_loop L h fs acc s))" for acc
    by (induction fs arbitrary: acc s) (simp_all add: case_prod_beta later_process_fill)
  then show "later s0 s \<Longrightarrow> ?thesis" by (simp add: processFills_def)
qed

lemma later_finish_hedge: "later s0 s \<Longrightarrow> later s0 (snd (finish_hedge L c rq h fs s))"
  by (auto simp: finish_hedge_def Let_def case_prod_beta later_rules split: option.splits)

lemma later_provider:
  assumes "later s0 s" and "provider_Execute D pv h (sv_world s) = (r, pv', w)"
  shows "later s0 (s\<lparr>sv_Provider := pv', sv_world := w\<rparr>)"
proof -
  have "world_later (sv_world s) w"
    using assms(2) by (auto simp: provider_Execute_def Let_def case_prod_beta world_later_actions split: if_splits option.splits)
  with assms(1) show ?thesis by (auto simp: later_def intro: world_later_trans)
qed

lemma later_execute_hedge:
  assumes "later s0 s"
  shows "later s0 (snd (execute_hedge L c rq h s))"
proof -
  obtain r pv w where ex: "provider_Execute (lib_dec L) (sv_Provider s) h (sv_world s) = (r, pv, w)" by (metis prod_cases3)
  from later_provider [OF assms ex] show ?thesis
    by (auto simp: execute_hedge_def ex Let_def case_prod_beta later_rules later_finish_hedge split: option.splits sum.splits)
qed

lemma later_place_hedge: "later s0 s \<Longrightarrow> later s0 (snd (place_hedge L c rq h s))"
  by (auto simp: place_hedge_def Let_def case_prod_beta later_rules later_execute_hedge split: option.splits sum.splits)

lemma later_policy_context [later_rules]: "later s0 s \<Longrightarrow> later s0 (snd (policy_context L c h s))"
  by (auto simp: policy_context_def Let_def case_prod_beta later_rules split: option.splits)

lemma start_hedge_later:
  assumes "start_hedge L c rq s = (r, s')"
  shows "later s s' \<and> w_ids (sv_world s) < w_ids (sv_world s')"
proof -
  let ?s2 = "snd (svc_uuid (snd (svc_now s)))"
  have "w_ids (sv_world ?s2) = Suc (w_ids (sv_world s))"
    by (simp add: svc_uuid_def svc_now_def case_prod_beta)
  moreover have "later ?s2 (snd (start_hedge L c rq s))"
    by (auto simp: start_hedge_def case_prod_beta later_rules later_place_hedge split: option.splits)
  then have "later ?s2 s'" using assms by simp
  then have "w_ids (sv_world ?s2) \<le> w_ids (sv_world s')" by (rule later_simps)
  moreover have "later s s'"
    by (rule later_trans [OF _ \<open>later ?s2 s'\<close>]) (simp add: later_rules)
  ultimately show ?thesis by simp
qed

lemma later_add_flow: "later s0 s \<Longrightarrow> later s0 (snd (add_flow L c rq s))"
  by (simp add: add_flow_def Let_def case_prod_beta later_rules)

lemma AddExposure_later: "later s0 s \<Longrightarrow> later s0 (snd (AddExposure L path body s))"
  by (auto simp: AddExposure_def Let_def case_prod_beta later_rules later_add_flow split: option.splits bool.splits)

section \<open>The outcome of adding exposure\<close>

definition flow_outcome :: "'d::linordered_idom libs \<Rightarrow> string \<Rightarrow> 'd addExposureReq option \<Rightarrow> 'd Service \<Rightarrow> 'd response \<Rightarrow> 'd Service \<Rightarrow> bool" where
  "flow_outcome L path body s r s' \<longleftrightarrow>
     sv_Store s' = sv_Store s \<and> sv_Policy s' = sv_Policy s \<and> sv_Provider s' = sv_Provider s \<and> sv_Cache s' = sv_Cache s \<and>
     (sv_Tracker s' = sv_Tracker s \<or>
      (\<exists>rq now expo. body = Some rq \<and> r = Some (200, ExposureBody expo) \<and> ToUpper path \<noteq> [] \<and>
         \<not> (ar_EventID rq \<noteq> [] \<and> Seen (sv_Tracker s) (ar_EventID rq)) \<and>
         sv_Tracker s' = flow_tracker now (ToUpper path) rq (sv_Tracker s) \<and>
         (\<forall>p. sv_Policy s = Some p \<longrightarrow>
            (\<exists>t. cap_guard L p (ToUpper path) (Tracker.GetExposure t (sv_Tracker s) (ToUpper path)) (ar_Amount rq) = Some False))))"

lemma AddExposure_outcome:
  assumes "AddExposure L path body s = (r, s')"
  shows "flow_outcome L path body s r s'"
proof (cases "ToUpper path = [] \<or> body = None \<or> (\<exists>rq. body = Some rq \<and> (ar_Amount rq = 0 \<or> ar_EventID rq \<noteq> [] \<and> Seen (sv_Tracker s) (ar_EventID rq)))")
  case True
  with assms show ?thesis
    by (auto simp: AddExposure_def Let_def case_prod_beta svc_GetExposure_eq flow_outcome_def split: option.splits if_splits)
next
  case False
  then obtain rq where rq: "body = Some rq" "ar_Amount rq \<noteq> 0" "\<not> (ar_EventID rq \<noteq> [] \<and> Seen (sv_Tracker s) (ar_EventID rq))"
    and c: "ToUpper path \<noteq> []" by (cases body) auto
  show ?thesis
  proof (cases "sv_Policy s")
    case None
    with assms rq c have "add_flow L (ToUpper path) rq s = (r, s')" by (auto simp: AddExposure_def Let_def)
    from add_flow_books [OF this] None rq c show ?thesis by (auto simp: flow_outcome_def)
  next
    case (Some p)
    let ?e = "Tracker.GetExposure (fst (svc_now s)) (sv_Tracker s) (ToUpper path)" and ?s1 = "snd (svc_now s)"
    show ?thesis
    proof (cases "cap_guard L p (ToUpper path) ?e (ar_Amount rq) = Some False")
      case True
      with assms rq c Some have "add_flow L (ToUpper path) rq ?s1 = (r, s')"
        by (auto simp: AddExposure_def Let_def case_prod_beta svc_GetExposure_eq split: if_splits)
      from add_flow_books [OF this] True Some rq c show ?thesis by (auto simp: flow_outcome_def)
    next
      case False
      with assms rq c Some show ?thesis
        by (auto simp: AddExposure_def Let_def case_prod_beta svc_GetExposure_eq flow_outcome_def split: if_splits option.splits bool.splits)
    qed
  qed
qed

section \<open>Accepted hedge requests\<close>

definition typed_request :: "'d::linordered_idom createHedgeReq \<Rightarrow> bool" where
  "typed_request rq \<longleftrightarrow> 0 < cr_Notional rq \<and> IsValidTenor (cr_Tenor rq) \<and> IsValidHedgeType (cr_Type rq)"

lemma CreateHedge_cases:
  assumes "CreateHedge L body s = (r, s')"
  shows "s' = s \<and> (\<forall>b. r \<noteq> Some (201, b)) \<or>
    (\<exists>rq. body = Some rq \<and> start_hedge L (ToUpper (cr_Currency rq)) rq s = (r, s') \<and> typed_request rq \<and>
       unused_request (sv_Store s) (cr_ClientRequestID rq))"
  using assms
  by (auto simp: CreateHedge_def Let_def typed_request_def unused_request_def not_le writeError_def writeJSON_def
      split: option.splits if_splits)

lemma CreateHedge_starts:
  assumes "typed_request rq" and "cr_Currency rq \<noteq> []" and "unused_request (sv_Store s) (cr_ClientRequestID rq)"
  shows "CreateHedge L (Some rq) s = start_hedge L (ToUpper (cr_Currency rq)) rq s"
  using assms by (auto simp: CreateHedge_def Let_def typed_request_def unused_request_def)

end
