(* ===== verification/HedgeFlow.thy ===== *)
theory HedgeFlow
  imports ApiFacts
begin

text \<open>
  The correctness of the two handlers that change the books over REST: creating a hedge and adding
  exposure, on success, and the conditions under which they succeed.
\<close>

lemma start_hedge_created:
  assumes "start_hedge L c rq s = (Some (201, HedgeBody (Some h)), s')"
  shows "h_Currency h = c \<and> h_Notional h = cr_Notional rq \<and> h_Status h = StatusExecuted \<and> h_ClientRequestID h = cr_ClientRequestID rq"
    and "\<exists>f. h_Fills h = [f] \<and> fl_HedgeID f = h_ID h \<and> fl_Amount f = cr_Notional rq \<and>
       h_PnL h = (if h_QuotedRate h \<noteq> 0 then (h_QuotedRate h - fl_Price f) * cr_Notional rq else 0)"
    and "net_of (sv_Tracker s') c' = net_of (sv_Tracker s) c'"
    and "cov_of (sv_Tracker s') c' = cov_of (sv_Tracker s) c' + (if c' = c then cr_Notional rq else 0)"
    and "Store.GetHedge (sv_Store s') (h_ID h) = Some h"
    and "cr_ClientRequestID rq \<noteq> [] \<Longrightarrow> GetHedgeByClientRequest (sv_Store s') (cr_ClientRequestID rq) = Some (Some h)"
    and "\<exists>row. AllPnL (sv_Store s') = AllPnL (sv_Store s) @ [row] \<and> pl_Currency row = c \<and> pl_Realized row = h_PnL h"
proof -
  from start_hedge_books [OF assms] obtain h0 f where h0: "started rq c s StatusExecuting h0" and f: "fl_Amount f = cr_Notional rq" "fl_HedgeID f = h_ID h0"
    and ex: "execution_done h0 f (Store.CreateHedge (sv_Store s) h0) (sv_Tracker s) (Some (201, HedgeBody (Some h))) s'"
    by (auto simp: hedge_outcome_def)
  from ex obtain slip now sm pnl row now' where
    pnl: "pnl = (if h_QuotedRate h0 \<noteq> 0 then (h_QuotedRate h0 - fl_Price f) * fl_Amount f else 0)"
    and h: "h = executed_hedge [f] slip pnl now h0"
    and t: "sv_Tracker s' = AddCoverage now' (sv_Tracker s) (h_Currency h0) (fl_Amount f)"
    and st: "sv_Store s' = AddPnL (executed_store (h_ID h0) sm [f] slip pnl now (Store.CreateHedge (sv_Store s) h0)) row"
    and row: "pl_Realized row = pnl" "pl_Currency row = h_Currency h0"
    by (auto simp: execution_done_def)
  have get: "map_of (st_hedges (sv_Store s')) (h_ID h0) = Some h"
    using executed_store_get [of "Store.CreateHedge (sv_Store s) h0" "h_ID h0" h0 sm "[f]" slip pnl now]
    by (simp add: st h Store.CreateHedge_def)
  have store: "st_byReq (sv_Store s') = st_byReq (Store.CreateHedge (sv_Store s) h0)" "AllPnL (sv_Store s') = AllPnL (sv_Store s) @ [row]"
    by (simp_all add: st AllPnL_def AddPnL_def executed_store_def UpdateHedge_def AddSlippageSample_def Store.CreateHedge_def Let_def)
  show "h_Currency h = c \<and> h_Notional h = cr_Notional rq \<and> h_Status h = StatusExecuted \<and> h_ClientRequestID h = cr_ClientRequestID rq"
    "\<exists>f. h_Fills h = [f] \<and> fl_HedgeID f = h_ID h \<and> fl_Amount f = cr_Notional rq \<and>
       h_PnL h = (if h_QuotedRate h \<noteq> 0 then (h_QuotedRate h - fl_Price f) * cr_Notional rq else 0)"
    "net_of (sv_Tracker s') c' = net_of (sv_Tracker s) c'"
    "cov_of (sv_Tracker s') c' = cov_of (sv_Tracker s) c' + (if c' = c then cr_Notional rq else 0)"
    "\<exists>row. AllPnL (sv_Store s') = AllPnL (sv_Store s) @ [row] \<and> pl_Currency row = c \<and> pl_Realized row = h_PnL h"
    using h0 f pnl row t store(2) by (auto simp: h executed_hedge_def started_def)
  show "Store.GetHedge (sv_Store s') (h_ID h) = Some h" using get by (simp add: h executed_hedge_def)
  show "GetHedgeByClientRequest (sv_Store s') (cr_ClientRequestID rq) = Some (Some h)" if "cr_ClientRequestID rq \<noteq> []"
    using that h0 get by (simp add: GetHedgeByClientRequest_def store(1) Store.CreateHedge_def started_def cloneHedge_def)
qed

lemma CreateHedge_201:
  "CreateHedge L (Some rq) s = (Some (201, b), s') \<Longrightarrow> start_hedge L (ToUpper (cr_Currency rq)) rq s = (Some (201, b), s')"
  using CreateHedge_cases [of L "Some rq" s] by auto

lemmas CreateHedge_created = start_hedge_created [OF CreateHedge_201]

text \<open>C7. A hedge request that is answered with 201 was executed completely: the hedge of the answer has the
  currency (in upper case), notional and request id of the request and the status EXECUTED, exactly
  one fill of the whole notional and the profit of that fill; the coverage of its currency has
  grown by the notional and no other amount of the tracker has changed; the store returns the hedge
  by its id and by its request id, and exactly one row of profit was recorded for it.\<close>

theorem CreateHedge_executed:
  assumes "CreateHedge L (Some rq) s = (Some (201, HedgeBody (Some h)), s')"
  defines "c \<equiv> ToUpper (cr_Currency rq)"
  shows "h_Currency h = c \<and> h_Notional h = cr_Notional rq \<and> h_Status h = StatusExecuted \<and> h_ClientRequestID h = cr_ClientRequestID rq \<and>
    (\<exists>f. h_Fills h = [f] \<and> fl_HedgeID f = h_ID h \<and> fl_Amount f = cr_Notional rq \<and>
       h_PnL h = (if h_QuotedRate h \<noteq> 0 then (h_QuotedRate h - fl_Price f) * cr_Notional rq else 0)) \<and>
    (\<forall>c'. net_of (sv_Tracker s') c' = net_of (sv_Tracker s) c' \<and>
       cov_of (sv_Tracker s') c' = cov_of (sv_Tracker s) c' + (if c' = c then cr_Notional rq else 0)) \<and>
    Store.GetHedge (sv_Store s') (h_ID h) = Some h \<and>
    (cr_ClientRequestID rq \<noteq> [] \<longrightarrow> GetHedgeByClientRequest (sv_Store s') (cr_ClientRequestID rq) = Some (Some h)) \<and>
    (\<exists>row. AllPnL (sv_Store s') = AllPnL (sv_Store s) @ [row] \<and> pl_Currency row = c \<and> pl_Realized row = h_PnL h)"
  unfolding c_def using CreateHedge_created [OF assms(1)] by blast

section \<open>Hedges are created\<close>

text \<open>What the package documents of zero.\<close>

definition decimal_zero :: "'d::linordered_idom decimal_pkg \<Rightarrow> bool" where
  "decimal_zero D \<longleftrightarrow> (\<forall>q. q \<noteq> 0 \<longrightarrow> DivRound D 0 q = 0) \<and> InexactFloat64 D 0 = f_zero"

lemma rat_decimal_zero [simp]: "decimal_zero rat_decimal"
  by (simp add: decimal_zero_def rat_decimal_def)

lemma finish_hedge_answer:
  assumes "map_of (st_hedges (sv_Store s)) (h_ID h) = Some h" and "fl_Venue f = []" and "fl_Price f = h_QuotedRate h"
    and "decimal_ok (lib_dec L)" and "decimal_zero (lib_dec L)"
  shows "\<exists>b. fst (finish_hedge L c rq h [f] s) = Some (201, HedgeBody (Some b)) \<and>
    sv_Provider (snd (finish_hedge L c rq h [f] s)) = sv_Provider s"
proof -
  obtain slip pnl ex s1 where pf: "processFills L h [f] s = ((slip, pnl, ex), s1)" by (metis prod_cases3 surj_pair)
  have "slip = f_zero"
    using pf assms(2,3,5)
    by (auto simp: processFills_def case_prod_beta process_fill_def Let_def decimal_zero_def split: if_splits)
  moreover have "NewFromFloat (lib_dec L) f_zero = Some 0" using decimal_0 [OF assms(4)] by simp
  moreover obtain sm where "sv_Store s1 = AddSlippageSample (sv_Store s) sm" "sv_Provider s1 = sv_Provider s"
    using processFills_one [OF assms(2) pf] by blast
  ultimately show ?thesis
    using pf assms(1) by (simp add: finish_hedge_def Let_def case_prod_beta UpdateHedge_def writeJSON_def)
qed

text \<open>The dummy provider in its default configuration.\<close>

definition quiet_provider :: "'d DummyFXProvider \<Rightarrow> bool" where
  "quiet_provider pv \<longleftrightarrow> \<not> pv_FailExecute pv \<and> f_finite (pv_Rate pv) \<and> f_eq (pv_SlippageBPS pv) f_zero"

lemma execute_hedge_answer:
  assumes "map_of (st_hedges (sv_Store s)) (h_ID h) = Some h" and "quiet_provider (sv_Provider s)"
    and "decimal_ok (lib_dec L)" and "decimal_zero (lib_dec L)"
  shows "\<exists>b. fst (execute_hedge L c rq h s) = Some (201, HedgeBody (Some b)) \<and> quiet_provider (sv_Provider (snd (execute_hedge L c rq h s)))"
proof -
  obtain f prov w where ex: "provider_Execute (lib_dec L) (sv_Provider s) h (sv_world s) = (Some (Inr [f]), prov, w)"
    and f: "fl_Venue f = []" "fl_Price f = h_QuotedRate h" and "quiet_provider prov"
    using assms(2) by (auto simp: provider_Execute_def quiet_provider_def Let_def case_prod_beta)
  show ?thesis
    using finish_hedge_answer [of "s\<lparr>sv_Provider := prov, sv_world := w\<rparr>", OF _ f assms(3,4)] assms(1) \<open>quiet_provider prov\<close>
    by (simp add: execute_hedge_def ex)
qed

lemma place_hedge_answer:
  assumes "quiet_provider (sv_Provider s)" and "decimal_ok (lib_dec L)" and "decimal_zero (lib_dec L)"
  shows "\<exists>b. fst (place_hedge L c rq h s) = Some (201, HedgeBody (Some b)) \<and> quiet_provider (sv_Provider (snd (place_hedge L c rq h s)))"
proof -
  obtain q where "NewFromFloat (lib_dec L) (pv_Rate (sv_Provider s)) = Some q"
    using assms(1) decimal_panics [OF assms(2)] by (auto simp: quiet_provider_def)
  moreover have "provider_Quote (sv_Provider s) c x t = Inr (pv_Rate (sv_Provider s))" for x t
    using assms(1) by (simp add: provider_Quote_def quiet_provider_def)
  ultimately obtain h1 s4 where run: "place_hedge L c rq h s = execute_hedge L c rq h1 s4"
    and stored: "map_of (st_hedges (sv_Store s4)) (h_ID h1) = Some h1" and "sv_Provider s4 = sv_Provider s"
    by (simp add: place_hedge_def Let_def case_prod_beta that Store.CreateHedge_def)
  with execute_hedge_answer [OF stored _ assms(2,3)] assms(1) show ?thesis by simp
qed

lemma policy_context_answer:
  assumes "\<And>p. sv_Policy s = Some p \<Longrightarrow> policy_ok p \<and> f_finite (EffectiveCap p c)" and "decimal_ok (lib_dec L)"
  shows "\<exists>h'. fst (policy_context L c h s) = Some h'"
proof (cases "sv_Policy s")
  case (Some p)
  with assms(1) have p: "policy_ok p" "f_finite (EffectiveCap p c)" by simp_all
  obtain cap where "NewFromFloat (lib_dec L) (EffectiveCap p c) = Some cap" by (rule Decide_total [OF assms(2) p])
  moreover have "Decide (lib_dec L) p c e \<noteq> None" for e
    by (rule Decide_total [OF assms(2) p]) (auto simp: Decide_def Let_def split: option.splits)
  ultimately show ?thesis
    using Some by (auto simp: policy_context_def Let_def case_prod_beta split: option.splits)
qed (simp add: policy_context_def)

lemma start_hedge_answer:
  assumes "quiet_provider (sv_Provider s)" and "decimal_ok (lib_dec L)" and "decimal_zero (lib_dec L)"
    and "\<And>p. sv_Policy s = Some p \<Longrightarrow> policy_ok p \<and> f_finite (EffectiveCap p c)"
  shows "\<exists>h s'. start_hedge L c rq s = (Some (201, HedgeBody (Some h)), s') \<and> quiet_provider (sv_Provider s')"
proof -
  let ?s2 = "snd (svc_uuid (snd (svc_now s)))" and ?h = "new_hedge (fst (svc_uuid (snd (svc_now s)))) c rq (fst (svc_now s))"
  obtain h1 s3 where ctx: "policy_context L c ?h ?s2 = (Some h1, s3)"
    using policy_context_answer [of ?s2 c L ?h] assms(2,4) by (auto simp: prod_eq_iff)
  then have "quiet_provider (sv_Provider s3)"
    using policy_context_books [OF ctx] assms(1) by (simp add: same_books_def)
  from place_hedge_answer [OF this assms(2,3)] obtain b where "fst (place_hedge L c rq h1 s3) = Some (201, HedgeBody (Some b))"
    "quiet_provider (sv_Provider (snd (place_hedge L c rq h1 s3)))"
    by blast
  moreover have "start_hedge L c rq s = place_hedge L c rq h1 s3"
    using ctx by (simp add: start_hedge_def case_prod_beta)
  ultimately show ?thesis by (metis surjective_pairing)
qed

lemma CreateHedge_answer:
  assumes "typed_request rq" and "cr_Currency rq \<noteq> []" and "unused_request (sv_Store s) (cr_ClientRequestID rq)"
    and "quiet_provider (sv_Provider s)" and "decimal_ok (lib_dec L)" and "decimal_zero (lib_dec L)"
    and "\<And>p. sv_Policy s = Some p \<Longrightarrow> policy_ok p \<and> f_finite (EffectiveCap p (ToUpper (cr_Currency rq)))"
  shows "\<exists>h s'. CreateHedge L (Some rq) s = (Some (201, HedgeBody (Some h)), s')"
  unfolding CreateHedge_starts [OF assms(1-3)] using start_hedge_answer [OF assms(4-7)] by blast

text \<open>C16. Creating a hedge works: with a provider that does not fail, has a finite rate and no slippage, and a
  policy whose cap for the currency is finite, every valid request whose request id is free is
  answered with 201 and a hedge.\<close>

theorem CreateHedge_succeeds:
  assumes "typed_request rq" and "cr_Currency rq \<noteq> []" and "unused_request (sv_Store s) (cr_ClientRequestID rq)"
    and "quiet_provider (sv_Provider s)" and "decimal_ok (lib_dec L)" and "decimal_zero (lib_dec L)"
    and "\<And>p. sv_Policy s = Some p \<Longrightarrow> policy_ok p \<and> f_finite (EffectiveCap p (ToUpper (cr_Currency rq)))"
  shows "\<exists>h s'. CreateHedge L (Some rq) s = (Some (201, HedgeBody (Some h)), s')"
  using assms by (rule CreateHedge_answer)

text \<open>C8. The cap guards every further flow: after an accepted flow into a currency with a net entry the open
  amount of that currency is, in absolute value, within the cap or not larger than before, and the
  open amounts of all other currencies are unchanged.\<close>

theorem AddExposure_cap:
  assumes "AddExposure L path (Some rq) s = (Some (200, ExposureBody e), s')" and "sv_Policy s = Some p"
    and "tr_net (sv_Tracker s) (ToUpper path) \<noteq> None"
    and "NewFromFloat (lib_dec L) (EffectiveCap p (ToUpper path)) = Some cap"
  defines "open1 \<equiv> (\<lambda>s c. net_of (sv_Tracker s) c - cov_of (sv_Tracker s) c)"
  shows "\<bar>open1 s' (ToUpper path)\<bar> \<le> max cap \<bar>open1 s (ToUpper path)\<bar> \<and> (\<forall>c. c \<noteq> ToUpper path \<longrightarrow> open1 s' c = open1 s c)"
proof -
  let ?c = "ToUpper path" and ?t = "sv_Tracker s"
  from AddExposure_outcome [OF assms(1)] consider (same) "sv_Tracker s' = ?t"
    | (flow) now t0 where "sv_Tracker s' = flow_tracker now ?c rq ?t" "\<not> (ar_EventID rq \<noteq> [] \<and> Seen ?t (ar_EventID rq))"
        "cap_guard L p ?c (Tracker.GetExposure t0 ?t ?c) (ar_Amount rq) = Some False"
    using assms(2) by (auto simp: flow_outcome_def)
  then show ?thesis
  proof cases
    case same
    then show ?thesis by (simp add: open1_def)
  next
    case (flow now t0)
    obtain v where "Tracker.GetExposure t0 ?t ?c = Some v"
      using assms(3) GetExposure_None_iff [of t0 ?t ?c] by (cases "Tracker.GetExposure t0 ?t ?c") auto
    with book.view_Some [OF this] flow(3) assms(4)
    have "\<not> (cap < \<bar>book.open_amount ?t ?c + ar_Amount rq\<bar> \<and> \<bar>book.open_amount ?t ?c\<bar> < \<bar>book.open_amount ?t ?c + ar_Amount rq\<bar>)"
      by (auto simp: cap_guard_def Let_def book.open_amount_def)
    from book.guarded_flow [OF this, of now] show ?thesis
      by (auto simp: open1_def flow(1) flow_tracker_net [OF flow(2)] book.open_flow book.open_amount_def)
  qed
qed

lemma first_flow_accepted:
  assumes "ToUpper path \<noteq> []" and "ar_Amount rq \<noteq> 0" and "\<not> (ar_EventID rq \<noteq> [] \<and> Seen (sv_Tracker s) (ar_EventID rq))"
    and "tr_net (sv_Tracker s) (ToUpper path) = None"
  shows "\<exists>e s'. AddExposure L path (Some rq) s = (Some (200, ExposureBody e), s') \<and> net_of (sv_Tracker s') (ToUpper path) = ar_Amount rq"
proof -
  let ?c = "ToUpper path"
  have none: "Tracker.GetExposure now (sv_Tracker s) ?c = None" for now using assms(4) by (simp add: GetExposure_None_iff)
  define s1 where "s1 = (case sv_Policy s of None \<Rightarrow> s | Some p \<Rightarrow> snd (svc_now s))"
  have t: "sv_Tracker s1 = sv_Tracker s" by (simp add: s1_def split: option.splits)
  have "AddExposure L path (Some rq) s = add_flow L ?c rq s1"
    using assms(1-3) by (auto simp: AddExposure_def Let_def case_prod_beta svc_GetExposure_eq none cap_guard_def s1_def split: option.splits)
  moreover obtain r s' where r: "add_flow L ?c rq s1 = (r, s')" by fastforce
  ultimately show ?thesis
    using add_flow_books [OF r] flow_tracker_net(1) [OF assms(3)] assms(4) t by auto
qed

text \<open>C17. The cap does not guard the first flow of a currency: whatever the policy, a valid flow of any
  size into a currency without a net entry is accepted.\<close>

theorem first_flow_unguarded:
  assumes "ToUpper path \<noteq> []" and "ar_Amount rq \<noteq> 0" and "\<not> (ar_EventID rq \<noteq> [] \<and> Seen (sv_Tracker s) (ar_EventID rq))"
    and "tr_net (sv_Tracker s) (ToUpper path) = None"
  shows "\<exists>e s'. AddExposure L path (Some rq) s = (Some (200, ExposureBody e), s') \<and> net_of (sv_Tracker s') (ToUpper path) = ar_Amount rq"
  using assms by (rule first_flow_accepted)

section \<open>Samples\<close>

definition sample_flow_req :: "rat addExposureReq" where
  "sample_flow_req = \<lparr>ar_Amount = 5000000, ar_EventID = ''e1'', ar_Source = []\<rparr>"

definition sample_hedge_req :: "rat createHedgeReq" where
  "sample_hedge_req =
     \<lparr>cr_Currency = ''eur'', cr_Notional = 900, cr_Tenor = ''SPOT'', cr_Type = ''SPOT'', cr_ClientRequestID = ''q1''\<rparr>"

lemma upper_eur [simp]: "ToUpper ''EUR'' = ''EUR''" "ToUpper ''eur'' = ''EUR''"
  by code_simp+

lemma sample_hedge_req_ok [simp]:
  "typed_request sample_hedge_req" "cr_Currency sample_hedge_req \<noteq> []" "ToUpper (cr_Currency sample_hedge_req) = ''EUR''"
  "cr_ClientRequestID sample_hedge_req = ''q1''" "cr_Notional sample_hedge_req = 900"
  by (simp_all add: sample_hedge_req_def typed_request_def IsValidTenor_def IsValidHedgeType_def const_simps)

lemma sample_flow_req_ok [simp]: "ar_Amount sample_flow_req = 5000000" "ar_EventID sample_flow_req = ''e1''"
  by (simp_all add: sample_flow_req_def)

lemma sample_libs_dec [simp]: "lib_dec sample_libs = rat_decimal"
  by (simp add: sample_libs_def)

lemma sample_provider_quiet [simp]: "quiet_provider (NewDummy sample_env (\<lambda>_. (NaN, True)))"
  by (simp add: NewDummy_def env_float_def sample_env_def quiet_provider_def default_rate f_eq_def)

lemma sample_hedge_created:
  assumes "quiet_provider (sv_Provider s)" and "sv_Policy s = Some sample_policy" and "unused_request (sv_Store s) ''q1''"
  obtains h s' where "CreateHedge sample_libs (Some sample_hedge_req) s = (Some (201, HedgeBody (Some h)), s')"
  using CreateHedge_answer [of sample_hedge_req s sample_libs] assms by auto

theorem CreateHedge_succeeds_witness:
  "\<exists>h s'. CreateHedge sample_libs (Some sample_hedge_req) sample_service = (Some (201, HedgeBody (Some h)), s')"
  by (rule CreateHedge_succeeds)
    (simp_all add: unused_request_def store_New_def GetHedgeByClientRequest_def)

theorem CreateHedge_executed_witness:
  "\<exists>h s'. CreateHedge sample_libs (Some sample_hedge_req) sample_service = (Some (201, HedgeBody (Some h)), s') \<and>
     h_Currency h = ''EUR'' \<and> h_Status h = StatusExecuted \<and> cov_of (sv_Tracker s') ''EUR'' = 900"
proof -
  obtain h s' where r: "CreateHedge sample_libs (Some sample_hedge_req) sample_service = (Some (201, HedgeBody (Some h)), s')"
    by (rule sample_hedge_created [of sample_service]) (simp_all add: unused_request_def store_New_def GetHedgeByClientRequest_def)
  with CreateHedge_executed [OF r] show ?thesis by (simp add: tracker_New_def)
qed

theorem first_flow_unguarded_witness:
  "\<exists>e s'. AddExposure sample_libs ''EUR'' (Some sample_flow_req) sample_service = (Some (200, ExposureBody e), s') \<and>
     net_of (sv_Tracker s') ''EUR'' = 5000000"
  using first_flow_unguarded [of "''EUR''" sample_flow_req sample_service sample_libs]
  by (simp add: tracker_New_def Seen_def)

text \<open>A second flow that closes part of an open amount above the cap.\<close>

theorem AddExposure_cap_witness:
  "\<exists>e s'. AddExposure sample_libs ''EUR'' (Some \<lparr>ar_Amount = - 1000000, ar_EventID = [], ar_Source = []\<rparr>)
       (sample_service\<lparr>sv_Tracker := Tracker.AddExposure 1 tracker_New ''EUR'' 5000000\<rparr>) = (Some (200, ExposureBody e), s') \<and>
     \<bar>net_of (sv_Tracker s') ''EUR'' - cov_of (sv_Tracker s') ''EUR''\<bar> \<le> 5000000"
proof -
  let ?s = "sample_service\<lparr>sv_Tracker := Tracker.AddExposure 1 tracker_New ''EUR'' 5000000\<rparr>"
  let ?rq = "\<lparr>ar_Amount = - 1000000, ar_EventID = [], ar_Source = []\<rparr> :: rat addExposureReq"
  have empty: "tr_net tracker_New = Map.empty" "tr_coverage tracker_New = Map.empty" by (simp_all add: tracker_New_def)
  obtain e s' where r: "AddExposure sample_libs ''EUR'' (Some ?rq) ?s = (Some (200, ExposureBody e), s')"
    by (auto simp: AddExposure_def Let_def case_prod_beta svc_GetExposure_eq cap_guard_def add_flow_def writeJSON_def
        Tracker.GetExposure_def empty)
  have "NewFromFloat (lib_dec sample_libs) (EffectiveCap sample_policy (ToUpper ''EUR'')) = Some 1000000" by simp
  from AddExposure_cap [OF r _ _ this] r show ?thesis by (auto simp: tracker_New_def)
qed

end
