(* ===== verification/Views.thy ===== *)
theory Views
  imports Api
begin

text \<open>
  The reporting handlers of \<open>internal/api/handlers.go\<close>: profit and loss, slippage with its feedback into the
  policy, settlement, the lists and the health checks. The layout RFC 3339 is parsed by an argument
  \<open>pt\<close>; the orders of ranges over maps and the sorts of the store are arguments too.
\<close>

section \<open>Ranges of times\<close>

definition parseRange :: "(string \<Rightarrow> time option) \<Rightarrow> string \<Rightarrow> string \<Rightarrow> string + time \<times> time" where
  "parseRange pt from_q to_q =
     (case (if from_q \<noteq> [] then pt from_q else Some 0) of
        None \<Rightarrow> Inl ''invalid 'from' (use RFC3339)''
      | Some from \<Rightarrow>
          (case (if to_q \<noteq> [] then pt to_q else Some 0) of
             None \<Rightarrow> Inl ''invalid 'to' (use RFC3339)''
           | Some to \<Rightarrow> Inr (from, to)))"

definition inRange :: "time \<Rightarrow> time \<Rightarrow> time \<Rightarrow> bool" where
  "inRange t from to =
     (if from \<noteq> 0 \<and> t < from then False else if to \<noteq> 0 \<and> to < t then False else True)"

section \<open>Profit and loss\<close>

definition zero_pnl :: "string \<Rightarrow> 'd::zero PnL" where
  "zero_pnl ccy = \<lparr>pl_Currency = ccy, pl_Realized = 0, pl_Unrealized = 0, pl_Total = 0,
     pl_Components = \<lparr>pc_HedgePnL = 0, pc_SpotPnL = 0, pc_SlippageCost = 0\<rparr>\<rparr>"

text \<open>The sums of one hedge; \<open>None\<close> is the panic on a slippage that is not finite.\<close>

definition pnl_add ::
  "'d::linordered_idom decimal_pkg \<Rightarrow> 'd Hedge \<Rightarrow> (string \<rightharpoonup> 'd PnL) \<Rightarrow> (string \<rightharpoonup> 'd PnL) option" where
  "pnl_add D h m =
     (let p = lookup_or (zero_pnl (h_Currency h)) m (h_Currency h) in
      case NewFromFloat D (h_SlippageBPS h) of None \<Rightarrow> None
      | Some slip \<Rightarrow>
          (let cost = DivRound D (slip * h_Notional h) (of_int 10000); k = pl_Components p
           in Some (m(h_Currency h \<mapsto> p\<lparr>pl_Realized := pl_Realized p + h_PnL h,
                pl_Components := k\<lparr>pc_HedgePnL := pc_HedgePnL k + h_PnL h, pc_SlippageCost := pc_SlippageCost k + cost\<rparr>\<rparr>))))"

fun pnl_loop ::
  "'d::linordered_idom decimal_pkg \<Rightarrow> time \<Rightarrow> time \<Rightarrow> 'd Hedge list \<Rightarrow> (string \<rightharpoonup> 'd PnL) \<Rightarrow> (string \<rightharpoonup> 'd PnL) option" where
  "pnl_loop D from to [] m = Some m"
| "pnl_loop D from to (h # hs) m =
     (if \<not> inRange (h_CreatedAt h) from to then pnl_loop D from to hs m
      else (case pnl_add D h m of None \<Rightarrow> None | Some m' \<Rightarrow> pnl_loop D from to hs m'))"

definition pnl_row :: "(string \<rightharpoonup> 'd::linordered_idom PnL) \<Rightarrow> string \<Rightarrow> 'd PnL" where
  "pnl_row m ccy = (let p = lookup_or (zero_pnl ccy) m ccy in p\<lparr>pl_Total := pl_Realized p + pl_Unrealized p\<rparr>)"

definition total_add :: "'d::linordered_idom PnL \<Rightarrow> 'd PnL \<Rightarrow> 'd PnL" where
  "total_add p t =
     (let k = pl_Components t
      in t\<lparr>pl_Realized := pl_Realized t + pl_Realized p, pl_Unrealized := pl_Unrealized t + pl_Unrealized p,
           pl_Components := k\<lparr>pc_HedgePnL := pc_HedgePnL k + pc_HedgePnL (pl_Components p),
                              pc_SlippageCost := pc_SlippageCost k + pc_SlippageCost (pl_Components p)\<rparr>\<rparr>)"

definition PnL_handler ::
  "'d::linordered_idom libs \<Rightarrow> (string \<Rightarrow> time option) \<Rightarrow> ('d Hedge list \<Rightarrow> 'd Hedge list) \<Rightarrow> ((string \<rightharpoonup> 'd PnL) \<Rightarrow> string list) \<Rightarrow>
   string \<Rightarrow> string \<Rightarrow> 'd Service \<Rightarrow> 'd response \<times> 'd Service" where
  "PnL_handler L pt srt order from_q to_q s =
     (case parseRange pt from_q to_q of
        Inl msg \<Rightarrow> (writeError 400 msg, s)
      | Inr (from, to) \<Rightarrow>
          (case pnl_loop (lib_dec L) from to (AllHedges srt (sv_Store s)) Map.empty of
             None \<Rightarrow> (None, s)
           | Some byCurrency \<Rightarrow>
               (let rows = map (pnl_row byCurrency) (order byCurrency);
                    t0 = fold total_add rows (zero_pnl []);
                    total = t0\<lparr>pl_Currency := ''TOTAL'', pl_Total := pl_Realized t0 + pl_Unrealized t0\<rparr>
                in (writeJSON 200 (PnLBody \<lparr>pr_From = from, pr_To = to, pr_ByCurrency = rows, pr_Total = total\<rparr>), s))))"

section \<open>Slippage\<close>

record slip_acc =
  sl_sum :: float64
  sl_max :: float64
  sl_byCcySum :: "string \<rightharpoonup> float64"
  sl_byCcyCount :: "string \<rightharpoonup> int"

definition slip_add :: "'d SlippageSample \<Rightarrow> slip_acc \<Rightarrow> slip_acc" where
  "slip_add sm a =
     (let x = ss_SlippageBPS sm; ccy = TrimSuffix (ss_Pair sm) ''USD''
      in a\<lparr>sl_sum := f_add (sl_sum a) x,
           sl_max := (if f_lt (sl_max a) x then x else sl_max a),
           sl_byCcySum := (sl_byCcySum a)(ccy \<mapsto> f_add (lookup_or f_zero (sl_byCcySum a) ccy) x),
           sl_byCcyCount := (sl_byCcyCount a)(ccy \<mapsto> lookup_or 0 (sl_byCcyCount a) ccy + 1)\<rparr>)"

definition slip_total :: "'d SlippageSample list \<Rightarrow> slip_acc" where
  "slip_total samples =
     fold slip_add samples \<lparr>sl_sum = f_zero, sl_max = f_zero, sl_byCcySum = Map.empty, sl_byCcyCount = Map.empty\<rparr>"

definition tune :: "slip_acc \<Rightarrow> string \<Rightarrow> policy \<Rightarrow> policy" where
  "tune a ccy p =
     (let n = lookup_or 0 (sl_byCcyCount a) ccy in
      if ccy \<noteq> [] \<and> 0 < n
      then ApplySlippageTuning p ccy (f_div (lookup_or f_zero (sl_byCcySum a) ccy) (f_of_int n)) else p)"

definition Slippage ::
  "(string \<Rightarrow> time option) \<Rightarrow> ((string \<rightharpoonup> float64) \<Rightarrow> string list) \<Rightarrow> string \<Rightarrow> string \<Rightarrow> string \<Rightarrow> 'd Service \<Rightarrow> 'd response \<times> 'd Service" where
  "Slippage pt order pair_q from_q to_q s =
     (let pair = ToUpper pair_q in
      case parseRange pt from_q to_q of
        Inl msg \<Rightarrow> (writeError 400 msg, s)
      | Inr (from, to) \<Rightarrow>
          (let samples = SlippageSamples (sv_Store s) pair from to;
               a = slip_total samples;
               n = int (length samples);
               agg = \<lparr>sa_Pair = pair, sa_Count = n, sa_Mean = (if 0 < n then f_div (sl_sum a) (f_of_int n) else f_zero),
                      sa_Max = sl_max a\<rparr>;
               s1 = (case sv_Policy s of None \<Rightarrow> s
                     | Some p \<Rightarrow> s\<lparr>sv_Policy := Some (fold (tune a) (order (sl_byCcySum a)) p)\<rparr>)
           in (writeJSON 200 (SlippageBody \<lparr>sr_Pair = pair, sr_From = from, sr_To = to, sr_Samples = samples, sr_Aggregates = agg\<rparr>), s1)))"

section \<open>Settlement\<close>

fun publish_obligations :: "'d::linordered_idom libs \<Rightarrow> 'd SettlementObligation list \<Rightarrow> 'd Service \<Rightarrow> 'd Service" where
  "publish_obligations L [] s = s"
| "publish_obligations L (ob # obs) s =
     (let s1 = emit L \<lparr>ae_Type = EventSettlement, ae_HedgeID = [], ae_Currency = so_Currency ob,
                       ae_Detail = ''netted settlement obligation'', ae_At = so_At ob\<rparr> s;
          s2 = (case sv_ReconC s1 of None \<Rightarrow> s1
                | Some rc \<Rightarrow> (let (err, dl, w) = PublishObligation (lib_fmt L) Background rc ob (sv_DL s1) (sv_world s1)
                             in s1\<lparr>sv_DL := dl, sv_world := w\<rparr>))
      in publish_obligations L obs s2)"

definition Settlement_handler ::
  "'d::linordered_idom libs \<Rightarrow> ((string \<rightharpoonup> 'd) \<Rightarrow> string list) \<Rightarrow> ('d Hedge list \<Rightarrow> 'd Hedge list) \<Rightarrow>
   ('d SettlementObligation list \<Rightarrow> 'd SettlementObligation list) \<Rightarrow> 'd Service \<Rightarrow> 'd response \<times> 'd Service" where
  "Settlement_handler L order hsrt osrt s =
     (let flows = AllExposures (order (tr_net (sv_Tracker s))) (order (tr_coverage (sv_Tracker s))) (sv_Tracker s);
          hedges = AllHedges hsrt (sv_Store s);
          range1 = order (byCcy (net_loop (flow_legs flows @ hedge_legs hedges)))
      in (case NetFromFlowsAndHedges (lib_dec L) osrt range1 flows hedges of
            None \<Rightarrow> (None, s)
          | Some obs \<Rightarrow> (writeJSON 200 (ObligationsBody obs (int (length obs))), publish_obligations L obs s)))"

section \<open>Lists and health\<close>

definition ListHedges ::
  "('d Hedge list \<Rightarrow> 'd Hedge list) \<Rightarrow> string \<Rightarrow> string \<Rightarrow> 'd Service \<Rightarrow> 'd response \<times> 'd Service" where
  "ListHedges srt currency_q status_q s =
     (let currency = ToUpper currency_q; status = ToUpper status_q in
      case (if currency \<noteq> [] then HedgesByCurrency srt (sv_Store s) currency else Some (AllHedges srt (sv_Store s))) of
        None \<Rightarrow> (None, s)
      | Some all \<Rightarrow>
          (writeJSON 200 (HedgesBody (if status \<noteq> [] then filter (\<lambda>h. h_Status h = status) all else all)), s))"

definition ListExposures ::
  "((string \<rightharpoonup> 'd) \<Rightarrow> string list) \<Rightarrow> 'd::linordered_idom Service \<Rightarrow> 'd response \<times> 'd Service" where
  "ListExposures order s =
     (writeJSON 200 (ExposuresBody
        (AllExposures (order (tr_net (sv_Tracker s))) (order (tr_coverage (sv_Tracker s))) (sv_Tracker s))), s)"

definition Healthz :: "'d response" where
  "Healthz = writeJSON 200 (StatusBody ''ok'')"

definition Readyz :: "'d Service \<Rightarrow> 'd response \<times> 'd Service" where
  "Readyz s = (writeJSON 200 (StatusBody ''ready''), s)"

end
