(* ===== verification/Grpc.thy ===== *)
theory Grpc
  imports Service
begin

text \<open>
  The gRPC service of \<open>internal/grpc/grpc.go\<close>: live rates, net exposure and hedge plans; the exposure
  stream is in \<open>Stream\<close>.
  It works on the tracker, the cache, the policy and the store of the service, which it shares with
  the REST handlers, and on the router of \<open>Router\<close> with any executors. \<open>None\<close> is a panic.
\<close>

section \<open>Rates and exposure\<close>

text \<open>\<open>Time.UnixNano\<close>, for the times it is defined for.\<close>

definition UnixNano :: "time \<Rightarrow> int" where
  "UnixNano t = t - 62135596800 * second"

record GetLiveRateResponse =
  lr_Currency :: string
  lr_Rate :: float64
  lr_TsUnixNanos :: int
  lr_Stale :: bool

datatype grpc_error = CurrencyRequired | CacheError rate_error | RateDiverges

definition GetLiveRate ::
  "string \<Rightarrow> 'd Service \<Rightarrow> (GetLiveRateResponse option \<times> grpc_error option) option \<times> 'd Service" where
  "GetLiveRate ccy s =
     (if ccy = [] then (Some (None, Some CurrencyRequired), s)
      else (case sv_Cache s of None \<Rightarrow> (None, s)
        | Some c \<Rightarrow>
            (let (now, s1) = svc_now s; (r, err) = cache_Get now c ccy
             in (case err of
                   Some e \<Rightarrow> (Some (None, Some (CacheError e)), s1)
                 | None \<Rightarrow>
                     if \<not> CrossCheck c ccy (Fin 100) then
                       (Some (Some \<lparr>lr_Currency = ccy, lr_Rate = rt_Rate r, lr_TsUnixNanos = UnixNano (rt_At r), lr_Stale = True\<rparr>,
                              Some RateDiverges), s1)
                     else
                       (Some (Some \<lparr>lr_Currency = ccy, lr_Rate = rt_Rate r, lr_TsUnixNanos = UnixNano (rt_At r), lr_Stale = False\<rparr>,
                              None), s1)))))"

record ExposureSnapshot =
  xs_Currency :: string
  xs_NetAmount :: float64
  xs_HedgeCoverage :: float64
  xs_OpenAmount :: float64
  xs_TsUnixNanos :: int

definition snapshotToProto :: "'d decimal_pkg \<Rightarrow> 'd Exposure \<Rightarrow> ExposureSnapshot" where
  "snapshotToProto D e =
     \<lparr>xs_Currency = e_Currency e, xs_NetAmount = InexactFloat64 D (e_NetAmount e),
      xs_HedgeCoverage = InexactFloat64 D (e_HedgeCoverage e), xs_OpenAmount = InexactFloat64 D (e_OpenAmount e),
      xs_TsUnixNanos = UnixNano (e_UpdatedAt e)\<rparr>"

text \<open>The response of \<open>GetNetExposure\<close> has the fields of a snapshot.\<close>

definition GetNetExposure ::
  "'d::linordered_idom decimal_pkg \<Rightarrow> string \<Rightarrow> 'd Service \<Rightarrow> (grpc_error + ExposureSnapshot) \<times> 'd Service" where
  "GetNetExposure D ccy s =
     (if ccy = [] then (Inl CurrencyRequired, s)
      else
        (let (expo, s1) = svc_GetExposure ccy s in
         case expo of
           None \<Rightarrow> (let (now, s2) = svc_now s1
                    in (Inr \<lparr>xs_Currency = ccy, xs_NetAmount = f_zero, xs_HedgeCoverage = f_zero, xs_OpenAmount = f_zero,
                             xs_TsUnixNanos = UnixNano now\<rparr>, s2))
         | Some e \<Rightarrow> (Inr \<lparr>xs_Currency = e_Currency e, xs_NetAmount = InexactFloat64 D (e_NetAmount e),
                          xs_HedgeCoverage = InexactFloat64 D (e_HedgeCoverage e),
                          xs_OpenAmount = InexactFloat64 D (e_OpenAmount e), xs_TsUnixNanos = UnixNano (e_UpdatedAt e)\<rparr>, s1)))"

section \<open>Hedge plans\<close>

record HedgePlanLeg =
  leg_Currency :: string
  leg_Notional :: float64
  leg_Tenor :: string
  leg_Type :: string
  leg_ValueDate :: string

datatype leg_error = NoLegError | LegError string | LegExecError exec_error

record HedgePlanLegResult =
  lr_LegCurrency :: string
  lr_HedgeId :: string
  lr_Status :: string
  lr_Notional :: float64
  lr_QuotedRate :: float64
  lr_SlippageBps :: float64
  lr_Error :: leg_error

record SubmitHedgePlanResponse =
  pl_PlanId :: string
  pl_Rejected :: bool
  pl_RejectReason :: string
  pl_Results :: "HedgePlanLegResult list"

definition legResultFromHedge :: "'d decimal_pkg \<Rightarrow> 'd Hedge \<Rightarrow> leg_error \<Rightarrow> HedgePlanLegResult" where
  "legResultFromHedge D h err =
     \<lparr>lr_LegCurrency = h_Currency h, lr_HedgeId = h_ID h, lr_Status = h_Status h,
      lr_Notional = InexactFloat64 D (h_Notional h), lr_QuotedRate = InexactFloat64 D (h_QuotedRate h),
      lr_SlippageBps = h_SlippageBPS h, lr_Error = err\<rparr>"

definition leg_failure :: "string \<Rightarrow> string \<Rightarrow> HedgePlanLegResult" where
  "leg_failure ccy msg =
     \<lparr>lr_LegCurrency = ccy, lr_HedgeId = [], lr_Status = [], lr_Notional = f_zero, lr_QuotedRate = f_zero,
      lr_SlippageBps = f_zero, lr_Error = LegError msg\<rparr>"

text \<open>The samples of the fills; the slippage of the hedge is that of the last one.\<close>

fun leg_samples ::
  "'d::linordered_idom decimal_pkg \<Rightarrow> string \<Rightarrow> 'd \<Rightarrow> 'd Fill list \<Rightarrow> float64 \<Rightarrow> 'd memstore \<Rightarrow> float64 \<times> 'd memstore" where
  "leg_samples D ccy quotedRate [] slip st = (slip, st)"
| "leg_samples D ccy quotedRate (f # fs) slip st =
     (let slip1 = (if quotedRate \<noteq> 0
                   then InexactFloat64 D (DivRound D (fl_Price f - quotedRate) quotedRate * of_int 10000) else slip)
      in leg_samples D ccy quotedRate fs slip1
           (AddSlippageSample st \<lparr>ss_Pair = ccy @ ''USD'', ss_QuotedRate = quotedRate, ss_ExecutedRate = fl_Price f,
                                  ss_SlippageBPS = slip1, ss_Timestamp = fl_Timestamp f\<rparr>))"

text \<open>Booking the fills of a leg.\<close>

definition book_leg ::
  "'d::linordered_idom libs \<Rightarrow> string \<Rightarrow> 'd Hedge \<Rightarrow> 'd Fill list \<Rightarrow> 'd Service \<Rightarrow> HedgePlanLegResult \<times> 'd Service" where
  "book_leg L ccy h fills s =
     (let (slip, st) = leg_samples (lib_dec L) ccy (h_QuotedRate h) fills f_zero (sv_Store s);
          (now, s2) = svc_now (s\<lparr>sv_Store := st\<rparr>);
          h2 = h\<lparr>h_Fills := fills, h_Status := StatusExecuted, h_SlippageBPS := slip, h_UpdatedAt := now\<rparr>;
          (now', s3) = svc_now (s2\<lparr>sv_Store := Store.CreateHedge (sv_Store s2) h2\<rparr>)
      in (legResultFromHedge (lib_dec L) h2 NoLegError,
          s3\<lparr>sv_Tracker := AddCoverage now' (sv_Tracker s3) ccy (h_Notional h2)\<rparr>))"

text \<open>Routing the hedge of a leg and booking the result.\<close>

definition route_leg ::
  "'d::linordered_idom libs \<Rightarrow> ('x, 'd) executor_iface \<Rightarrow> string \<Rightarrow> 'd Hedge \<Rightarrow> 'x list \<Rightarrow> 'd Service \<Rightarrow>
   HedgePlanLegResult option \<times> 'x list \<times> 'd Service" where
  "route_leg L X ccy h execs s =
     (let D = lib_dec L;
          (out, h1, execs1, w) = RouteAndExecute D X execs h (sv_world s);
          s1 = s\<lparr>sv_world := w\<rparr>
      in (case out of None \<Rightarrow> (None, execs1, s1)
          | Some (_, Some e) \<Rightarrow>
              (Some \<lparr>lr_LegCurrency = ccy, lr_HedgeId = h_ID h1, lr_Status = StatusFailed,
                     lr_Notional = InexactFloat64 D (h_Notional h1), lr_QuotedRate = f_zero, lr_SlippageBps = f_zero,
                     lr_Error = LegExecError e\<rparr>, execs1,
               s1\<lparr>sv_Store := Store.CreateHedge (sv_Store s1) (h1\<lparr>h_Status := StatusFailed\<rparr>)\<rparr>)
          | Some (fills, None) \<Rightarrow>
              (let (res, s2) = book_leg L ccy h1 fills s1 in (Some res, execs1, s2))))"

text \<open>The hedge of a leg: \<open>pd\<close> parses the layout \<open>2006-01-02\<close>.\<close>

definition leg_hedge ::
  "(string \<Rightarrow> time option) \<Rightarrow> string \<Rightarrow> HedgePlanLeg \<Rightarrow> 'd::zero \<Rightarrow> string \<Rightarrow> string \<Rightarrow> time \<Rightarrow> time \<Rightarrow> 'd Hedge" where
  "leg_hedge pd planID leg notional hedgeID reqID created updated =
     (let ccy = leg_Currency leg;
          tenor = (if IsValidTenor (leg_Tenor leg) then leg_Tenor leg else TenorSpot);
          htype = (if tenor = TenorForward then TypeForward else TypeSpot);
          valueDate = (if leg_ValueDate leg \<noteq> [] then (case pd (leg_ValueDate leg) of None \<Rightarrow> 0 | Some vd \<Rightarrow> vd) else 0)
      in \<lparr>h_ID = hedgeID, h_Currency = ccy, h_Notional = notional, h_Tenor = tenor, h_Type = htype,
          h_Status = StatusPending, h_QuotedRate = 0, h_Fills = [], h_SlippageBPS = f_zero, h_PnL = 0,
          h_ClientRequestID = planID @ '':'' @ ccy @ '':'' @ reqID, h_PolicyRatio = f_zero, h_PolicyCapUSD = 0,
          h_CapBreached = False, h_ValueDate = valueDate, h_Venue = [], h_CreatedAt = created, h_UpdatedAt = updated\<rparr>)"

definition executeLeg ::
  "'d::linordered_idom libs \<Rightarrow> ('x, 'd) executor_iface \<Rightarrow> (string \<Rightarrow> time option) \<Rightarrow> string \<Rightarrow> HedgePlanLeg \<Rightarrow>
   'x list \<Rightarrow> 'd Service \<Rightarrow> HedgePlanLegResult option \<times> 'x list \<times> 'd Service" where
  "executeLeg L X pd planID leg execs s =
     (let ccy = leg_Currency leg in
      if ccy = [] then (Some (leg_failure [] ''currency is required''), execs, s)
      else (case NewFromFloat (lib_dec L) (leg_Notional leg) of None \<Rightarrow> (None, execs, s)
        | Some notional \<Rightarrow>
            if notional \<le> 0 then (Some (leg_failure ccy ''notional must be positive''), execs, s)
            else
              (let (hedgeID, s1) = svc_uuid s; (reqID, s2) = svc_uuid s1; (created, s3) = svc_now s2; (updated, s4) = svc_now s3;
                   h = leg_hedge pd planID leg notional hedgeID reqID created updated in
               case (if h_ClientRequestID h \<noteq> [] then GetHedgeByClientRequest (sv_Store s4) (h_ClientRequestID h) else Some None) of
                 None \<Rightarrow> (None, execs, s4)
               | Some (Some existing) \<Rightarrow> (Some (legResultFromHedge (lib_dec L) existing (LegError ''duplicate'')), execs, s4)
               | Some None \<Rightarrow>
                   (case sv_Policy s4 of None \<Rightarrow> (None, execs, s4)
                    | Some p \<Rightarrow>
                        (let (expo, s5) = svc_GetExposure ccy s4 in
                         case Decide (lib_dec L) p ccy expo of None \<Rightarrow> (None, execs, s5)
                         | Some dec \<Rightarrow>
                             (case NewFromFloat (lib_dec L) (EffectiveCap p ccy) of None \<Rightarrow> (None, execs, s5)
                              | Some cap \<Rightarrow>
                                  route_leg L X ccy (h\<lparr>h_PolicyRatio := EffectiveRatio p ccy, h_PolicyCapUSD := cap,
                                                     h_CapBreached := hd_BlockedByCap dec\<rparr>) execs s5))))))"

fun execute_legs ::
  "'d::linordered_idom libs \<Rightarrow> ('x, 'd) executor_iface \<Rightarrow> (string \<Rightarrow> time option) \<Rightarrow> string \<Rightarrow> HedgePlanLeg list \<Rightarrow>
   HedgePlanLegResult list \<Rightarrow> 'x list \<Rightarrow> 'd Service \<Rightarrow> HedgePlanLegResult list option \<times> 'x list \<times> 'd Service" where
  "execute_legs L X pd planID [] results execs s = (Some results, execs, s)"
| "execute_legs L X pd planID (leg # legs) results execs s =
     (let (r, execs1, s1) = executeLeg L X pd planID leg execs s in
      case r of None \<Rightarrow> (None, execs1, s1)
      | Some res \<Rightarrow> execute_legs L X pd planID legs (results @ [res]) execs1 s1)"

fun proposed_notionals ::
  "'d::linordered_idom decimal_pkg \<Rightarrow> HedgePlanLeg list \<Rightarrow> (string \<rightharpoonup> 'd) \<Rightarrow> (string \<rightharpoonup> 'd) option" where
  "proposed_notionals D [] m = Some m"
| "proposed_notionals D (leg # legs) m =
     (case NewFromFloat D (leg_Notional leg) of None \<Rightarrow> None
      | Some n \<Rightarrow> proposed_notionals D legs (m(leg_Currency leg \<mapsto> lookup_or 0 m (leg_Currency leg) + n)))"

text \<open>The cap check of a plan, over the proposed currencies in the order of the range: \<open>None\<close> is a panic,
  \<open>Some None\<close> means that no cap is breached, otherwise the reason.\<close>

fun plan_check ::
  "'d::linordered_idom libs \<Rightarrow> (string \<rightharpoonup> 'd) \<Rightarrow> string list \<Rightarrow> 'd Service \<Rightarrow> string option option \<times> 'd Service" where
  "plan_check L proposed [] s = (Some None, s)"
| "plan_check L proposed (ccy # ccys) s =
     (let addNotional = lookup_or 0 proposed ccy; (expo, s1) = svc_GetExposure ccy s;
          open1 = (case expo of Some e \<Rightarrow> e_OpenAmount e - addNotional | None \<Rightarrow> - addNotional) in
      case sv_Policy s1 of None \<Rightarrow> (None, s1)
      | Some p \<Rightarrow>
          (case NewFromFloat (lib_dec L) (EffectiveCap p ccy) of None \<Rightarrow> (None, s1)
           | Some cap \<Rightarrow>
               if cap < \<bar>open1\<bar> then
                 (Some (Some (''plan would breach MAX_OPEN_EXPOSURE_USD for '' @ ccy @ '' (open '' @ DecString (lib_dec L) open1 @
                   '' > cap '' @ FormatF2 (lib_fmt L) (EffectiveCap p ccy) @ '')'')), s1)
               else plan_check L proposed ccys s1))"

definition SubmitHedgePlan ::
  "'d::linordered_idom libs \<Rightarrow> ('x, 'd) executor_iface \<Rightarrow> (string \<Rightarrow> time option) \<Rightarrow> ((string \<rightharpoonup> 'd) \<Rightarrow> string list) \<Rightarrow>
   string \<Rightarrow> HedgePlanLeg list \<Rightarrow> 'x list \<Rightarrow> 'd Service \<Rightarrow> SubmitHedgePlanResponse option \<times> 'x list \<times> 'd Service" where
  "SubmitHedgePlan L X pd order planID0 legs execs s =
     (let (planID, s1) = (if planID0 = [] then (let (u, s') = svc_uuid s in (''plan-'' @ u, s')) else (planID0, s)) in
      case proposed_notionals (lib_dec L) legs Map.empty of None \<Rightarrow> (None, execs, s1)
      | Some proposed \<Rightarrow>
          (let (check, s2) = plan_check L proposed (order proposed) s1 in
           case check of
             None \<Rightarrow> (None, execs, s2)
           | Some (Some reason) \<Rightarrow>
               (Some \<lparr>pl_PlanId = planID, pl_Rejected = True, pl_RejectReason = reason, pl_Results = []\<rparr>, execs, s2)
           | Some None \<Rightarrow>
               (let (results, execs1, s3) = execute_legs L X pd planID legs [] execs s2
                in (case results of None \<Rightarrow> (None, execs1, s3)
                    | Some rs \<Rightarrow> (Some \<lparr>pl_PlanId = planID, pl_Rejected = False, pl_RejectReason = [], pl_Results = rs\<rparr>,
                                 execs1, s3)))))"

section \<open>What a leg does to the books\<close>

lemma leg_samples_store: "\<exists>xs. snd (leg_samples D ccy q fs slip st) = st\<lparr>st_samples := st_samples st @ xs\<rparr>"
proof (induction fs arbitrary: slip st)
  case Nil
  show ?case by (rule exI [of _ "[]"]) simp
next
  case (Cons f fs)
  let ?slip = "if q \<noteq> 0 then InexactFloat64 D (DivRound D (fl_Price f - q) q * of_int 10000) else slip"
  let ?sm = "\<lparr>ss_Pair = ccy @ ''USD'', ss_QuotedRate = q, ss_ExecutedRate = fl_Price f, ss_SlippageBPS = ?slip,
    ss_Timestamp = fl_Timestamp f\<rparr>"
  from Cons [of ?slip "AddSlippageSample st ?sm"] obtain xs where
    "snd (leg_samples D ccy q fs ?slip (AddSlippageSample st ?sm)) =
     (AddSlippageSample st ?sm)\<lparr>st_samples := st_samples (AddSlippageSample st ?sm) @ xs\<rparr>" by blast
  then show ?case by (intro exI [of _ "?sm # xs"]) (simp add: Let_def AddSlippageSample_def)
qed

lemma book_leg_books:
  assumes "book_leg L ccy h fills s = (res, s')"
  shows "\<exists>h2 xs now. h_ID h2 = h_ID h \<and> h_Currency h2 = h_Currency h \<and> h_Notional h2 = h_Notional h \<and>
    h_Tenor h2 = h_Tenor h \<and> h_Type h2 = h_Type h \<and> h_ClientRequestID h2 = h_ClientRequestID h \<and> h_Fills h2 = fills \<and>
    h_Status h2 = StatusExecuted \<and> same_books s (s'\<lparr>sv_Store := sv_Store s, sv_Tracker := sv_Tracker s\<rparr>) \<and>
    sv_Store s' = Store.CreateHedge ((sv_Store s)\<lparr>st_samples := st_samples (sv_Store s) @ xs\<rparr>) h2 \<and>
    sv_Tracker s' = AddCoverage now (sv_Tracker s) ccy (h_Notional h)"
proof -
  obtain xs where xs: "snd (leg_samples (lib_dec L) ccy (h_QuotedRate h) fills f_zero (sv_Store s)) =
      (sv_Store s)\<lparr>st_samples := st_samples (sv_Store s) @ xs\<rparr>"
    using leg_samples_store by blast
  define slip where "slip = fst (leg_samples (lib_dec L) ccy (h_QuotedRate h) fills f_zero (sv_Store s))"
  define n2 where "n2 = svc_now (s\<lparr>sv_Store := (sv_Store s)\<lparr>st_samples := st_samples (sv_Store s) @ xs\<rparr>\<rparr>)"
  define h2 where "h2 = h\<lparr>h_Fills := fills, h_Status := StatusExecuted, h_SlippageBPS := slip, h_UpdatedAt := fst n2\<rparr>"
  define n3 where "n3 = svc_now ((snd n2)\<lparr>sv_Store := Store.CreateHedge (sv_Store (snd n2)) h2\<rparr>)"
  have s': "s' = (snd n3)\<lparr>sv_Tracker := AddCoverage (fst n3) (sv_Tracker (snd n3)) ccy (h_Notional h2)\<rparr>"
    using assms xs by (simp add: book_leg_def Let_def case_prod_beta slip_def n2_def h2_def n3_def)
  show ?thesis
    by (intro exI [of _ h2] exI [of _ xs] exI [of _ "fst n3"]) (simp add: s' n3_def n2_def h2_def same_books_def)
qed

text \<open>What the fields of a hedge promise: a positive notional, a tenor and a type of the enumerations.\<close>

definition typed_hedge :: "'d::linordered_idom Hedge \<Rightarrow> bool" where
  "typed_hedge h \<longleftrightarrow> 0 < h_Notional h \<and> IsValidTenor (h_Tenor h) \<and> IsValidHedgeType (h_Type h)"

definition leg_outcome :: "string \<Rightarrow> string \<Rightarrow> 'd::linordered_idom Service \<Rightarrow> HedgePlanLegResult option \<Rightarrow> 'd Service \<Rightarrow> bool" where
  "leg_outcome ccy i s r s' \<longleftrightarrow>
     sv_Policy s' = sv_Policy s \<and> sv_Provider s' = sv_Provider s \<and> sv_Cache s' = sv_Cache s \<and>
     (sv_Store s' = sv_Store s \<and> sv_Tracker s' = sv_Tracker s \<or>
      (\<exists>h. h_ID h = i \<and> h_Currency h = ccy \<and> typed_hedge h \<and> unused_request (sv_Store s) (h_ClientRequestID h) \<and> h_Status h = StatusFailed \<and>
         sv_Store s' = Store.CreateHedge (sv_Store s) h \<and> sv_Tracker s' = sv_Tracker s) \<or>
      (\<exists>h xs now. h_ID h = i \<and> h_Currency h = ccy \<and> typed_hedge h \<and> unused_request (sv_Store s) (h_ClientRequestID h) \<and> h_Status h = StatusExecuted \<and> r \<noteq> None \<and>
         sv_Store s' = Store.CreateHedge ((sv_Store s)\<lparr>st_samples := st_samples (sv_Store s) @ xs\<rparr>) h \<and>
         sv_Tracker s' = AddCoverage now (sv_Tracker s) ccy (h_Notional h)))"

lemma route_leg_outcome:
  assumes "route_leg L X ccy h execs s = (r, execs', s')" and "h_Currency h = ccy" and "typed_hedge h"
    and "unused_request (sv_Store s) (h_ClientRequestID h)"
  shows "leg_outcome ccy (h_ID h) s r s'"
proof -
  obtain out h1 execs1 w where ro: "RouteAndExecute (lib_dec L) X execs h (sv_world s) = (out, h1, execs1, w)"
    by (metis prod_cases4)
  then obtain rate where h1: "h1 = h\<lparr>h_QuotedRate := rate\<rparr>" using RouteAndExecute_hedge by blast
  show ?thesis
  proof (cases out)
    case None
    with assms ro show ?thesis by (auto simp: route_leg_def leg_outcome_def)
  next
    case (Some o1)
    obtain fills err where o1: "o1 = (fills, err)" by fastforce
    show ?thesis
    proof (cases err)
      case (Some e)
      with assms ro h1 \<open>out = Some o1\<close> o1
      have "s' = s\<lparr>sv_world := w, sv_Store := Store.CreateHedge (sv_Store s) (h1\<lparr>h_Status := StatusFailed\<rparr>)\<rparr>"
        by (auto simp: route_leg_def Let_def)
      then show ?thesis
        unfolding leg_outcome_def using assms(2-4) h1
        by (intro conjI disjI2 disjI1 exI [of _ "h1\<lparr>h_Status := StatusFailed\<rparr>"]) (simp_all add: typed_hedge_def)
    next
      case None
      obtain res s2 where bl: "book_leg L ccy h1 fills (s\<lparr>sv_world := w\<rparr>) = (res, s2)" by fastforce
      with None assms(1) ro \<open>out = Some o1\<close> o1 have r: "r = Some res" "s' = s2" by (auto simp: route_leg_def Let_def)
      from book_leg_books [OF bl] obtain h2 xs now where
        "h_ID h2 = h_ID h" "h_Currency h2 = ccy" "h_Status h2 = StatusExecuted" "h_Notional h2 = h_Notional h1"
        "h_Tenor h2 = h_Tenor h1" "h_Type h2 = h_Type h1" "h_ClientRequestID h2 = h_ClientRequestID h"
        "sv_Store s2 = Store.CreateHedge ((sv_Store s)\<lparr>st_samples := st_samples (sv_Store s) @ xs\<rparr>) h2"
        "sv_Tracker s2 = AddCoverage now (sv_Tracker s) ccy (h_Notional h1)"
        "sv_Policy s2 = sv_Policy s" "sv_Provider s2 = sv_Provider s" "sv_Cache s2 = sv_Cache s"
        using h1 assms(2) by (auto simp: same_books_def)
      then show ?thesis
        unfolding leg_outcome_def r using assms(3,4) h1
        by (intro conjI disjI2 exI [of _ h2] exI [of _ xs] exI [of _ now]) (simp_all add: typed_hedge_def)
    qed
  qed
qed

lemma leg_outcome_books:
  assumes "leg_outcome ccy i s1 r s'" and "same_books s s1"
  shows "leg_outcome ccy i s r s'"
  using assms unfolding leg_outcome_def same_books_def by simp

lemma leg_outcome_cases:
  assumes "leg_outcome ccy i s r s'"
  obtains (same) "sv_Store s' = sv_Store s" "sv_Tracker s' = sv_Tracker s"
  | (new) h xs now where "h_ID h = i" "h_Currency h = ccy" "typed_hedge h" "unused_request (sv_Store s) (h_ClientRequestID h)"
      "sv_Store s' = Store.CreateHedge ((sv_Store s)\<lparr>st_samples := st_samples (sv_Store s) @ xs\<rparr>) h"
      "h_Status h = StatusFailed \<and> sv_Tracker s' = sv_Tracker s \<or>
       h_Status h = StatusExecuted \<and> sv_Tracker s' = AddCoverage now (sv_Tracker s) ccy (h_Notional h)"
proof -
  from assms consider "sv_Store s' = sv_Store s" "sv_Tracker s' = sv_Tracker s"
    | h where "h_ID h = i" "h_Currency h = ccy" "typed_hedge h" "unused_request (sv_Store s) (h_ClientRequestID h)"
        "h_Status h = StatusFailed" "sv_Store s' = Store.CreateHedge (sv_Store s) h" "sv_Tracker s' = sv_Tracker s"
    | h xs now where "h_ID h = i" "h_Currency h = ccy" "typed_hedge h" "unused_request (sv_Store s) (h_ClientRequestID h)"
        "h_Status h = StatusExecuted" "sv_Store s' = Store.CreateHedge ((sv_Store s)\<lparr>st_samples := st_samples (sv_Store s) @ xs\<rparr>) h"
        "sv_Tracker s' = AddCoverage now (sv_Tracker s) ccy (h_Notional h)"
    unfolding leg_outcome_def by blast
  then show thesis
  proof cases
    case (2 h)
    then show thesis using new [of h "[]" 0] by simp
  qed (use same new in \<open>blast+\<close>)
qed

lemma leg_outcome_nothing: "same_books s s' \<Longrightarrow> leg_outcome ccy i s r s'"
  unfolding leg_outcome_def same_books_def by simp

lemma executeLeg_outcome:
  assumes "executeLeg L X pd planID leg execs s = (r, execs', s')"
  shows "leg_outcome (leg_Currency leg) (next_id s) s r s'"
proof -
  let ?ccy = "leg_Currency leg"
  define s4 where "s4 = snd (svc_now (snd (svc_now (snd (svc_uuid (snd (svc_uuid s)))))))"
  define s5 where "s5 = snd (svc_GetExposure ?ccy s4)"
  have b: "same_books s s4" "same_books s s5"
    by (simp_all add: s5_def s4_def same_books_def svc_GetExposure_def case_prod_beta)
  have i: "fst (svc_uuid s) = next_id s" by (simp add: svc_uuid_def next_id_def case_prod_beta)
  have "same_books s s' \<or> (\<exists>h. route_leg L X ?ccy h execs s5 = (r, execs', s') \<and> h_Currency h = ?ccy \<and> typed_hedge h \<and>
      unused_request (sv_Store s5) (h_ClientRequestID h) \<and> h_ID h = next_id s)"
    using assms b
    by (auto simp: executeLeg_def Let_def case_prod_beta s5_def [symmetric] s4_def [symmetric] leg_hedge_def typed_hedge_def unused_request_def same_books_def i
        split: if_splits option.splits)
  then show ?thesis
    using leg_outcome_nothing leg_outcome_books [OF route_leg_outcome b(2)] by (metis (no_types, lifting))
qed

section \<open>Progress of the world\<close>

lemma later_book_leg: "later s0 s \<Longrightarrow> later s0 (snd (book_leg L ccy h fills s))"
  by (simp add: book_leg_def Let_def case_prod_beta later_rules)

context orderly_executor
begin

lemma later_route_leg:
  assumes "later s0 s"
  shows "later s0 (snd (snd (route_leg L X ccy h execs s)))"
proof -
  obtain out h1 execs1 w where ro: "RouteAndExecute (lib_dec L) X execs h (sv_world s) = (out, h1, execs1, w)"
    by (metis prod_cases4)
  have "later s0 (s\<lparr>sv_world := w\<rparr>)"
    using assms route_later [of "sv_world s0" "sv_world s" "lib_dec L" execs h] ro by (simp add: later_def)
  then show ?thesis
    by (auto simp: route_leg_def ro Let_def case_prod_beta later_rules later_book_leg split: option.splits)
qed

lemma executeLeg_later:
  assumes "executeLeg L X pd planID leg execs s = (r, execs', s')"
  shows "later s s' \<and> (same_books s s' \<or> w_ids (sv_world s) < w_ids (sv_world s'))"
proof -
  let ?ccy = "leg_Currency leg"
  define s1 where "s1 = snd (svc_uuid s)"
  define s4 where "s4 = snd (svc_now (snd (svc_now (snd (svc_uuid s1)))))"
  define s5 where "s5 = snd (svc_GetExposure ?ccy s4)"
  have l: "later s s1" "later s1 s4" "later s1 s5" by (simp_all add: s5_def s4_def s1_def later_rules)
  have b: "same_books s s4" "same_books s s5"
    by (simp_all add: s5_def s4_def s1_def same_books_def svc_GetExposure_def case_prod_beta)
  have ids: "w_ids (sv_world s) < w_ids (sv_world s1)" by (simp add: s1_def svc_uuid_def case_prod_beta)
  have "later s s' \<and> same_books s s' \<or> (\<exists>h. route_leg L X ?ccy h execs s5 = (r, execs', s'))"
    using assms b later_trans [OF l(1) l(2)] later_trans [OF l(1) l(3)]
    by (auto simp: executeLeg_def Let_def case_prod_beta s5_def [symmetric] s4_def [symmetric] s1_def [symmetric]
        split: if_splits option.splits)
  moreover have "later s1 s'" if "route_leg L X ?ccy h execs s5 = (r, execs', s')" for h
    using later_route_leg [OF l(3), of L ?ccy h execs] that by simp
  ultimately show ?thesis
    using ids later_trans [OF l(1)] later_simps(2) by (metis less_le_trans)
qed

end

lemma plan_check_books: "same_books s (snd (plan_check L proposed ccys s)) \<and> later s (snd (plan_check L proposed ccys s)) \<and>
  w_sent (sv_world (snd (plan_check L proposed ccys s))) = w_sent (sv_world s)"
proof (induction ccys arbitrary: s)
  case (Cons ccy ccys)
  let ?s1 = "snd (svc_GetExposure ccy s)"
  have b: "same_books s ?s1" "later s ?s1" "w_sent (sv_world ?s1) = w_sent (sv_world s)"
    by (simp_all add: svc_GetExposure_def svc_now_def case_prod_beta same_books_def later_def world_later_actions)
  with Cons [of ?s1] show ?case
    by (auto simp: Let_def case_prod_beta intro: same_books_trans later_trans split: option.splits)
qed simp

text \<open>C40. A hedge plan that is rejected for a cap has no effect: no leg is executed, nothing is stored, the
  exposures and the coverage stay as they were, the executors are untouched and no request leaves
  the service.\<close>

theorem rejected_plan_no_effect:
  assumes "SubmitHedgePlan L X pd order planID legs execs s = (Some resp, execs', s')" and "pl_Rejected resp"
  shows "same_books s s' \<and> execs' = execs \<and> w_sent (sv_world s') = w_sent (sv_world s) \<and> pl_Results resp = []"
proof -
  define s1 where "s1 = (if planID = [] then snd (svc_uuid s) else s)"
  have b: "same_books s s1" "w_sent (sv_world s1) = w_sent (sv_world s)"
    by (simp_all add: s1_def same_books_def svc_uuid_def case_prod_beta)
  from assms obtain proposed where "proposed_notionals (lib_dec L) legs Map.empty = Some proposed"
    and e: "execs' = execs" "s' = snd (plan_check L proposed (order proposed) s1)" "pl_Results resp = []"
    by (auto simp: SubmitHedgePlan_def Let_def case_prod_beta s1_def split: option.splits if_splits)
  with b plan_check_books [of s1 L proposed "order proposed"] show ?thesis
    by (auto intro: same_books_trans)
qed

definition sample_leg :: HedgePlanLeg where
  "sample_leg = \<lparr>leg_Currency = ''EUR'', leg_Notional = Fin 2000000, leg_Tenor = [], leg_Type = [], leg_ValueDate = []\<rparr>"

lemma sample_plan_rejected:
  "\<exists>resp s'. SubmitHedgePlan sample_libs depth_executors (\<lambda>_. None) (\<lambda>_. [''EUR'']) ''p'' [sample_leg] [30] sample_service =
     (Some resp, [30], s') \<and> pl_Rejected resp"
proof -
  have n: "NewFromFloat rat_decimal (Fin 2000000) = Some 2000000" "NewFromFloat rat_decimal (Fin 1000000) = Some 1000000"
    by (simp_all add: rat_decimal_def, code_simp+)
  have "fst (svc_GetExposure ''EUR'' sample_service) = None"
    by (simp add: svc_GetExposure_def case_prod_beta Tracker.GetExposure_def tracker_New_def)
  then show ?thesis
    by (simp add: SubmitHedgePlan_def sample_leg_def sample_libs_def case_prod_beta Let_def n)
      (simp add: svc_GetExposure_def case_prod_beta n)
qed

theorem rejected_plan_no_effect_witness:
  "\<exists>resp s'. SubmitHedgePlan sample_libs depth_executors (\<lambda>_. None) (\<lambda>_. [''EUR'']) ''p'' [sample_leg] [30] sample_service =
     (Some resp, [30], s') \<and> pl_Rejected resp \<and> same_books sample_service s' \<and> w_sent (sv_world s') = []"
proof -
  obtain resp s' where r: "SubmitHedgePlan sample_libs depth_executors (\<lambda>_. None) (\<lambda>_. [''EUR'']) ''p'' [sample_leg] [30] sample_service =
     (Some resp, [30], s')" "pl_Rejected resp"
    using sample_plan_rejected by blast
  moreover have "w_sent (sv_world sample_service) = []" by (simp add: failing_world_def)
  ultimately show ?thesis using rejected_plan_no_effect [OF r] by auto
qed

end
