(* ===== verification/Ledger.thy ===== *)
theory Ledger
  imports HedgeFlow Views Grpc
begin

text \<open>
  The books of the service over whole histories of REST and gRPC requests: the invariant of the store, the
  freshness of the ids, and the agreement of the coverage of the tracker with the hedges of the
  store. The two front ends share one state, so a history is a list of requests of both kinds.
\<close>

section \<open>The executed notional\<close>

text \<open>What a hedge counts for the coverage of a currency, and the total of a store.\<close>

definition weight :: "string \<Rightarrow> 'd::linordered_idom Hedge \<Rightarrow> 'd" where
  "weight c h = (if h_Currency h = c \<and> h_Status h = StatusExecuted then h_Notional h else 0)"

definition executed_total :: "'d::linordered_idom memstore \<Rightarrow> string \<Rightarrow> 'd" where
  "executed_total st c = (\<Sum>(i, h)\<leftarrow>st_hedges st. weight c h)"

lemma sum_update:
  fixes g :: "'v \<Rightarrow> 'd::linordered_idom"
  shows "distinct (map fst xs) \<Longrightarrow>
    (\<Sum>(i, h)\<leftarrow>AList.update k v xs. g h) =
    (\<Sum>(i, h)\<leftarrow>xs. g h) + g v - (case map_of xs k of None \<Rightarrow> 0 | Some v0 \<Rightarrow> g v0)"
  by (induction xs) (auto split: option.splits)

lemma executed_total_create:
  assumes "store_inv st" and "map_of (st_hedges st) (h_ID h) = None"
  shows "executed_total (Store.CreateHedge st h) c = executed_total st c + weight c h"
  using assms sum_update [where xs = "st_hedges st" and k = "h_ID h" and v = h and g = "weight c"]
  by (simp add: executed_total_def Store.CreateHedge_def store_inv_def keys_inv_def)

lemma executed_total_update:
  assumes "store_inv st" and "map_of (st_hedges st) i = Some h"
  shows "executed_total (snd (UpdateHedge st i fn)) c = executed_total st c + weight c (fst (fn h)) - weight c h"
proof -
  have "st_hedges (snd (UpdateHedge st i fn)) = AList.update i (fst (fn h)) (st_hedges st)"
    using assms(2) by (simp add: UpdateHedge_def Let_def case_prod_beta split: option.splits)
  with assms sum_update [where xs = "st_hedges st" and k = i and v = "fst (fn h)" and g = "weight c"] show ?thesis
    by (simp add: executed_total_def store_inv_def keys_inv_def)
qed

lemma executed_total_append [simp]:
  "executed_total (AddSlippageSample st sm) = executed_total st" "executed_total (AddPnL st row) = executed_total st"
  "executed_total (st\<lparr>st_samples := sms\<rparr>) = executed_total st"
  by (simp_all add: executed_total_def fun_eq_iff)

lemma store_inv_samples [simp]: "store_inv (st\<lparr>st_samples := sms\<rparr>) = store_inv st"
  by (simp add: inv_defs)

lemma store_keys:
  "fst ` set (st_hedges (Store.CreateHedge st h)) = insert (h_ID h) (fst ` set (st_hedges st))"
  "fst ` set (st_hedges (snd (UpdateHedge st i fn))) = fst ` set (st_hedges st)"
proof -
  have dom: "fst ` set (AList.update k v xs) = insert k (fst ` set xs)" for k v and xs :: "(string \<times> 'd Hedge) list"
    by (metis dom_map_of_conv_image_fst map_of_update dom_fun_upd option.distinct(1))
  show "fst ` set (st_hedges (Store.CreateHedge st h)) = insert (h_ID h) (fst ` set (st_hedges st))"
    by (simp add: Store.CreateHedge_def dom)
  show "fst ` set (st_hedges (snd (UpdateHedge st i fn))) = fst ` set (st_hedges st)"
  proof (cases "map_of (st_hedges st) i")
    case (Some h)
    then have "i \<in> fst ` set (st_hedges st)" by (metis domI dom_map_of_conv_image_fst)
    with Some show ?thesis
      by (auto simp: UpdateHedge_def Let_def case_prod_beta dom split: option.splits)
  qed (simp add: UpdateHedge_def)
qed

text \<open>A property of all stored hedges, and how the operations of the store keep it.\<close>

definition all_hedges :: "('d Hedge \<Rightarrow> bool) \<Rightarrow> 'd memstore \<Rightarrow> bool" where
  "all_hedges P st \<longleftrightarrow> (\<forall>h\<in>snd ` set (st_hedges st). P h)"

lemma update_values: "x \<in> snd ` set (AList.update k v xs) \<Longrightarrow> x = v \<or> x \<in> snd ` set xs"
  by (induction xs) (auto split: if_splits)

lemma all_hedges_create:
  assumes "all_hedges P st" and "P h"
  shows "all_hedges P (Store.CreateHedge st h)"
proof -
  have "st_hedges (Store.CreateHedge st h) = AList.update (h_ID h) h (st_hedges st)" by (simp add: Store.CreateHedge_def)
  with assms show ?thesis unfolding all_hedges_def by (metis update_values)
qed

lemma all_hedges_append [simp]:
  "all_hedges P (AddSlippageSample st sm) = all_hedges P st" "all_hedges P (AddPnL st row) = all_hedges P st"
  "all_hedges P (st\<lparr>st_samples := sms\<rparr>) = all_hedges P st"
  by (simp_all add: all_hedges_def)

lemma all_hedges_executed:
  assumes "all_hedges P st" and "P (executed_hedge fills slip pnl now h)"
  shows "all_hedges P (executed_store (h_ID h) sm fills slip pnl now (Store.CreateHedge st h))"
proof -
  let ?h = "executed_hedge fills slip pnl now h"
  have "st_hedges (executed_store (h_ID h) sm fills slip pnl now (Store.CreateHedge st h)) = AList.update (h_ID h) ?h (st_hedges st)"
    by (simp add: executed_store_def UpdateHedge_def Store.CreateHedge_def Let_def)
  with assms show ?thesis unfolding all_hedges_def by (metis update_values)
qed

text \<open>A hedge at rest was executed or has failed.\<close>

definition at_rest :: "'d Hedge \<Rightarrow> bool" where
  "at_rest h \<longleftrightarrow> h_Status h = StatusExecuted \<or> h_Status h = StatusFailed"

lemma executed_total_nonneg:
  assumes "all_hedges typed_hedge st"
  shows "0 \<le> executed_total st c"
proof -
  have "0 \<le> (\<Sum>(i, h)\<leftarrow>xs. weight c h)" if "\<forall>h\<in>snd ` set xs. typed_hedge h" for xs :: "(string \<times> 'a Hedge) list"
    using that by (induction xs) (auto simp: weight_def typed_hedge_def)
  then show ?thesis using assms by (simp add: all_hedges_def executed_total_def)
qed

section \<open>The invariant of the books\<close>

text \<open>\<open>sound_books\<close> holds in every reachable state; \<open>balanced\<close> is the agreement of tracker and store, with
  every hedge at rest, which a panic between the updates of a handler can break.\<close>

definition finite_tracker :: "'d tracker \<Rightarrow> bool" where
  "finite_tracker t \<longleftrightarrow> finite (dom (tr_net t)) \<and> finite (dom (tr_coverage t))"

definition sound_books :: "'d::linordered_idom Service \<Rightarrow> bool" where
  "sound_books s \<longleftrightarrow> store_inv (sv_Store s) \<and> all_hedges typed_hedge (sv_Store s) \<and> issued s \<and> finite_tracker (sv_Tracker s)"

definition balanced :: "'d::linordered_idom Service \<Rightarrow> bool" where
  "balanced s \<longleftrightarrow> (\<forall>c. cov_of (sv_Tracker s) c = executed_total (sv_Store s) c) \<and> all_hedges at_rest (sv_Store s)"

lemma finite_tracker_ops [simp]:
  "finite_tracker (AddCoverage now t c x) = finite_tracker t"
  "finite_tracker (Tracker.AddExposure now t c x) = finite_tracker t"
  "finite_tracker (flow_tracker now c rq t) = finite_tracker t"
  by (simp_all add: finite_tracker_def flow_tracker_def AddEvent_def)

lemma sound_books_same:
  "sound_books s \<Longrightarrow> later s s' \<Longrightarrow> sv_Store s' = sv_Store s \<Longrightarrow> finite_tracker (sv_Tracker s') = finite_tracker (sv_Tracker s) \<Longrightarrow>
   sound_books s'"
  using issued_later [of s s'] by (simp add: sound_books_def)

lemma sound_books_create:
  assumes "sound_books s" and "later s s'" and "w_ids (sv_world s) < w_ids (sv_world s')"
    and "h_ID h = next_id s" and "finite_tracker (sv_Tracker s') = finite_tracker (sv_Tracker s)" and "store_inv (sv_Store s')"
    and "all_hedges typed_hedge (sv_Store s')"
    and "fst ` set (st_hedges (sv_Store s')) = insert (h_ID h) (fst ` set (st_hedges (sv_Store s)))"
  shows "sound_books s'"
  using assms issued_next [of s s'] by (simp add: sound_books_def)

lemma executed_keeps_keys: "keeps_keys (\<lambda>h. (executed_hedge fills slip pnl now h, None))"
  by (simp add: keeps_keys_def executed_hedge_def)

lemma executed_store_facts:
  assumes "store_inv st" and "map_of (st_hedges st) i = Some h" and "h_Status h \<noteq> StatusExecuted"
  shows "store_inv (executed_store i sm fills slip pnl now st)"
    and "fst ` set (st_hedges (executed_store i sm fills slip pnl now st)) = fst ` set (st_hedges st)"
    and "executed_total (executed_store i sm fills slip pnl now st) c =
      executed_total st c + (if h_Currency h = c then h_Notional h else 0)"
proof -
  have inv: "store_inv (AddSlippageSample st sm)" using assms(1) by simp
  show "store_inv (executed_store i sm fills slip pnl now st)"
    unfolding executed_store_def by (rule UpdateHedge_inv [OF inv executed_keeps_keys])
  show "fst ` set (st_hedges (executed_store i sm fills slip pnl now st)) = fst ` set (st_hedges st)"
    by (simp add: executed_store_def store_keys)
  show "executed_total (executed_store i sm fills slip pnl now st) c =
      executed_total st c + (if h_Currency h = c then h_Notional h else 0)"
    unfolding executed_store_def
    by (subst executed_total_update [OF inv, of i h]) (use assms(2,3) in \<open>simp_all add: weight_def executed_hedge_def\<close>)
qed

section \<open>The effect of one request\<close>

lemma started_typed: "started rq c s x h \<Longrightarrow> typed_request rq \<Longrightarrow> typed_hedge h"
  by (simp add: started_def typed_request_def typed_hedge_def)

text \<open>A hedge with the next id enters the store.\<close>

lemma created_facts:
  assumes "sound_books s" and "h_ID h = next_id s"
  shows "store_inv (Store.CreateHedge (sv_Store s) h)" and "map_of (st_hedges (Store.CreateHedge (sv_Store s) h)) (h_ID h) = Some h"
    and "executed_total (Store.CreateHedge (sv_Store s) h) c = executed_total (sv_Store s) c + weight c h"
proof -
  have inv: "store_inv (sv_Store s)" and fresh: "map_of (st_hedges (sv_Store s)) (next_id s) = None"
    using assms(1) next_id_fresh by (auto simp: sound_books_def)
  then show "store_inv (Store.CreateHedge (sv_Store s) h)" "map_of (st_hedges (Store.CreateHedge (sv_Store s) h)) (h_ID h) = Some h"
    "executed_total (Store.CreateHedge (sv_Store s) h) c = executed_total (sv_Store s) c + weight c h"
    using assms(2) CreateHedge_inv [OF inv, of h] executed_total_create [OF inv, of h c]
    by (simp_all add: Store.CreateHedge_def)
qed

lemma stored_keeps:
  assumes "sound_books s" and "later s s'" and "w_ids (sv_world s) < w_ids (sv_world s')"
    and "h_ID h = next_id s" and "typed_hedge h" and "sv_Store s' = Store.CreateHedge (sv_Store s) h" and "sv_Tracker s' = sv_Tracker s"
  shows "sound_books s'" and "h_Status h = StatusFailed \<Longrightarrow> balanced s \<Longrightarrow> balanced s'"
proof -
  have inv: "all_hedges typed_hedge (sv_Store s)" using assms(1) by (simp add: sound_books_def)
  note created = created_facts [OF assms(1,4)]
  show "sound_books s'"
    using assms(6,7) created(1) all_hedges_create [OF inv assms(5)] sound_books_create [OF assms(1-4)] by (simp add: store_keys)
  assume "h_Status h = StatusFailed" "balanced s"
  then show "balanced s'"
    using assms(6,7) created(3) all_hedges_create [of at_rest "sv_Store s" h] by (auto simp: balanced_def weight_def at_rest_def)
qed

lemma filled_keeps:
  assumes "sound_books s" and "later s s'" and "w_ids (sv_world s) < w_ids (sv_world s')"
    and "h_ID h = next_id s" and "typed_hedge h" and "h_Status h = StatusExecuting" and "fl_Amount f = h_Notional h"
    and "execution_done h f (Store.CreateHedge (sv_Store s) h) (sv_Tracker s) r s'"
  shows "sound_books s'" and "r \<noteq> None \<Longrightarrow> balanced s \<Longrightarrow> balanced s'"
proof -
  let ?st = "Store.CreateHedge (sv_Store s) h" and ?c = "h_Currency h"
  from assms(8) obtain slip now sm pnl where
    e: "r = None \<and> sv_Tracker s' = sv_Tracker s \<and> sv_Store s' = executed_store (h_ID h) sm [f] slip pnl now ?st \<or>
      (\<exists>row now'. sv_Tracker s' = AddCoverage now' (sv_Tracker s) ?c (fl_Amount f) \<and>
         sv_Store s' = AddPnL (executed_store (h_ID h) sm [f] slip pnl now ?st) row)"
    unfolding execution_done_def by metis
  note created = created_facts [OF assms(1,4)]
  note ex = executed_store_facts [OF created(1,2), of sm "[f]" slip pnl now]
  have inv: "all_hedges typed_hedge (sv_Store s)" using assms(1) by (simp add: sound_books_def)
  have "typed_hedge (executed_hedge [f] slip pnl now h)" using assms(5) by (simp add: typed_hedge_def executed_hedge_def)
  note ty = all_hedges_executed [of typed_hedge, OF inv this, where sm = sm]
  have st: "store_inv (sv_Store s')" "fst ` set (st_hedges (sv_Store s')) = insert (h_ID h) (fst ` set (st_hedges (sv_Store s)))"
    "all_hedges typed_hedge (sv_Store s')"
    using e ex(1,2) ty assms(6) by (elim disjE exE; simp add: store_keys)+
  have "finite_tracker (sv_Tracker s') = finite_tracker (sv_Tracker s)" using e by (elim disjE exE) simp_all
  then show "sound_books s'" using sound_books_create [OF assms(1-4) _ st(1,3,2)] by blast
  assume that: "r \<noteq> None" "balanced s"
  from e that(1) obtain row now' where t: "sv_Tracker s' = AddCoverage now' (sv_Tracker s) ?c (h_Notional h)"
    and st': "sv_Store s' = AddPnL (executed_store (h_ID h) sm [f] slip pnl now ?st) row" using assms(7) by auto
  then have "executed_total (sv_Store s') c' = executed_total (sv_Store s) c' + (if ?c = c' then h_Notional h else 0)" for c'
    using ex(3) [of c'] created(3) [of c'] assms(6) by (simp add: weight_def)
  moreover have "all_hedges at_rest (sv_Store s')"
    using st' all_hedges_executed [of at_rest "sv_Store s"] that(2) by (simp add: balanced_def at_rest_def executed_hedge_def)
  ultimately show "balanced s'" using that(2) t by (simp add: balanced_def)
qed

lemma start_hedge_keeps:
  assumes "start_hedge L c rq s = (r, s')" and "sound_books s" and "typed_request rq"
  shows "sound_books s' \<and> (r \<noteq> None \<and> balanced s \<longrightarrow> balanced s')"
proof -
  have later: "later s s'" "w_ids (sv_world s) < w_ids (sv_world s')"
    using start_hedge_later [OF assms(1)] by simp_all
  from start_hedge_books [OF assms(1)] have "hedge_outcome rq c s r s'" by simp
  then consider (panic) "r = None" "sv_Store s' = sv_Store s" "sv_Tracker s' = sv_Tracker s"
    | (stored) x h where "started rq c s x h" "x = StatusFailed \<or> x = StatusExecuting \<and> r = None"
        "sv_Store s' = Store.CreateHedge (sv_Store s) h" "sv_Tracker s' = sv_Tracker s"
    | (filled) h f where "started rq c s StatusExecuting h" "fl_Amount f = cr_Notional rq"
        "execution_done h f (Store.CreateHedge (sv_Store s) h) (sv_Tracker s) r s'"
    unfolding hedge_outcome_def by blast
  then show ?thesis
  proof cases
    case panic
    with sound_books_same [OF assms(2) later(1)] show ?thesis by simp
  next
    case (stored x h)
    then have "h_ID h = next_id s" "h_Status h = x" "typed_hedge h"
      using started_typed [OF _ assms(3)] by (auto simp: started_def)
    with stored(2) stored_keeps [OF assms(2) later _ _ stored(3,4)] show ?thesis by blast
  next
    case (filled h f)
    then have "h_ID h = next_id s" "h_Notional h = cr_Notional rq" "h_Status h = StatusExecuting" "typed_hedge h"
      using started_typed [OF _ assms(3)] by (auto simp: started_def)
    with filled(2) filled_keeps [OF assms(2) later _ _ _ _ filled(3)] show ?thesis by simp
  qed
qed

lemma CreateHedge_keeps:
  assumes "CreateHedge L body s = (r, s')" and "sound_books s"
  shows "sound_books s' \<and> (r \<noteq> None \<and> balanced s \<longrightarrow> balanced s')"
  using CreateHedge_cases [OF assms(1)] start_hedge_keeps [OF _ assms(2)] assms(2) by blast

lemma AddExposure_keeps:
  assumes "AddExposure L path body s = (r, s')" and "sound_books s"
  shows "sound_books s' \<and> (balanced s \<longrightarrow> balanced s')"
proof -
  have "later s s'" using AddExposure_later [of s s L path body] assms(1) by simp
  moreover have "flow_outcome L path body s r s'" by (rule AddExposure_outcome [OF assms(1)])
  ultimately show ?thesis
    using sound_books_same [OF assms(2)] by (auto simp: flow_outcome_def balanced_def)
qed

lemma leg_keeps:
  assumes "orderly_executor X" and "executeLeg L X pd planID leg execs s = (r, execs', s')" and "sound_books s"
  shows "sound_books s' \<and> (balanced s \<longrightarrow> balanced s')"
proof -
  have later: "later s s'" "same_books s s' \<or> w_ids (sv_world s) < w_ids (sv_world s')"
    using orderly_executor.executeLeg_later [OF assms(1,2)] by simp_all
  have inv: "store_inv (sv_Store s)" and fresh: "map_of (st_hedges (sv_Store s)) (next_id s) = None"
    using assms(3) next_id_fresh by (auto simp: sound_books_def)
  show ?thesis
  proof (cases "same_books s s'")
    case True
    with sound_books_same [OF assms(3) later(1)] show ?thesis by (simp add: same_books_def balanced_def)
  next
    case False
    with later(2) have ids: "w_ids (sv_world s) < w_ids (sv_world s')" by simp
    from executeLeg_outcome [OF assms(2)] show ?thesis
    proof (cases rule: leg_outcome_cases)
      case same
      with sound_books_same [OF assms(3) later(1)] show ?thesis by (simp add: balanced_def)
    next
      case (new h xs now)
      let ?st = "(sv_Store s)\<lparr>st_samples := st_samples (sv_Store s) @ xs\<rparr>"
      have st: "store_inv ?st" "map_of (st_hedges ?st) (h_ID h) = None" using inv fresh new(1) by simp_all
      have "store_inv (sv_Store s')" and tot: "executed_total (sv_Store s') c = executed_total (sv_Store s) c + weight c h" for c
        unfolding new(5) using CreateHedge_inv [OF st(1)] executed_total_create [OF st] st(2) by simp_all
      moreover have "all_hedges typed_hedge (sv_Store s')" and rest: "all_hedges at_rest (sv_Store s) \<Longrightarrow> at_rest h \<Longrightarrow> all_hedges at_rest (sv_Store s')"
        unfolding new(5) using new(3) assms(3) all_hedges_create [of _ ?st h] by (simp_all add: sound_books_def)
      moreover have "finite_tracker (sv_Tracker s') = finite_tracker (sv_Tracker s)"
        using new(6) by (elim disjE) simp_all
      ultimately have "sound_books s'"
        using sound_books_create [OF assms(3) later(1) ids new(1)] by (simp add: new(5) store_keys)
      moreover have "balanced s'" if "balanced s"
        using that new(2,6) rest by (auto simp: balanced_def tot weight_def at_rest_def)
      ultimately show ?thesis by blast
    qed
  qed
qed

lemma legs_keep:
  assumes "orderly_executor X"
  shows "execute_legs L X pd planID legs results execs s = (r, execs', s') \<Longrightarrow> sound_books s \<Longrightarrow>
    sound_books s' \<and> (balanced s \<longrightarrow> balanced s')"
proof (induction legs arbitrary: results execs s)
  case (Cons leg legs)
  obtain r1 execs1 s1 where l: "executeLeg L X pd planID leg execs s = (r1, execs1, s1)" by (metis prod_cases3)
  from leg_keeps [OF assms l Cons.prems(2)] Cons.IH [of _ execs1 s1] Cons.prems(1) l show ?case
    by (auto split: option.splits)
qed simp

text \<open>A plan only reads up to the execution of its legs.\<close>

lemma plan_cases:
  assumes "SubmitHedgePlan L X pd order planID legs execs s = (r, execs', s')"
  obtains s2 where "same_books s s2" and "later s s2"
    and "s' = s2 \<or> (\<exists>pid rs r1 ex1. execute_legs L X pd pid legs rs execs s2 = (r1, ex1, s'))"
proof -
  define s1 where "s1 = (if planID = [] then snd (svc_uuid s) else s)"
  have b1: "same_books s s1" "later s s1" by (simp_all add: s1_def later_rules)
  show thesis
  proof (cases "proposed_notionals (lib_dec L) legs Map.empty")
    case None
    with assms have "s' = s1" by (auto simp: SubmitHedgePlan_def case_prod_beta s1_def Let_def split: if_splits)
    with b1 that show thesis by blast
  next
    case (Some proposed)
    let ?s2 = "snd (plan_check L proposed (order proposed) s1)"
    have "same_books s ?s2" "later s ?s2"
      using plan_check_books [of s1 L proposed "order proposed"] b1 same_books_trans later_trans by blast+
    moreover have "s' = ?s2 \<or> (\<exists>pid rs r1 ex1. execute_legs L X pd pid legs rs execs ?s2 = (r1, ex1, s'))"
      using assms Some
      by (auto simp: SubmitHedgePlan_def case_prod_beta s1_def Let_def split: option.splits if_splits) (metis prod.collapse)+
    ultimately show thesis by (rule that)
  qed
qed

lemma plan_keeps:
  assumes "orderly_executor X" and "SubmitHedgePlan L X pd order planID legs execs s = (r, execs', s')" and "sound_books s"
  shows "sound_books s' \<and> (balanced s \<longrightarrow> balanced s')"
proof -
  obtain s2 where s2: "same_books s s2" "later s s2"
    and run: "s' = s2 \<or> (\<exists>pid rs r1 ex1. execute_legs L X pd pid legs rs execs s2 = (r1, ex1, s'))"
    using assms(2) by (rule plan_cases)
  have "sound_books s2 \<and> (balanced s \<longrightarrow> balanced s2)"
    using sound_books_same [OF assms(3) s2(2)] s2(1) by (simp add: same_books_def balanced_def)
  with run legs_keep [OF assms(1)] show ?thesis by blast
qed

lemma later_publish_obligations: "later s0 s \<Longrightarrow> later s0 (publish_obligations L obs s) \<and> same_books s (publish_obligations L obs s)"
proof (induction obs arbitrary: s)
  case (Cons ob obs)
  let ?e = "\<lparr>ae_Type = EventSettlement, ae_HedgeID = [], ae_Currency = so_Currency ob,
    ae_Detail = ''netted settlement obligation'', ae_At = so_At ob\<rparr>"
  let ?s1 = "emit L ?e s"
  define s2 where "s2 = (case sv_ReconC ?s1 of None \<Rightarrow> ?s1
    | Some rc \<Rightarrow> (let (err, dl, w) = PublishObligation (lib_fmt L) Background rc ob (sv_DL ?s1) (sv_world ?s1)
                 in ?s1\<lparr>sv_DL := dl, sv_world := w\<rparr>))"
  have l1: "later s0 ?s1" using Cons.prems by (simp add: later_rules)
  then have "later s0 s2"
    by (auto simp: s2_def later_def case_prod_beta Let_def PublishObligation_def publish_later split: option.splits)
  moreover have "same_books s s2"
    by (auto simp: s2_def same_books_def case_prod_beta Let_def split: option.splits)
  moreover have "publish_obligations L (ob # obs) s = publish_obligations L obs s2"
    by (simp add: s2_def Let_def)
  ultimately show ?case using Cons.IH [of s2] same_books_trans by metis
qed simp

end
