(* ===== verification/History.thy ===== *)
theory History
  imports Ledger
begin

text \<open>
  Histories of requests. \<open>mux\<close> is the routing table of \<open>NewMux\<close>; a history mixes REST requests with the gRPC
  calls that work on the same state. The arguments the handlers take for what the language and the
  libraries leave open are collected in the record \<open>runtime\<close>.
\<close>

section \<open>Requests\<close>

record ('x, 'd) runtime =
  ru_libs :: "'d libs"
  ru_exec :: "('x, 'd) executor_iface"
  ru_date :: "string \<Rightarrow> time option"
  ru_time :: "string \<Rightarrow> time option"
  ru_order :: "(string \<rightharpoonup> 'd) \<Rightarrow> string list"
  ru_forder :: "(string \<rightharpoonup> float64) \<Rightarrow> string list"
  ru_porder :: "(string \<rightharpoonup> 'd PnL) \<Rightarrow> string list"
  ru_hsort :: "'d Hedge list \<Rightarrow> 'd Hedge list"
  ru_osort :: "'d SettlementObligation list \<Rightarrow> 'd SettlementObligation list"

datatype 'd rest_request =
  RHealthz | RReadyz | RListExposures | RGetExposure string | RAddExposure string "'d addExposureReq option"
| RListHedges string string | RCreateHedge "'d createHedgeReq option" | RGetHedge string
| RPnL string string | RSlippage string string string | RSettlement

fun mux :: "('x, 'd::linordered_idom) runtime \<Rightarrow> 'd rest_request \<Rightarrow> 'd Service \<Rightarrow> 'd response \<times> 'd Service" where
  "mux U RHealthz s = (Healthz, s)"
| "mux U RReadyz s = Readyz s"
| "mux U RListExposures s = ListExposures (ru_order U) s"
| "mux U (RGetExposure path) s = GetExposure path s"
| "mux U (RAddExposure path body) s = AddExposure (ru_libs U) path body s"
| "mux U (RListHedges ccy status) s = ListHedges (ru_hsort U) ccy status s"
| "mux U (RCreateHedge body) s = CreateHedge (ru_libs U) body s"
| "mux U (RGetHedge i) s = GetHedge i s"
| "mux U (RPnL from to) s = PnL_handler (ru_libs U) (ru_time U) (ru_hsort U) (ru_porder U) from to s"
| "mux U (RSlippage pair from to) s = Slippage (ru_time U) (ru_forder U) pair from to s"
| "mux U RSettlement s = Settlement_handler (ru_libs U) (ru_order U) (ru_hsort U) (ru_osort U) s"

datatype 'd request =
  Rest "'d rest_request" | CallLiveRate string | CallNetExposure string | CallHedgePlan string "HedgePlanLeg list"

text \<open>One request: whether its handler panicked, and the state after it. \<open>net/http\<close> recovers a panic and goes on serving; a panic
  of a gRPC handler would end the process, and the requests that follow it in a history are more than the program serves.\<close>

fun step ::
  "('x, 'd::linordered_idom) runtime \<Rightarrow> 'd request \<Rightarrow> 'x list \<times> 'd Service \<Rightarrow> bool \<times> 'x list \<times> 'd Service" where
  "step U (Rest rq) (execs, s) = (let (r, s') = mux U rq s in (r = None, execs, s'))"
| "step U (CallLiveRate ccy) (execs, s) = (let (r, s') = GetLiveRate ccy s in (r = None, execs, s'))"
| "step U (CallNetExposure ccy) (execs, s) =
     (let (r, s') = GetNetExposure (lib_dec (ru_libs U)) ccy s in (False, execs, s'))"
| "step U (CallHedgePlan planID legs) (execs, s) =
     (let (r, execs', s') = SubmitHedgePlan (ru_libs U) (ru_exec U) (ru_date U) (ru_order U) planID legs execs s
      in (r = None, execs', s'))"

fun run ::
  "('x, 'd::linordered_idom) runtime \<Rightarrow> 'd request list \<Rightarrow> 'x list \<times> 'd Service \<Rightarrow> bool \<times> 'x list \<times> 'd Service" where
  "run U [] st = (False, st)"
| "run U (rq # rqs) st = (let (p, st1) = step U rq st; (q, st2) = run U rqs st1 in (p \<or> q, st2))"

section \<open>The invariants hold along every history\<close>

lemma GetExposure_same: "GetExposure path s = (r, s') \<Longrightarrow> later s s' \<and> same_books s s' \<and> r \<noteq> None"
  by (auto simp: GetExposure_def Let_def case_prod_beta svc_GetExposure_eq same_books_def later_rules writeJSON_def
      split: option.splits)

lemma Settlement_same: "Settlement_handler L order hs os s = (r, s') \<Longrightarrow> later s s' \<and> same_books s s'"
  using later_publish_obligations [of s s L] by (auto simp: Settlement_handler_def Let_def split: option.splits)

lemma Slippage_same:
  "Slippage pt order a b c s = (r, s') \<Longrightarrow> later s s' \<and> sv_Store s' = sv_Store s \<and> sv_Tracker s' = sv_Tracker s \<and> sv_Cache s' = sv_Cache s"
  by (auto simp: Slippage_def Let_def later_rules split: sum.splits option.splits)

lemma GetLiveRate_same: "GetLiveRate ccy s = (r, s') \<Longrightarrow> later s s' \<and> same_books s s'"
  by (auto simp: GetLiveRate_def Let_def case_prod_beta same_books_def later_rules split: option.splits if_splits)

lemma GetNetExposure_same: "GetNetExposure D ccy s = (r, s') \<Longrightarrow> later s s' \<and> same_books s s'"
  by (auto simp: GetNetExposure_def Let_def case_prod_beta svc_GetExposure_eq same_books_def later_rules split: option.splits if_splits)

lemma reads_same:
  "ListHedges srt c st s = (r, s') \<Longrightarrow> s' = s" "GetHedge i s = (r, s') \<Longrightarrow> s' = s"
  "PnL_handler L pt hs po from to s = (r, s') \<Longrightarrow> s' = s"
  by (auto simp: ListHedges_def GetHedge_def PnL_handler_def Let_def split: option.splits sum.splits)

lemma keeps_same:
  "sound_books s \<Longrightarrow> later s s' \<Longrightarrow> sv_Store s' = sv_Store s \<Longrightarrow> sv_Tracker s' = sv_Tracker s \<Longrightarrow>
   sound_books s' \<and> (balanced s \<longrightarrow> balanced s')"
  using sound_books_same [of s s'] by (simp add: balanced_def)

lemma mux_keeps:
  assumes "mux U rq s = (r, s')" and "sound_books s"
  shows "sound_books s' \<and> (r \<noteq> None \<and> balanced s \<longrightarrow> balanced s')"
proof (cases rq)
  case (RAddExposure path body)
  with assms AddExposure_keeps show ?thesis by fastforce
next
  case (RCreateHedge body)
  with assms CreateHedge_keeps show ?thesis by fastforce
next
  case (RGetExposure path)
  with assms GetExposure_same keeps_same show ?thesis by (fastforce simp: same_books_def)
next
  case (RSlippage a b c)
  with assms Slippage_same keeps_same show ?thesis by fastforce
next
  case RSettlement
  with assms Settlement_same keeps_same show ?thesis by (fastforce simp: same_books_def)
next
  case (RListHedges c st)
  with assms reads_same(1) show ?thesis by fastforce
next
  case (RGetHedge i)
  with assms reads_same(2) show ?thesis by fastforce
next
  case (RPnL a b)
  with assms reads_same(3) show ?thesis by fastforce
qed (use assms in \<open>auto simp: Readyz_def ListExposures_def\<close>)

lemma step_keeps:
  assumes "orderly_executor (ru_exec U)" and "step U rq (execs, s) = (p, execs', s')" and "sound_books s"
  shows "sound_books s' \<and> (\<not> p \<and> balanced s \<longrightarrow> balanced s')"
proof (cases rq)
  case (Rest rest)
  then obtain r where "mux U rest s = (r, s')" and "p = (r = None)"
    using assms(2) by (auto split: prod.splits)
  with mux_keeps [OF _ assms(3)] show ?thesis by blast
next
  case (CallLiveRate ccy)
  then obtain r where "GetLiveRate ccy s = (r, s')" using assms(2) by (auto split: prod.splits)
  with GetLiveRate_same keeps_same [OF assms(3)] show ?thesis by (metis same_books_def)
next
  case (CallNetExposure ccy)
  then obtain r where "GetNetExposure (lib_dec (ru_libs U)) ccy s = (r, s')" using assms(2) by (auto split: prod.splits)
  with GetNetExposure_same keeps_same [OF assms(3)] show ?thesis by (metis same_books_def)
next
  case (CallHedgePlan planID legs)
  then obtain r where "SubmitHedgePlan (ru_libs U) (ru_exec U) (ru_date U) (ru_order U) planID legs execs s = (r, execs', s')"
    using assms(2) by (auto split: prod.splits)
  from plan_keeps [OF assms(1) this assms(3)] show ?thesis by blast
qed

lemma run_keeps:
  assumes "orderly_executor (ru_exec U)"
  shows "run U rqs (execs, s) = (p, execs', s') \<Longrightarrow> sound_books s \<Longrightarrow>
    sound_books s' \<and> (\<not> p \<and> balanced s \<longrightarrow> balanced s')"
proof (induction rqs arbitrary: execs s p)
  case (Cons rq rqs)
  obtain p1 execs1 s1 where st: "step U rq (execs, s) = (p1, execs1, s1)" by (metis prod_cases3)
  with Cons.prems(1) obtain q where rn: "run U rqs (execs1, s1) = (q, execs', s')" and "p = (p1 \<or> q)"
    by (auto split: prod.splits)
  with step_keeps [OF assms st Cons.prems(2)] Cons.IH [OF rn] show ?case by blast
qed simp

section \<open>Settlement of the books\<close>

lemma sum_key_distinct:
  fixes g :: "string \<Rightarrow> 'd::linordered_idom"
  assumes "distinct ks" and "\<And>k. k \<notin> set ks \<Longrightarrow> g k = 0"
  shows "(\<Sum>k\<leftarrow>filter (\<lambda>k. k = c) ks. g k) = g c"
  using assms filter_eq_distinct [of ks c "\<lambda>_. True"] by auto

lemma net_of_rows:
  assumes "enumerates ns (tr_net t)" and "enumerates cs (tr_coverage t)"
  shows "(\<Sum>f\<leftarrow>filter (\<lambda>f. e_Currency f = c) (AllExposures ns cs t). e_NetAmount f) = net_of t c"
proof -
  let ?ks = "ns @ filter (\<lambda>c. c \<notin> dom (tr_net t)) cs"
  have ks: "distinct ?ks" "dom (tr_net t) \<subseteq> set ?ks" using assms by (auto simp: enumerates_def)
  have "net_of t k = 0" if "k \<notin> set ?ks" for k using ks(2) that by (auto simp: lookup_or_def split: option.splits)
  then show ?thesis
    using sum_key_distinct [OF ks(1), of "net_of t" c]
    by (simp only: AllExposures_eq [OF assms] filter_map comp_def map_map exposure_row_Currency)
      (simp add: exposure_row_def)
qed

lemma executed_total_hedges:
  assumes "sorts_by h_CreatedAt srt"
  shows "(\<Sum>h\<leftarrow>filter (\<lambda>h. h_Currency h = c \<and> h_Status h = StatusExecuted) (AllHedges srt st). h_Notional h) = executed_total st c"
proof -
  have filt: "(\<Sum>h\<leftarrow>filter (\<lambda>h. h_Currency h = c \<and> h_Status h = StatusExecuted) hs. h_Notional h) = (\<Sum>h\<leftarrow>hs. weight c h)" for hs :: "'a Hedge list"
    by (induction hs) (auto simp: weight_def)
  have "(\<Sum>h\<leftarrow>AllHedges srt st. weight c h) = (\<Sum>h\<leftarrow>map snd (st_hedges st). weight c h)"
    by (metis AllHedges_def sorts_by_mset [OF assms] mset_map sum_mset_sum_list)
  also have "\<dots> = executed_total st c" by (simp add: executed_total_def case_prod_unfold comp_def)
  finally show ?thesis by (simp add: filt)
qed

lemma settlement_of_books:
  assumes "decimal_ok (lib_dec L)" and "\<And>m. finite (dom m) \<Longrightarrow> enumerates (order m) m"
    and "sorts_by h_CreatedAt hs" and "sorts_by so_Currency os" and "finite_tracker (sv_Tracker s)"
  shows "\<exists>obs. Settlement_handler L order hs os s = (Some (200, ObligationsBody obs (int (length obs))), publish_obligations L obs s) \<and>
    (\<forall>c. let due = net_of (sv_Tracker s) c - executed_total (sv_Store s) c
         in sum_obligations c obs = due \<or> sum_obligations c obs = 0 \<and> \<bar>due\<bar> * 10 ^ 9 < 1)"
proof -
  let ?t = "sv_Tracker s"
  let ?flows = "AllExposures (order (tr_net ?t)) (order (tr_coverage ?t)) ?t" and ?hedges = "AllHedges hs (sv_Store s)"
  have "enumerates (order (byCcy (net_loop (flow_legs ?flows @ hedge_legs ?hedges)))) (byCcy (net_loop (flow_legs ?flows @ hedge_legs ?hedges)))"
    by (rule assms(2)) (simp add: net_loop_facts)
  from settlement_due [OF assms(1,4) this] obtain obs where
    "NetFromFlowsAndHedges (lib_dec L) os (order (byCcy (net_loop (flow_legs ?flows @ hedge_legs ?hedges)))) ?flows ?hedges = Some obs"
    and "\<forall>c. let due = net_of ?t c - executed_total (sv_Store s) c
         in sum_obligations c obs = due \<or> sum_obligations c obs = 0 \<and> \<bar>due\<bar> * 10 ^ 9 < 1"
    using net_of_rows [OF assms(2) assms(2), of ?t] executed_total_hedges [OF assms(3)] assms(5)
    by (auto simp: Let_def finite_tracker_def)
  then show ?thesis by (auto simp: Settlement_handler_def Let_def writeJSON_def)
qed

section \<open>A new service\<close>

lemma fresh_service_sound: "inj (w_uuid w) \<Longrightarrow> sound_books (fresh_service env pf w) \<and> balanced (fresh_service env pf w)"
  by (simp add: sound_books_def issued_def balanced_def all_hedges_def executed_total_def store_New_def tracker_New_def finite_tracker_def)
    (simp add: inv_defs)

end
