(* ===== verification/Persistence.thy ===== *)
theory Persistence
  imports History
begin

text \<open>
  What a history never takes back: stored hedges and their request ids, the ids of seen events, and
  coverage. From it follow the idempotency of hedge requests and events across whole histories. The
  last section shows that no request ever sets a revaluation rate.
\<close>

section \<open>What is kept\<close>

definition grows :: "'d::linordered_idom Service \<Rightarrow> 'd Service \<Rightarrow> bool" where
  "grows s s' \<longleftrightarrow> store_extends (sv_Store s) (sv_Store s') \<and> tr_seen (sv_Tracker s) \<subseteq> tr_seen (sv_Tracker s') \<and>
     (\<forall>c. cov_of (sv_Tracker s) c \<le> cov_of (sv_Tracker s') c)"

lemma grows_refl [simp]: "grows s s"
  by (simp add: grows_def)

lemma grows_trans: "grows s s' \<Longrightarrow> grows s' s'' \<Longrightarrow> grows s s''"
  unfolding grows_def by (blast intro: store_extends_trans order_trans)

lemma grows_same: "sv_Store s' = sv_Store s \<Longrightarrow> sv_Tracker s' = sv_Tracker s \<Longrightarrow> grows s s'"
  by (simp add: grows_def)

lemma executed_store_extends:
  assumes "store_inv st" and "map_of (st_hedges st) (h_ID h) = None" and "unused_request st (h_ClientRequestID h)"
  shows "store_extends st (executed_store (h_ID h) sm fills slip pnl now (Store.CreateHedge st h))"
  unfolding executed_store_def
  by (rule store_extends_update) (use assms store_extends_create in simp_all)

lemma start_hedge_grows:
  assumes "start_hedge L c rq s = (r, s')" and "sound_books s" and "typed_request rq"
    and "unused_request (sv_Store s) (cr_ClientRequestID rq)"
  shows "grows s s'"
proof -
  have inv: "store_inv (sv_Store s)" and fresh: "map_of (st_hedges (sv_Store s)) (next_id s) = None"
    using assms(2) next_id_fresh by (auto simp: sound_books_def)
  from start_hedge_books [OF assms(1)] have "hedge_outcome rq c s r s'" by simp
  then consider (same) "sv_Store s' = sv_Store s" "sv_Tracker s' = sv_Tracker s"
    | (stored) x h where "started rq c s x h" "sv_Store s' = Store.CreateHedge (sv_Store s) h" "sv_Tracker s' = sv_Tracker s"
    | (filled) h f where "started rq c s StatusExecuting h" "fl_Amount f = cr_Notional rq"
        "execution_done h f (Store.CreateHedge (sv_Store s) h) (sv_Tracker s) r s'"
    unfolding hedge_outcome_def by blast
  then show ?thesis
  proof cases
    case same
    then show ?thesis by (rule grows_same)
  next
    case (stored x h)
    with inv fresh assms(4) show ?thesis by (simp add: grows_def started_def store_extends_create)
  next
    case (filled h f)
    then have h: "map_of (st_hedges (sv_Store s)) (h_ID h) = None" "unused_request (sv_Store s) (h_ClientRequestID h)"
      and pos: "0 \<le> fl_Amount f" using fresh assms(3,4) by (simp_all add: started_def typed_request_def)
    from filled(3) show ?thesis
      using executed_store_extends [OF inv h] pos by (auto simp: execution_done_def grows_def)
  qed
qed

lemma CreateHedge_grows:
  assumes "CreateHedge L body s = (r, s')" and "sound_books s"
  shows "grows s s'"
  using CreateHedge_cases [OF assms(1)] start_hedge_grows [OF _ assms(2)] by auto

lemma AddExposure_grows:
  assumes "AddExposure L path body s = (r, s')"
  shows "grows s s'"
  using AddExposure_outcome [OF assms] by (auto simp: flow_outcome_def grows_def flow_tracker_net)

lemma leg_grows:
  assumes "executeLeg L X pd planID leg execs s = (r, execs', s')" and "sound_books s"
  shows "grows s s'"
  using executeLeg_outcome [OF assms(1)]
proof (cases rule: leg_outcome_cases)
  case same
  then show ?thesis by (rule grows_same)
next
  case (new h xs now)
  let ?st = "(sv_Store s)\<lparr>st_samples := st_samples (sv_Store s) @ xs\<rparr>"
  have "store_inv ?st" "map_of (st_hedges ?st) (h_ID h) = None" "unused_request ?st (h_ClientRequestID h)"
    using assms(2) next_id_fresh new(1,4) by (auto simp: sound_books_def)
  from store_extends_create [OF this] have "store_extends (sv_Store s) (sv_Store s')" by (simp add: new(5))
  moreover have "0 \<le> h_Notional h" using new(3) by (simp add: typed_hedge_def)
  ultimately show ?thesis using new(6) by (auto simp: grows_def)
qed

lemma legs_grow:
  assumes "orderly_executor X"
  shows "execute_legs L X pd planID legs results execs s = (r, execs', s') \<Longrightarrow> sound_books s \<Longrightarrow> grows s s'"
proof (induction legs arbitrary: results execs s)
  case (Cons leg legs)
  obtain r1 execs1 s1 where l: "executeLeg L X pd planID leg execs s = (r1, execs1, s1)" by (metis prod_cases3)
  from leg_grows [OF l Cons.prems(2)] leg_keeps [OF assms l Cons.prems(2)] Cons.IH [of _ execs1 s1] Cons.prems(1) l show ?case
    by (auto intro: grows_trans split: option.splits)
qed simp

lemma plan_grows:
  assumes "orderly_executor X" and "SubmitHedgePlan L X pd order planID legs execs s = (r, execs', s')" and "sound_books s"
  shows "grows s s'"
proof -
  obtain s2 where s2: "same_books s s2" "later s s2"
    and run: "s' = s2 \<or> (\<exists>pid rs r1 ex1. execute_legs L X pd pid legs rs execs s2 = (r1, ex1, s'))"
    using assms(2) by (rule plan_cases)
  have "grows s s2" "sound_books s2"
    using sound_books_same [OF assms(3) s2(2)] s2(1) by (simp_all add: same_books_def grows_def)
  with run legs_grow [OF assms(1)] grows_trans show ?thesis by blast
qed

lemma mux_grows:
  assumes "mux U rq s = (r, s')" and "sound_books s"
  shows "grows s s'"
proof (cases rq)
  case (RAddExposure path body)
  with assms AddExposure_grows show ?thesis by fastforce
next
  case (RCreateHedge body)
  with assms CreateHedge_grows show ?thesis by fastforce
next
  case (RGetExposure path)
  with assms GetExposure_same grows_same show ?thesis by (fastforce simp: same_books_def)
next
  case (RSlippage a b c)
  with assms Slippage_same grows_same show ?thesis by fastforce
next
  case RSettlement
  with assms Settlement_same grows_same show ?thesis by (fastforce simp: same_books_def)
qed (use assms reads_same in \<open>fastforce simp: Readyz_def ListExposures_def\<close>)+

lemma step_grows:
  assumes "orderly_executor (ru_exec U)" and "step U rq (execs, s) = (p, execs', s')" and "sound_books s"
  shows "grows s s'"
proof (cases rq)
  case (Rest rest)
  with assms(2) mux_grows [OF _ assms(3)] show ?thesis by (auto split: prod.splits)
next
  case (CallLiveRate ccy)
  with assms(2) GetLiveRate_same show ?thesis by (fastforce simp: same_books_def grows_def split: prod.splits)
next
  case (CallNetExposure ccy)
  with assms(2) GetNetExposure_same show ?thesis by (fastforce simp: same_books_def grows_def split: prod.splits)
next
  case (CallHedgePlan planID legs)
  with assms(2) plan_grows [OF assms(1) _ assms(3)] show ?thesis by (auto split: prod.splits)
qed

lemma run_grows:
  assumes "orderly_executor (ru_exec U)"
  shows "run U rqs (execs, s) = (p, execs', s') \<Longrightarrow> sound_books s \<Longrightarrow> grows s s'"
proof (induction rqs arbitrary: execs s p)
  case (Cons rq rqs)
  obtain p1 execs1 s1 where st: "step U rq (execs, s) = (p1, execs1, s1)" by (metis prod_cases3)
  with Cons.prems(1) obtain q where "run U rqs (execs1, s1) = (q, execs', s')" by (auto split: prod.splits)
  with step_keeps [OF assms st Cons.prems(2)] step_grows [OF assms st Cons.prems(2)] Cons.IH show ?case
    by (blast intro: grows_trans)
qed simp
section \<open>Replayed events\<close>

lemma AddExposure_seen:
  assumes "AddExposure L path (Some rq) s = (Some (200, ExposureBody e), s')" and "ar_EventID rq \<noteq> []"
  shows "ar_EventID rq \<in> tr_seen (sv_Tracker s')"
proof (cases "Seen (sv_Tracker s) (ar_EventID rq)")
  case True
  with AddExposure_grows [OF assms(1)] show ?thesis by (auto simp: Seen_def grows_def)
next
  case False
  with assms obtain s1 where "add_flow L (ToUpper path) rq s1 = (Some (200, ExposureBody e), s')" "sv_Tracker s1 = sv_Tracker s"
    by (auto simp: AddExposure_def Let_def case_prod_beta svc_GetExposure_eq writeError_def split: if_splits option.splits bool.splits)
  with add_flow_books [OF this(1)] False assms(2) show ?thesis by (auto simp: flow_tracker_net)
qed

lemma AddExposure_replayed:
  assumes "ar_EventID rq \<in> tr_seen (sv_Tracker s)" and "ar_EventID rq \<noteq> []" and "ar_Amount rq \<noteq> 0" and "ToUpper path \<noteq> []"
  shows "\<exists>e s'. AddExposure L path (Some rq) s = (Some (200, ExposureBody e), s') \<and> same_books s s'"
  using assms by (simp add: AddExposure_def Seen_def Let_def case_prod_beta svc_GetExposure_eq writeJSON_def)

section \<open>Revaluation rates\<close>

definition reval_of :: "'d Service \<Rightarrow> (string \<rightharpoonup> float64) option" where
  "reval_of s = map_option ca_reval (sv_Cache s)"

lemma reval_feed_cache [simp]: "reval_of (feed_cache c x src s) = reval_of s"
  by (simp add: reval_of_def feed_cache_def case_prod_beta split: option.splits)

lemma reval_fields [simp]:
  "reval_of (s\<lparr>sv_Store := st\<rparr>) = reval_of s" "reval_of (s\<lparr>sv_Tracker := tr\<rparr>) = reval_of s"
  "reval_of (s\<lparr>sv_Provider := pv\<rparr>) = reval_of s" "reval_of (s\<lparr>sv_world := w\<rparr>) = reval_of s"
  "reval_of (snd (svc_now s)) = reval_of s" "reval_of (snd (svc_uuid s)) = reval_of s"
  "reval_of (emit_at L ty i c d s) = reval_of s" "reval_of (emitHedge L ty h d s) = reval_of s"
  "reval_of (publishExecutionToRecon L out s) = reval_of s"
  by (simp_all add: reval_of_def)

lemma reval_process_fill [simp]: "reval_of (snd (process_fill L h f acc s)) = reval_of s"
  by (auto simp: process_fill_def Let_def case_prod_beta split: option.splits)

lemma reval_processFills [simp]: "reval_of (snd (processFills L h fs s)) = reval_of s"
proof -
  have "reval_of (snd (process_fills_loop L h fs acc s)) = reval_of s" for acc
    by (induction fs arbitrary: acc s) (simp_all add: case_prod_beta)
  then show ?thesis by (simp add: processFills_def)
qed

lemma reval_finish_hedge [simp]: "reval_of (snd (finish_hedge L c rq h fs s)) = reval_of s"
  by (auto simp: finish_hedge_def Let_def case_prod_beta split: option.splits)

lemma reval_execute_hedge [simp]: "reval_of (snd (execute_hedge L c rq h s)) = reval_of s"
  by (auto simp: execute_hedge_def Let_def case_prod_beta split: option.splits sum.splits)

lemma reval_place_hedge [simp]: "reval_of (snd (place_hedge L c rq h s)) = reval_of s"
  by (auto simp: place_hedge_def Let_def case_prod_beta split: option.splits sum.splits)

lemma reval_start_hedge [simp]: "reval_of (snd (start_hedge L c rq s)) = reval_of s"
  by (auto simp: start_hedge_def policy_context_def svc_GetExposure_eq Let_def case_prod_beta split: option.splits)

lemma reval_mux:
  assumes "mux U rq s = (r, s')"
  shows "reval_of s' = reval_of s"
proof (cases rq)
  case (RAddExposure path body)
  with assms AddExposure_outcome [of "ru_libs U" path body s r s'] show ?thesis by (simp add: flow_outcome_def reval_of_def)
next
  case (RCreateHedge body)
  with assms have "CreateHedge (ru_libs U) body s = (r, s')" by simp
  from CreateHedge_cases [OF this] show ?thesis by (metis reval_start_hedge snd_conv)
next
  case (RGetExposure path)
  with assms GetExposure_same show ?thesis by (fastforce simp: same_books_def reval_of_def)
next
  case (RSlippage a b c)
  with assms Slippage_same show ?thesis by (fastforce simp: reval_of_def)
next
  case RSettlement
  with assms Settlement_same show ?thesis by (fastforce simp: same_books_def reval_of_def)
qed (use assms reads_same in \<open>fastforce simp: Readyz_def ListExposures_def\<close>)+

lemma reval_legs:
  "execute_legs L X pd planID legs results execs s = (r, execs', s') \<Longrightarrow> reval_of s' = reval_of s"
proof (induction legs arbitrary: results execs s)
  case (Cons leg legs)
  obtain r1 execs1 s1 where l: "executeLeg L X pd planID leg execs s = (r1, execs1, s1)" by (metis prod_cases3)
  with executeLeg_outcome [OF l] Cons show ?case
    by (auto simp: leg_outcome_def reval_of_def split: option.splits)
qed simp

lemma reval_step:
  assumes "step U rq (execs, s) = (p, execs', s')"
  shows "reval_of s' = reval_of s"
proof (cases rq)
  case (Rest rest)
  with assms reval_mux show ?thesis by (fastforce split: prod.splits)
next
  case (CallLiveRate ccy)
  with assms GetLiveRate_same show ?thesis by (fastforce simp: same_books_def reval_of_def split: prod.splits)
next
  case (CallNetExposure ccy)
  with assms GetNetExposure_same show ?thesis by (fastforce simp: same_books_def reval_of_def split: prod.splits)
next
  case (CallHedgePlan planID legs)
  with assms obtain r where plan: "SubmitHedgePlan (ru_libs U) (ru_exec U) (ru_date U) (ru_order U) planID legs execs s = (r, execs', s')"
    by (auto split: prod.splits)
  obtain s2 where "same_books s s2"
    and "s' = s2 \<or> (\<exists>pid rs r1 ex1. execute_legs (ru_libs U) (ru_exec U) (ru_date U) pid legs rs execs s2 = (r1, ex1, s'))"
    by (rule plan_cases [OF plan])
  with reval_legs show ?thesis by (fastforce simp: same_books_def reval_of_def)
qed

lemma reval_run: "run U rqs (execs, s) = (p, execs', s') \<Longrightarrow> reval_of s' = reval_of s"
proof (induction rqs arbitrary: execs s p)
  case (Cons rq rqs)
  obtain p1 execs1 s1 where st: "step U rq (execs, s) = (p1, execs1, s1)" by (metis prod_cases3)
  with Cons.prems obtain q where "run U rqs (execs1, s1) = (q, execs', s')" by (auto split: prod.splits)
  with reval_step [OF st] Cons.IH show ?case by simp
qed simp

lemma GetLiveRate_no_reval:
  assumes "reval_of s = Some Map.empty"
  shows "\<exists>resp e. fst (GetLiveRate ccy s) = Some (resp, Some e)"
proof -
  obtain c where c: "sv_Cache s = Some c" "ca_reval c = Map.empty" using assms by (auto simp: reval_of_def)
  have "\<not> CrossCheck c ccy (Fin 100)" by (rule CrossCheck_needs_reval) (simp add: c(2))
  then show ?thesis
    by (auto simp: GetLiveRate_def c(1) Let_def case_prod_beta split: option.splits)
qed

end
