(* ===== verification/Reports.thy ===== *)
theory Reports
  imports Views
begin

text \<open>
  What the profit and loss report of \<open>Views\<close> says about the stored hedges.
\<close>

section \<open>Sums per currency\<close>

definition pnl_in :: "time \<Rightarrow> time \<Rightarrow> string \<Rightarrow> 'd::linordered_idom Hedge list \<Rightarrow> 'd" where
  "pnl_in from to c hs = (\<Sum>h\<leftarrow>filter (\<lambda>h. inRange (h_CreatedAt h) from to \<and> h_Currency h = c) hs. h_PnL h)"

lemma pnl_in_simps [simp]:
  "pnl_in from to c [] = 0"
  "pnl_in from to c (h # hs) = (if inRange (h_CreatedAt h) from to \<and> h_Currency h = c then h_PnL h else 0) + pnl_in from to c hs"
  by (simp_all add: pnl_in_def)

lemma pnl_add_Some:
  assumes "pnl_add D h m = Some m'"
  shows "dom m' = insert (h_Currency h) (dom m)"
    and "pl_Realized (lookup_or (zero_pnl c) m' c) = pl_Realized (lookup_or (zero_pnl c) m c) + (if h_Currency h = c then h_PnL h else 0)"
    and "pl_Unrealized (lookup_or (zero_pnl c) m' c) = pl_Unrealized (lookup_or (zero_pnl c) m c)"
    and "pl_Currency (lookup_or (zero_pnl c) m' c) = pl_Currency (lookup_or (zero_pnl c) m c)"
  using assms by (auto simp: pnl_add_def Let_def split: option.splits)

lemma pnl_loop_Some:
  assumes "pnl_loop D from to hs m = Some m'"
  shows "dom m' = dom m \<union> h_Currency ` set (filter (\<lambda>h. inRange (h_CreatedAt h) from to) hs)"
    and "pl_Realized (lookup_or (zero_pnl c) m' c) = pl_Realized (lookup_or (zero_pnl c) m c) + pnl_in from to c hs"
    and "pl_Unrealized (lookup_or (zero_pnl c) m' c) = pl_Unrealized (lookup_or (zero_pnl c) m c)"
    and "pl_Currency (lookup_or (zero_pnl c) m' c) = pl_Currency (lookup_or (zero_pnl c) m c)"
  using assms
  by (induction hs arbitrary: m) (auto simp: pnl_add_Some split: if_splits option.splits)

lemma fold_total_add:
  "pl_Realized (fold total_add rows t) = pl_Realized t + (\<Sum>r\<leftarrow>rows. pl_Realized r)"
  "pl_Unrealized (fold total_add rows t) = pl_Unrealized t + (\<Sum>r\<leftarrow>rows. pl_Unrealized r)"
  by (induction rows arbitrary: t) (simp_all add: total_add_def Let_def add.assoc)

lemma sum_by_currency:
  assumes "distinct ks" and "h_Currency ` set (filter (\<lambda>h. inRange (h_CreatedAt h) from to) hs) \<subseteq> set ks"
  shows "(\<Sum>c\<leftarrow>ks. pnl_in from to c hs) = (\<Sum>h\<leftarrow>filter (\<lambda>h. inRange (h_CreatedAt h) from to) hs. h_PnL h)"
  using assms(2)
proof (induction hs)
  case Nil
  show ?case by (simp add: sum_list_0)
next
  case (Cons h hs)
  have one: "(\<Sum>c\<leftarrow>ks. if inRange (h_CreatedAt h) from to \<and> h_Currency h = c then h_PnL h else 0) =
      (if inRange (h_CreatedAt h) from to then h_PnL h else 0)"
  proof (cases "inRange (h_CreatedAt h) from to")
    case True
    then have "h_Currency h \<in> set ks" using Cons.prems by simp
    with assms(1) True show ?thesis by (simp add: sum_list_distinct_conv_sum_set sum.delta)
  qed simp
  have "(\<Sum>c\<leftarrow>ks. pnl_in from to c hs) = (\<Sum>h\<leftarrow>filter (\<lambda>h. inRange (h_CreatedAt h) from to) hs. h_PnL h)"
    using Cons by (auto split: if_splits)
  with one show ?case by (simp add: sum_list_addf)
qed

section \<open>The report\<close>

text \<open>C26. The profit and loss report adds up: it lists each currency with a hedge created in the range exactly once,
  the realized profit of a row is the sum of the profits of the hedges of its currency in the
  range, and the total is the sum over all hedges in the range. The report changes nothing.\<close>

theorem PnL_report:
  assumes "PnL_handler L pt srt order from_q to_q s = (Some (200, PnLBody resp), s')"
    and "\<And>m. finite (dom m) \<Longrightarrow> enumerates (order m) m"
  defines "hs \<equiv> filter (\<lambda>h. inRange (h_CreatedAt h) (pr_From resp) (pr_To resp)) (AllHedges srt (sv_Store s))"
  shows "s' = s \<and> distinct (map pl_Currency (pr_ByCurrency resp)) \<and>
    set (map pl_Currency (pr_ByCurrency resp)) = h_Currency ` set hs \<and>
    (\<forall>row\<in>set (pr_ByCurrency resp). pl_Total row = (\<Sum>h\<leftarrow>filter (\<lambda>h. h_Currency h = pl_Currency row) hs. h_PnL h)) \<and>
    pl_Total (pr_Total resp) = (\<Sum>h\<leftarrow>hs. h_PnL h)"
proof -
  obtain fr to m where pr: "parseRange pt from_q to_q = Inr (fr, to)"
    and m: "pnl_loop (lib_dec L) fr to (AllHedges srt (sv_Store s)) Map.empty = Some m"
    using assms(1) by (auto simp: PnL_handler_def writeError_def split: sum.splits option.splits)
  let ?all = "AllHedges srt (sv_Store s)" and ?ks = "order m"
  have resp: "s' = s" "pr_From resp = fr" "pr_To resp = to" "pr_ByCurrency resp = map (pnl_row m) ?ks"
    "pl_Total (pr_Total resp) = pl_Realized (fold total_add (map (pnl_row m) ?ks) (zero_pnl [])) +
       pl_Unrealized (fold total_add (map (pnl_row m) ?ks) (zero_pnl []))"
    using assms(1) pr m by (auto simp: PnL_handler_def writeJSON_def Let_def)
  note f = pnl_loop_Some [OF m]
  have dom: "dom m = h_Currency ` set (filter (\<lambda>h. inRange (h_CreatedAt h) fr to) ?all)" using f(1) by simp
  then have ks: "distinct ?ks" "set ?ks = dom m" using assms(2) [of m] by (simp_all add: enumerates_def)
  have row: "pl_Currency (pnl_row m c) = c" "pl_Realized (pnl_row m c) = pnl_in fr to c ?all" "pl_Unrealized (pnl_row m c) = 0"
    "pl_Total (pnl_row m c) = pnl_in fr to c ?all" for c
    using f(2-4) [of c] by (simp_all add: pnl_row_def Let_def zero_pnl_def)
  have "pl_Total (pr_Total resp) = (\<Sum>c\<leftarrow>?ks. pnl_in fr to c ?all)"
    by (simp add: resp(5) fold_total_add row comp_def zero_pnl_def sum_list_0)
  also have "\<dots> = (\<Sum>h\<leftarrow>filter (\<lambda>h. inRange (h_CreatedAt h) fr to) ?all. h_PnL h)"
    by (rule sum_by_currency [OF ks(1)]) (simp add: ks(2) dom)
  finally have "pl_Total (pr_Total resp) = (\<Sum>h\<leftarrow>hs. h_PnL h)" by (simp add: hs_def resp(2,3))
  moreover have "\<forall>row\<in>set (pr_ByCurrency resp). pl_Total row = (\<Sum>h\<leftarrow>filter (\<lambda>h. h_Currency h = pl_Currency row) hs. h_PnL h)"
    by (auto simp: resp(2,3,4) row pnl_in_def hs_def conj_commute)
  ultimately show ?thesis
    using ks dom by (simp add: resp(1,4) comp_def row hs_def resp(2,3))
qed

definition sample_books :: "rat Service" where
  "sample_books = sample_service\<lparr>sv_Store := Store.CreateHedge store_New ((sample_hedge ''h'' ''EUR'' 900 StatusExecuted)\<lparr>h_PnL := 5\<rparr>)\<rparr>"

theorem PnL_report_witness:
  "\<exists>resp s'. PnL_handler sample_libs (\<lambda>_. None) (sort_key h_CreatedAt) (\<lambda>m. sorted_list_of_set (dom m)) [] [] sample_books =
     (Some (200, PnLBody resp), s') \<and> pl_Total (pr_Total resp) = 5"
proof -
  let ?order = "\<lambda>m :: string \<rightharpoonup> rat PnL. sorted_list_of_set (dom m)"
  have keys: "enumerates (?order m) m" if "finite (dom m)" for m using that by (simp add: enumerates_def)
  have all: "AllHedges (sort_key h_CreatedAt) (sv_Store sample_books) = [(sample_hedge ''h'' ''EUR'' 900 StatusExecuted)\<lparr>h_PnL := 5\<rparr>]"
    by (simp add: sample_books_def AllHedges_def Store.CreateHedge_def store_New_def)
  obtain resp s' where r: "PnL_handler sample_libs (\<lambda>_. None) (sort_key h_CreatedAt) ?order [] [] sample_books = (Some (200, PnLBody resp), s')"
    and range: "pr_From resp = 0" "pr_To resp = 0"
    by (auto simp: PnL_handler_def parseRange_def all inRange_def pnl_add_def sample_hedge_def sample_libs_def writeJSON_def Let_def)
  from PnL_report [OF r keys] r show ?thesis by (auto simp: all inRange_def range)
qed

end
