(* ===== verification/Concurrent.thy ===== *)
theory Concurrent
  imports HedgeFlow
begin

text \<open>
  Requests that arrive at the same time. \<open>net/http\<close> serves every request in its own goroutine, and \<open>AddExposure\<close> of
  \<open>internal/api/handlers.go\<close> locks the tracker three times: for \<open>Seen\<close>, for \<open>GetExposure\<close>, from which the cap is checked, and
  for \<open>AddEvent\<close> or \<open>AddExposure\<close>. Between them other requests act. The handler is cut at these points; what follows the
  last, the audit event and the reading of the answer, does not change the exposures and is part of that step.
\<close>

section \<open>Interleaved handlers\<close>

text \<open>How far a request is; the answer of a panic has no status code.\<close>

datatype flow_phase = Arrived | Unseen | Allowed | Committed | Ended "int option"

type_synonym 'd flow_state = "'d Service \<times> (nat \<Rightarrow> flow_phase)"

text \<open>\<open>req i\<close> is the currency, in upper case, and the decoded body of request \<open>i\<close>, which has passed the validation.\<close>

inductive flow_step ::
  "'d::linordered_idom libs \<Rightarrow> (nat \<Rightarrow> string \<times> 'd addExposureReq) \<Rightarrow> 'd flow_state \<Rightarrow> 'd flow_state \<Rightarrow> bool"
  for L req where
  duplicate: "ph i = Arrived \<Longrightarrow> req i = (c, rq) \<Longrightarrow> ar_EventID rq \<noteq> [] \<Longrightarrow> Seen (sv_Tracker s) (ar_EventID rq) \<Longrightarrow>
    flow_step L req (s, ph) (snd (svc_GetExposure c s), ph(i := Ended (Some 200)))"
| unseen: "ph i = Arrived \<Longrightarrow> req i = (c, rq) \<Longrightarrow> \<not> (ar_EventID rq \<noteq> [] \<and> Seen (sv_Tracker s) (ar_EventID rq)) \<Longrightarrow>
    flow_step L req (s, ph) (s, ph(i := Unseen))"
| unguarded: "ph i = Unseen \<Longrightarrow> sv_Policy s = None \<Longrightarrow> flow_step L req (s, ph) (s, ph(i := Allowed))"
| panics: "ph i = Unseen \<Longrightarrow> req i = (c, rq) \<Longrightarrow> sv_Policy s = Some p \<Longrightarrow> svc_GetExposure c s = (current, s1) \<Longrightarrow>
    cap_guard L p c current (ar_Amount rq) = None \<Longrightarrow> flow_step L req (s, ph) (s1, ph(i := Ended None))"
| blocked: "ph i = Unseen \<Longrightarrow> req i = (c, rq) \<Longrightarrow> sv_Policy s = Some p \<Longrightarrow> svc_GetExposure c s = (current, s1) \<Longrightarrow>
    cap_guard L p c current (ar_Amount rq) = Some True \<Longrightarrow>
    flow_step L req (s, ph) (emit_at L EventCapBreach [] c
      ''blocked exposure-increasing flow that would breach MAX_OPEN_EXPOSURE_USD'' s1, ph(i := Ended (Some 409)))"
| allowed: "ph i = Unseen \<Longrightarrow> req i = (c, rq) \<Longrightarrow> sv_Policy s = Some p \<Longrightarrow> svc_GetExposure c s = (current, s1) \<Longrightarrow>
    cap_guard L p c current (ar_Amount rq) = Some False \<Longrightarrow> flow_step L req (s, ph) (s1, ph(i := Allowed))"
| commits: "ph i = Allowed \<Longrightarrow> req i = (c, rq) \<Longrightarrow> add_flow L c rq s = (r, s1) \<Longrightarrow> flow_step L req (s, ph) (s1, ph(i := Committed))"

inductive_cases flow_step_cases: "flow_step L req st st'"

abbreviation all_arrived :: "nat \<Rightarrow> flow_phase" where
  "all_arrived \<equiv> \<lambda>_. Arrived"

lemmas flow_then = converse_rtranclp_into_rtranclp [of "flow_step L req" for L req]
lemmas flow_once = r_into_rtranclp [of "flow_step L req" for L req]

text \<open>A request whose steps are not interrupted is the handler.\<close>

lemma solo_request:
  assumes "ToUpper path = c" and "c \<noteq> []" and "ar_Amount rq \<noteq> 0" and "req i = (c, rq)" and "ph i = Arrived"
    and "AddExposure L path (Some rq) s = (r, s')"
  shows "\<exists>x. (flow_step L req)\<^sup>*\<^sup>* (s, ph) (s', ph(i := x)) \<and> (x = Committed \<or> (\<exists>code. x = Ended code \<and> map_option fst r = code))"
proof (cases "ar_EventID rq \<noteq> [] \<and> Seen (sv_Tracker s) (ar_EventID rq)")
  case True
  with assms have "r = Some (200, ExposureBody (fst (svc_GetExposure c s)))" "s' = snd (svc_GetExposure c s)"
    by (auto simp: AddExposure_def Let_def case_prod_beta writeJSON_def)
  with True assms show ?thesis
    by (intro exI [of _ "Ended (Some 200)"]) (auto intro!: flow_once duplicate)
next
  case new: False
  let ?ph = "ph(i := Unseen)"
  have first: "flow_step L req (s, ph) (s, ?ph)" by (rule unseen [where ph = ph and i = i and req = req, OF assms(5,4) new])
  have second: ?thesis if "flow_step L req (s, ?ph) (s', ?ph(i := x))" "x = Committed \<or> (\<exists>code. x = Ended code \<and> map_option fst r = code)" for x
    using flow_then [OF first flow_once [OF that(1)]] that(2) by (intro exI [of _ x]) simp
  have third: ?thesis if "flow_step L req (s, ?ph) (s1, ?ph(i := Allowed))" "add_flow L c rq s1 = (r, s')" for s1
  proof -
    have "flow_step L req (s1, ?ph(i := Allowed)) (s', (?ph(i := Allowed))(i := Committed))"
      by (rule commits [where i = i and c = c and rq = rq]) (simp_all add: assms(4) that(2))
    from flow_then [OF first flow_then [OF that(1) flow_once [OF this]]]
    show ?thesis by (intro exI [of _ Committed]) simp
  qed
  show ?thesis
  proof (cases "sv_Policy s")
    case None
    with assms new show ?thesis by (intro third [of s] unguarded) (auto simp: AddExposure_def Let_def)
  next
    case (Some p)
    obtain current s1 where g: "svc_GetExposure c s = (current, s1)" by fastforce
    have req: "?ph i = Unseen" "req i = (c, rq)" using assms(4) by simp_all
    show ?thesis
    proof (cases "cap_guard L p c current (ar_Amount rq)")
      case None
      with assms new Some g have "r = None" "s' = s1" by (auto simp: AddExposure_def Let_def)
      with panics [where ph = ?ph and i = i and req = req and L = L, OF req Some g None] show ?thesis by (intro second [of "Ended None"]) simp_all
    next
      case guard: (Some b)
      show ?thesis
      proof (cases b)
        case True
        with assms new Some g guard have "map_option fst r = Some 409"
          "s' = emit_at L EventCapBreach [] c ''blocked exposure-increasing flow that would breach MAX_OPEN_EXPOSURE_USD'' s1"
          by (auto simp: AddExposure_def Let_def writeError_def writeJSON_def)
        with blocked [where ph = ?ph and i = i and req = req and L = L, OF req Some g] guard True show ?thesis by (intro second [of "Ended (Some 409)"]) simp_all
      next
        case False
        with assms new Some g guard have "add_flow L c rq s1 = (r, s')" by (auto simp: AddExposure_def Let_def)
        with allowed [where ph = ?ph and i = i and req = req and L = L, OF req Some g] guard False show ?thesis by (intro third [of s1]) simp_all
      qed
    qed
  qed
qed

section \<open>What interleaving keeps\<close>

text \<open>The flows that were applied, each with its time.\<close>

definition apply_flows :: "(nat \<Rightarrow> string \<times> 'd::linordered_idom addExposureReq) \<Rightarrow> (time \<times> nat) list \<Rightarrow> 'd tracker \<Rightarrow> 'd tracker" where
  "apply_flows req order t = fold (\<lambda>(now, i). flow_tracker now (fst (req i)) (snd (req i))) order t"

lemma apply_flows_snoc [simp]:
  "apply_flows req (order @ [(now, i)]) t = flow_tracker now (fst (req i)) (snd (req i)) (apply_flows req order t)"
  by (simp add: apply_flows_def)

definition linear_order :: "(nat \<Rightarrow> string \<times> 'd::linordered_idom addExposureReq) \<Rightarrow> 'd tracker \<Rightarrow> (time \<times> nat) list \<Rightarrow> 'd flow_state \<Rightarrow> bool" where
  "linear_order req t order st \<longleftrightarrow> distinct (map snd order) \<and> snd ` set order = {i. snd st i = Committed} \<and>
     sv_Tracker (fst st) = apply_flows req order t"

lemma svc_GetExposure_tracker: "svc_GetExposure c s = (e, s1) \<Longrightarrow> sv_Tracker s1 = sv_Tracker s \<and> sv_Policy s1 = sv_Policy s"
  using svc_GetExposure_eq(2) [of c s] by simp

lemma linear_order_same:
  assumes "linear_order req t order (s, ph)" and "sv_Tracker s1 = sv_Tracker s" and "ph i \<noteq> Committed" and "x \<noteq> Committed"
  shows "linear_order req t order (s1, ph(i := x))"
  using assms by (auto simp: linear_order_def)

lemma flow_step_linear:
  assumes "flow_step L req st st'" and "linear_order req t order st"
  shows "\<exists>order'. linear_order req t order' st'"
  using assms
proof cases
  case (commits ph i c rq s r s1)
  obtain now where "sv_Tracker s1 = flow_tracker now c rq (sv_Tracker s)" using add_flow_books [OF commits(5)] by blast
  with commits assms(2) have "linear_order req t (order @ [(now, i)]) (s1, ph(i := Committed))"
    by (auto simp: linear_order_def)
  with commits show ?thesis by blast
qed (use assms(2) in \<open>auto intro!: exI [of _ order] linear_order_same dest: svc_GetExposure_tracker simp: svc_GetExposure_eq\<close>)

text \<open>C10. Concurrent flows are applied as if one after the other: whatever the interleaving of the handlers, the tracker is
  the one that results from applying the flows of the requests that were accepted, each once, in
  some order. No update is lost.\<close>

theorem concurrent_flows_linear:
  assumes "(flow_step L req)\<^sup>*\<^sup>* (s, all_arrived) (s', ph)"
  shows "\<exists>order. distinct (map snd order) \<and> snd ` set order = {i. ph i = Committed} \<and>
    sv_Tracker s' = apply_flows req order (sv_Tracker s)"
proof -
  have "\<exists>order. linear_order req (sv_Tracker s) order st'" if "(flow_step L req)\<^sup>*\<^sup>* (s, all_arrived) st'" for st'
    using that
  proof (induction rule: rtranclp_induct)
    case base
    have "linear_order req (sv_Tracker s) [] (s, all_arrived)" by (simp add: linear_order_def apply_flows_def)
    then show ?case by blast
  qed (blast intro: flow_step_linear)
  from this [OF assms] show ?thesis by (simp add: linear_order_def)
qed

section \<open>What interleaving breaks\<close>

lemma guard_allows:
  assumes "tr_net (sv_Tracker s) c \<noteq> None" and "NewFromFloat (lib_dec L) (EffectiveCap p c) = Some cap"
    and "\<bar>book.open_amount (sv_Tracker s) c + ar_Amount rq\<bar> \<le> cap"
  shows "cap_guard L p c (fst (svc_GetExposure c s)) (ar_Amount rq) = Some False"
proof -
  obtain v where v: "Tracker.GetExposure (fst (svc_now s)) (sv_Tracker s) c = Some v"
    using assms(1) GetExposure_None_iff [of "fst (svc_now s)" "sv_Tracker s" c] by auto
  with book.view_Some [OF v] assms(2,3) show ?thesis
    by (auto simp: cap_guard_def svc_GetExposure_eq book.open_amount_def)
qed

lemma pass_guard:
  assumes "ph i = Arrived" and "req i = (c, rq)" and "ar_EventID rq = []" and "sv_Policy s = Some p" and "tr_net (sv_Tracker s) c \<noteq> None"
    and "NewFromFloat (lib_dec L) (EffectiveCap p c) = Some cap" and "\<bar>book.open_amount (sv_Tracker s) c + ar_Amount rq\<bar> \<le> cap"
  shows "\<exists>s1. (flow_step L req)\<^sup>*\<^sup>* (s, ph) (s1, ph(i := Allowed)) \<and> sv_Tracker s1 = sv_Tracker s \<and> sv_Policy s1 = sv_Policy s"
proof -
  obtain current s1 where g: "svc_GetExposure c s = (current, s1)" by fastforce
  have "flow_step L req (s, ph) (s, ph(i := Unseen))"
    by (rule unseen [where i = i and c = c and rq = rq]) (simp_all add: assms(1-3))
  moreover have "flow_step L req (s, ph(i := Unseen)) (s1, (ph(i := Unseen))(i := Allowed))"
    by (rule allowed [where i = i and c = c and rq = rq and p = p and current = current])
      (use guard_allows [OF assms(5-7)] assms(2,4) g in simp_all)
  ultimately have "(flow_step L req)\<^sup>*\<^sup>* (s, ph) (s1, ph(i := Allowed))" by (auto intro: flow_then flow_once)
  with svc_GetExposure_tracker [OF g] show ?thesis by blast
qed

lemma commit_flow:
  assumes "ph i = Allowed" and "req i = (c, rq)" and "ar_EventID rq = []"
  shows "\<exists>s1. flow_step L req (s, ph) (s1, ph(i := Committed)) \<and>
    book.open_amount (sv_Tracker s1) c = book.open_amount (sv_Tracker s) c + ar_Amount rq"
proof -
  obtain r s1 where r: "add_flow L c rq s = (r, s1)" by fastforce
  have "flow_step L req (s, ph) (s1, ph(i := Committed))"
    by (rule commits [where i = i and c = c and rq = rq]) (simp_all add: assms r)
  moreover obtain now where "sv_Tracker s1 = flow_tracker now c rq (sv_Tracker s)" using add_flow_books [OF r] by blast
  then have "book.open_amount (sv_Tracker s1) c = book.open_amount (sv_Tracker s) c + ar_Amount rq"
    using assms(3) by (simp add: flow_tracker_def book.open_flow)
  ultimately show ?thesis by blast
qed

text \<open>C11. The cap is checked and the flow applied under different locks: two flows into a currency that each stay within the
  cap, but exceed it together, can both be accepted when they arrive at the same time.\<close>

theorem cap_race:
  assumes "sv_Policy s = Some p" and "tr_net (sv_Tracker s) c \<noteq> None" and "NewFromFloat (lib_dec L) (EffectiveCap p c) = Some cap"
    and "req 0 = (c, rq)" and "req 1 = (c, rq')" and "ar_EventID rq = []" and "ar_EventID rq' = []"
    and "\<bar>net_of (sv_Tracker s) c - cov_of (sv_Tracker s) c + ar_Amount rq\<bar> \<le> cap"
    and "\<bar>net_of (sv_Tracker s) c - cov_of (sv_Tracker s) c + ar_Amount rq'\<bar> \<le> cap"
    and "cap < \<bar>net_of (sv_Tracker s) c - cov_of (sv_Tracker s) c + ar_Amount rq + ar_Amount rq'\<bar>"
  shows "\<exists>s' ph. (flow_step L req)\<^sup>*\<^sup>* (s, all_arrived) (s', ph) \<and> ph 0 = Committed \<and> ph 1 = Committed \<and>
    cap < \<bar>net_of (sv_Tracker s') c - cov_of (sv_Tracker s') c\<bar>"
proof -
  note o = book.open_amount_def [symmetric]
  let ?ph1 = "all_arrived(0 := Allowed)" and ?o = "book.open_amount (sv_Tracker s) c"
  obtain s1 where s1: "(flow_step L req)\<^sup>*\<^sup>* (s, all_arrived) (s1, ?ph1)" "sv_Tracker s1 = sv_Tracker s" "sv_Policy s1 = sv_Policy s"
    using pass_guard [of all_arrived 0 req c rq s p L cap] assms(1-4,6,8) unfolding o by auto
  obtain s2 where s2: "(flow_step L req)\<^sup>*\<^sup>* (s1, ?ph1) (s2, ?ph1(1 := Allowed))" "sv_Tracker s2 = sv_Tracker s"
    using pass_guard [of ?ph1 1 req c rq' s1 p L cap] assms(1-3,5,7,9) s1(2,3) unfolding o by auto
  obtain s3 where s3: "flow_step L req (s2, ?ph1(1 := Allowed)) (s3, ?ph1(1 := Allowed, 0 := Committed))"
    "book.open_amount (sv_Tracker s3) c = ?o + ar_Amount rq"
    using commit_flow [of "?ph1(1 := Allowed)" 0 req c rq L s2] assms(4,6) s2(2) by auto
  obtain s4 where s4: "flow_step L req (s3, ?ph1(1 := Allowed, 0 := Committed)) (s4, ?ph1(1 := Allowed, 0 := Committed, 1 := Committed))"
    "book.open_amount (sv_Tracker s4) c = ?o + ar_Amount rq + ar_Amount rq'"
    using commit_flow [of "?ph1(1 := Allowed, 0 := Committed)" 1 req c rq' L s3] assms(5,7) s3(2) by auto
  have "(flow_step L req)\<^sup>*\<^sup>* (s, all_arrived) (s4, ?ph1(1 := Allowed, 0 := Committed, 1 := Committed))"
    by (rule rtranclp_trans [OF s1(1) rtranclp_trans [OF s2(1) flow_then [OF s3(1) flow_once [OF s4(1)]]]])
  with s4(2) assms(10) show ?thesis
    unfolding o by (intro exI [of _ s4] exI [of _ "?ph1(1 := Allowed, 0 := Committed, 1 := Committed)"]) simp
qed

text \<open>Two flows of 600000 at a cap of a million, with 1000 open.\<close>

definition race_service :: "rat Service" where
  "race_service = sample_service\<lparr>sv_Tracker := Tracker.AddExposure 1 tracker_New ''EUR'' 1000\<rparr>"

definition race_req :: "nat \<Rightarrow> string \<times> rat addExposureReq" where
  "race_req i = (''EUR'', \<lparr>ar_Amount = 600000, ar_EventID = [], ar_Source = []\<rparr>)"

lemma race_fields:
  "sv_Policy race_service = Some sample_policy" "tr_net (sv_Tracker race_service) = [''EUR'' \<mapsto> 1000]"
  "tr_coverage (sv_Tracker race_service) = Map.empty"
  by (simp_all add: race_service_def) (simp_all add: tracker_New_def)

theorem cap_race_witness:
  "\<exists>s' ph. (flow_step sample_libs race_req)\<^sup>*\<^sup>* (race_service, all_arrived) (s', ph) \<and> ph 0 = Committed \<and> ph 1 = Committed \<and>
     1000000 < \<bar>net_of (sv_Tracker s') ''EUR'' - cov_of (sv_Tracker s') ''EUR''\<bar>"
proof -
  have "NewFromFloat (lib_dec sample_libs) (EffectiveCap sample_policy ''EUR'') = Some 1000000"
    using upper_eur(1) by simp
  from cap_race [OF race_fields(1) _ this race_req_def race_req_def] show ?thesis by (simp add: race_fields)
qed

theorem concurrent_flows_linear_witness:
  "\<exists>s' ph order. (flow_step sample_libs race_req)\<^sup>*\<^sup>* (race_service, all_arrived) (s', ph) \<and> order \<noteq> [] \<and>
     sv_Tracker s' = apply_flows race_req order (sv_Tracker race_service)"
proof -
  have req: "race_req 0 = (''EUR'', \<lparr>ar_Amount = 600000, ar_EventID = [], ar_Source = []\<rparr>)" by (simp add: race_req_def)
  have "NewFromFloat (lib_dec sample_libs) (EffectiveCap sample_policy ''EUR'') = Some 1000000"
    using upper_eur(1) by simp
  from pass_guard [of all_arrived 0 race_req, OF _ req _ race_fields(1) _ this] obtain s1 where
    s1: "(flow_step sample_libs race_req)\<^sup>*\<^sup>* (race_service, all_arrived) (s1, all_arrived(0 := Allowed))"
    by (auto simp: race_fields book.open_amount_def)
  from commit_flow [of "all_arrived(0 := Allowed)" 0 race_req, OF _ req] obtain s2 where
    "flow_step sample_libs race_req (s1, all_arrived(0 := Allowed)) (s2, all_arrived(0 := Allowed, 0 := Committed))" by fastforce
  with s1 have run: "(flow_step sample_libs race_req)\<^sup>*\<^sup>* (race_service, all_arrived) (s2, all_arrived(0 := Allowed, 0 := Committed))"
    by (rule rtranclp.rtrancl_into_rtrancl)
  from concurrent_flows_linear [OF run] obtain order where
    "snd ` set order = {i. (all_arrived(0 := Allowed, 0 := Committed)) i = Committed}"
    "sv_Tracker s2 = apply_flows race_req order (sv_Tracker race_service)" by blast
  moreover from this(1) have "order \<noteq> []" by auto
  ultimately show ?thesis using run by blast
qed

section \<open>Hedge requests\<close>

text \<open>\<open>CreateHedge\<close> looks the request id up and stores the hedge under different locks. The handler is cut after the lookup;
  the rest of it is one step, so these are some of the schedules of the program, enough for the race below. \<open>req i\<close> is the
  decoded body of a request that has passed the validation.\<close>

inductive hedge_step ::
  "'d::linordered_idom libs \<Rightarrow> (nat \<Rightarrow> 'd createHedgeReq) \<Rightarrow> 'd flow_state \<Rightarrow> 'd flow_state \<Rightarrow> bool"
  for L req where
  existing: "ph i = Arrived \<Longrightarrow> cr_ClientRequestID (req i) \<noteq> [] \<Longrightarrow>
    GetHedgeByClientRequest (sv_Store s) (cr_ClientRequestID (req i)) = Some (Some h) \<Longrightarrow>
    hedge_step L req (s, ph) (s, ph(i := Ended (Some 200)))"
| lookup_panics: "ph i = Arrived \<Longrightarrow> cr_ClientRequestID (req i) \<noteq> [] \<Longrightarrow>
    GetHedgeByClientRequest (sv_Store s) (cr_ClientRequestID (req i)) = None \<Longrightarrow> hedge_step L req (s, ph) (s, ph(i := Ended None))"
| not_found: "ph i = Arrived \<Longrightarrow> unused_request (sv_Store s) (cr_ClientRequestID (req i)) \<Longrightarrow>
    hedge_step L req (s, ph) (s, ph(i := Allowed))"
| executes: "ph i = Allowed \<Longrightarrow> start_hedge L (ToUpper (cr_Currency (req i))) (req i) s = (r, s1) \<Longrightarrow>
    hedge_step L req (s, ph) (s1, ph(i := Ended (map_option fst r)))"

lemmas hedge_then = converse_rtranclp_into_rtranclp [of "hedge_step L req" for L req]
lemmas hedge_once = r_into_rtranclp [of "hedge_step L req" for L req]

text \<open>C12. A request id protects against repeated requests only when they come one after the other: two requests with the
  same unused request id that arrive at the same time can both be executed and answered with 201,
  and the coverage grows by twice the notional.\<close>

theorem request_race:
  assumes "req 0 = rq" and "req 1 = rq" and "unused_request (sv_Store s) (cr_ClientRequestID rq)"
    and "quiet_provider (sv_Provider s)" and "decimal_ok (lib_dec L)" and "decimal_zero (lib_dec L)"
    and "\<And>p. sv_Policy s = Some p \<Longrightarrow> policy_ok p \<and> f_finite (EffectiveCap p (ToUpper (cr_Currency rq)))"
  defines "c \<equiv> ToUpper (cr_Currency rq)"
  shows "\<exists>s' ph. (hedge_step L req)\<^sup>*\<^sup>* (s, all_arrived) (s', ph) \<and> ph 0 = Ended (Some 201) \<and> ph 1 = Ended (Some 201) \<and>
    cov_of (sv_Tracker s') c = cov_of (sv_Tracker s) c + 2 * cr_Notional rq"
proof -
  let ?ph1 = "all_arrived(0 := Allowed)" let ?ph2 = "?ph1(1 := Allowed)" let ?ph3 = "?ph2(0 := Ended (Some 201))"
  obtain h1 s1 where s1: "start_hedge L c rq s = (Some (201, HedgeBody (Some h1)), s1)" "quiet_provider (sv_Provider s1)"
    using start_hedge_answer [OF assms(4-6)] assms(7) unfolding c_def by blast
  have "sv_Policy s1 = sv_Policy s" using start_hedge_books [OF s1(1)] by simp
  then obtain h2 s2 where s2: "start_hedge L c rq s1 = (Some (201, HedgeBody (Some h2)), s2)"
    using start_hedge_answer [OF s1(2) assms(5,6)] assms(7) unfolding c_def by metis
  have "hedge_step L req (s, all_arrived) (s, ?ph1)" by (rule not_found) (simp_all add: assms(1,3))
  moreover have "hedge_step L req (s, ?ph1) (s, ?ph2)" by (rule not_found) (simp_all add: assms(2,3)[simplified])
  moreover have "hedge_step L req (s, ?ph2) (s1, ?ph3)"
    using executes [of ?ph2 0 L req s] s1(1) assms(1) by (simp add: c_def)
  moreover have "hedge_step L req (s1, ?ph3) (s2, ?ph3(1 := Ended (Some 201)))"
    using executes [of ?ph3 1 L req s1] s2 assms(2) by (simp add: c_def)
  ultimately have "(hedge_step L req)\<^sup>*\<^sup>* (s, all_arrived) (s2, ?ph3(1 := Ended (Some 201)))"
    by (blast intro: hedge_then hedge_once)
  moreover have "cov_of (sv_Tracker s2) c = cov_of (sv_Tracker s) c + 2 * cr_Notional rq"
    using start_hedge_created(4) [OF s1(1), of c] start_hedge_created(4) [OF s2, of c] by simp
  ultimately show ?thesis by (intro exI [of _ s2] exI [of _ "?ph3(1 := Ended (Some 201))"]) simp
qed

theorem request_race_witness:
  "\<exists>s' ph. (hedge_step sample_libs (\<lambda>_. sample_hedge_req))\<^sup>*\<^sup>* (sample_service, all_arrived) (s', ph) \<and>
     ph 0 = Ended (Some 201) \<and> ph 1 = Ended (Some 201) \<and> cov_of (sv_Tracker s') ''EUR'' = 1800"
  using request_race [of "\<lambda>_. sample_hedge_req" sample_hedge_req sample_service sample_libs]
  by (simp add: unused_request_def store_New_def GetHedgeByClientRequest_def tracker_New_def)

end
