(* ===== verification/Snapshotter.thy ===== *)
theory Snapshotter
  imports Tracker Store "HOL-Library.Sublist"
begin

text \<open>
  The snapshotter of \<open>internal/exposure/snapshotter.go\<close>, which copies the exposures of the tracker to the store. Its
  goroutine runs beside the handlers: a schedule is a list of labels, one for each round of the \<open>select\<close> loop and
  for each operation on the tracker in between, and \<open>snap_step\<close> says which of them are possible.
\<close>

section \<open>State and steps\<close>

record Snapshotter =
  sn_interval :: duration
  sn_ch :: nat

text \<open>\<open>ch\<close> is a new channel.\<close>

definition NewSnapshotter :: "nat \<Rightarrow> duration \<Rightarrow> 'd tracker \<Rightarrow> Snapshotter \<times> 'd tracker" where
  "NewSnapshotter ch interval t =
     (let interval1 = (if interval \<le> 0 then second else interval);
          t1 = t\<lparr>tr_chans := (tr_chans t)(ch := \<lparr>ch_cap = 64, ch_buf = []\<rparr>)\<rparr>
      in (\<lparr>sn_interval = interval1, sn_ch = ch\<rparr>, Subscribe t1 ch))"

text \<open>The tracker, the sink, and whether \<open>Run\<close> has not returned; when it returns it closes \<open>stoppedCh\<close>.\<close>

record 'd snap_state =
  sp_tracker :: "'d tracker"
  sp_sink :: "'d memstore"
  sp_running :: bool

datatype 'd snap_label = LDone | LReceive | LTick "string list" "string list" | LTracker "'d tracker_op" | LStop

definition pop :: "nat \<Rightarrow> 'd tracker \<Rightarrow> 'd tracker" where
  "pop ch t = t\<lparr>tr_chans := (tr_chans t)(ch := (tr_chans t ch)\<lparr>ch_buf := tl (ch_buf (tr_chans t ch))\<rparr>)\<rparr>"

text \<open>The three cases of the loop of \<open>Run\<close>, an operation on the tracker, and the first part of \<open>Stop\<close>.\<close>

fun snap_step :: "Snapshotter \<Rightarrow> 'd::linordered_idom snap_label \<Rightarrow> 'd snap_state \<Rightarrow> 'd snap_state option" where
  "snap_step sn LDone s = (if sp_running s then Some (s\<lparr>sp_running := False\<rparr>) else None)"
| "snap_step sn LReceive s =
     (case ch_buf (tr_chans (sp_tracker s) (sn_ch sn)) of
        [] \<Rightarrow> None
      | e # _ \<Rightarrow>
          if sp_running s then Some (s\<lparr>sp_tracker := pop (sn_ch sn) (sp_tracker s), sp_sink := AppendExposureSnapshot (sp_sink s) e\<rparr>)
          else None)"
| "snap_step sn (LTick ns cs) s =
     (if sp_running s then
        Some (s\<lparr>sp_sink := fold (\<lambda>e st. AppendExposureSnapshot st e) (AllExposures ns cs (sp_tracker s)) (sp_sink s)\<rparr>)
      else None)"
| "snap_step sn (LTracker x) s = Some (s\<lparr>sp_tracker := tracker_step x (sp_tracker s)\<rparr>)"
| "snap_step sn LStop s = Some (s\<lparr>sp_tracker := Unsubscribe (sp_tracker s) (sn_ch sn)\<rparr>)"

text \<open>\<open>Stop\<close> returns when \<open>stoppedCh\<close> is closed.\<close>

definition Stop_returns :: "'d snap_state \<Rightarrow> bool" where
  "Stop_returns s \<longleftrightarrow> \<not> sp_running s"

fun snap_run :: "Snapshotter \<Rightarrow> 'd::linordered_idom snap_label list \<Rightarrow> 'd snap_state \<Rightarrow> 'd snap_state option" where
  "snap_run sn [] s = Some s"
| "snap_run sn (l # ls) s = (case snap_step sn l s of None \<Rightarrow> None | Some s1 \<Rightarrow> snap_run sn ls s1)"

section \<open>No change is lost\<close>

text \<open>The snapshots the tracker offers in a schedule, and schedules in which the channel always has room for
  them and stays subscribed.\<close>

fun offered :: "Snapshotter \<Rightarrow> 'd::linordered_idom snap_label list \<Rightarrow> 'd snap_state \<Rightarrow> 'd Exposure list" where
  "offered sn [] s = []"
| "offered sn (l # ls) s =
     (case l of LTracker x \<Rightarrow> step_snapshots x (sp_tracker s) | _ \<Rightarrow> []) @
     (case snap_step sn l s of None \<Rightarrow> [] | Some s1 \<Rightarrow> offered sn ls s1)"

fun roomy :: "Snapshotter \<Rightarrow> 'd::linordered_idom snap_label list \<Rightarrow> 'd snap_state \<Rightarrow> bool" where
  "roomy sn [] s \<longleftrightarrow> True"
| "roomy sn (l # ls) s \<longleftrightarrow>
     (case l of LTracker x \<Rightarrow> x \<noteq> TUnsubscribe (sn_ch sn) \<and>
        length (ch_buf (tr_chans (sp_tracker s) (sn_ch sn))) + length (step_snapshots x (sp_tracker s)) \<le> ch_cap (tr_chans (sp_tracker s) (sn_ch sn))
      | LStop \<Rightarrow> False | _ \<Rightarrow> True) \<and>
     (case snap_step sn l s of None \<Rightarrow> True | Some s1 \<Rightarrow> roomy sn ls s1)"

lemma fold_append_snapshots: "st_expRows (fold (\<lambda>e st. AppendExposureSnapshot st e) es st) = st_expRows st @ es"
  by (induction es arbitrary: st) (simp_all add: AppendExposureSnapshot_def)

text \<open>What is persisted or still in the channel.\<close>

definition in_flight :: "Snapshotter \<Rightarrow> 'd snap_state \<Rightarrow> 'd Exposure list" where
  "in_flight sn s = st_expRows (sp_sink s) @ ch_buf (tr_chans (sp_tracker s) (sn_ch sn))"

lemma snap_step_in_flight:
  assumes "snap_step sn l s = Some s'" and "roomy sn [l] s" and "sn_ch sn \<in> tr_subs (sp_tracker s)"
  shows "subseq (in_flight sn s @ offered sn [l] s) (in_flight sn s')" and "sn_ch sn \<in> tr_subs (sp_tracker s')"
proof -
  let ?ch = "tr_chans (sp_tracker s) (sn_ch sn)"
  have "subseq (in_flight sn s @ offered sn [l] s) (in_flight sn s') \<and> sn_ch sn \<in> tr_subs (sp_tracker s')"
  proof (cases l)
    case (LTracker x)
    with assms have room: "length (ch_buf ?ch) + length (step_snapshots x (sp_tracker s)) \<le> ch_cap ?ch"
      and s': "s' = s\<lparr>sp_tracker := tracker_step x (sp_tracker s)\<rparr>" and "x \<noteq> TUnsubscribe (sn_ch sn)" by auto
    have "tr_chans (tracker_step x (sp_tracker s)) (sn_ch sn) = ?ch\<lparr>ch_buf := ch_buf ?ch @ step_snapshots x (sp_tracker s)\<rparr>"
      using tracker_step_chan [OF assms(3)] fold_chan_send [of ?ch] room by simp
    with LTracker assms(3) s' \<open>x \<noteq> _\<close> show ?thesis by (simp add: in_flight_def tracker_step_subs)
  next
    case (LTick ns cs)
    have "subseq (xs @ ys) (xs @ zs @ ys)" for xs ys zs :: "'a Exposure list"
      by (intro list_emb_append_mono list_emb_append2 subseq_order.refl)
    with LTick assms show ?thesis
      by (auto simp: in_flight_def fold_append_snapshots split: if_splits)
  qed (use assms in \<open>auto simp: in_flight_def pop_def AppendExposureSnapshot_def split: if_splits list.splits\<close>)
  then show "subseq (in_flight sn s @ offered sn [l] s) (in_flight sn s')" "sn_ch sn \<in> tr_subs (sp_tracker s')" by simp_all
qed

lemma snap_run_in_flight:
  assumes "snap_run sn ls s = Some s'" and "roomy sn ls s" and "sn_ch sn \<in> tr_subs (sp_tracker s)"
  shows "subseq (in_flight sn s @ offered sn ls s) (in_flight sn s')"
  using assms
proof (induction ls arbitrary: s)
  case (Cons l ls)
  then obtain s1 where s1: "snap_step sn l s = Some s1" by (auto split: option.splits)
  have one: "roomy sn [l] s" using Cons.prems(2) s1 by simp
  note st = snap_step_in_flight [OF s1 one Cons.prems(3)]
  have "subseq ((in_flight sn s @ offered sn [l] s) @ offered sn ls s1) (in_flight sn s1 @ offered sn ls s1)"
    by (rule list_emb_append_mono [OF st(1) subseq_order.refl])
  moreover have "subseq (in_flight sn s1 @ offered sn ls s1) (in_flight sn s')"
    using Cons.IH [of s1] Cons.prems s1 st(2) by simp
  ultimately show ?case using s1 by (auto intro: subseq_order.trans)
qed simp

text \<open>C24. No change of the exposures is lost: as long as the channel of the snapshotter has room and stays
  subscribed, under every schedule of its loop, of ticks and of operations on the tracker, each
  snapshot the tracker offered is persisted or still in the channel, in the order of the changes.\<close>

theorem snapshots_persisted:
  assumes "snap_run sn ls s = Some s'" and "roomy sn ls s" and "sn_ch sn \<in> tr_subs (sp_tracker s)"
    and "st_expRows (sp_sink s) = []" and "ch_buf (tr_chans (sp_tracker s) (sn_ch sn)) = []"
  shows "subseq (offered sn ls s) (st_expRows (sp_sink s') @ ch_buf (tr_chans (sp_tracker s') (sn_ch sn)))"
  using snap_run_in_flight [OF assms(1-3)] assms(4,5) by (simp add: in_flight_def)

text \<open>\<open>Stop\<close> only unsubscribes: without the end of the context it never returns.\<close>

lemma Stop_blocks:
  "snap_run sn ls s = Some s' \<Longrightarrow> sp_running s \<Longrightarrow> LDone \<notin> set ls \<Longrightarrow> \<not> Stop_returns s'"
proof (induction ls arbitrary: s)
  case (Cons l ls)
  then obtain s1 where s1: "snap_step sn l s = Some s1" "snap_run sn ls s1 = Some s'" by (auto split: option.splits)
  have "sp_running s1" using s1(1) Cons.prems(2,3) by (cases l) (auto split: if_splits list.splits)
  with Cons.IH [OF s1(2)] Cons.prems(3) show ?case by simp
qed (simp add: Stop_returns_def)

definition sample_snap :: "Snapshotter \<times> rat snap_state" where
  "sample_snap = (let (sn, t) = NewSnapshotter 0 0 tracker_New in (sn, \<lparr>sp_tracker = t, sp_sink = store_New, sp_running = True\<rparr>))"

definition sample_schedule :: "rat snap_label list" where
  "sample_schedule = [LTracker (TAddExposure 1 ''EUR'' 5), LTick [''EUR''] [], LReceive, LTracker (TAddCoverage 2 ''EUR'' 3)]"

theorem snapshots_persisted_witness:
  "\<exists>s'. snap_run (fst sample_snap) sample_schedule (snd sample_snap) = Some s' \<and>
     subseq (offered (fst sample_snap) sample_schedule (snd sample_snap))
       (st_expRows (sp_sink s') @ ch_buf (tr_chans (sp_tracker s') (sn_ch (fst sample_snap)))) \<and>
     map e_OpenAmount (offered (fst sample_snap) sample_schedule (snd sample_snap)) = [5, 2]"
proof -
  have "snap_run (fst sample_snap) sample_schedule (snd sample_snap) \<noteq> None" by code_simp
  then obtain s' where r: "snap_run (fst sample_snap) sample_schedule (snd sample_snap) = Some s'" by blast
  have m: "map e_OpenAmount (offered (fst sample_snap) sample_schedule (snd sample_snap)) = [5, 2]" by code_simp
  have roomy: "roomy (fst sample_snap) sample_schedule (snd sample_snap)" by code_simp
  with r m snapshots_persisted [OF r roomy] show ?thesis
    by (simp add: sample_snap_def NewSnapshotter_def Subscribe_def store_New_def)
qed

end
