(* ===== verification/Stream.thy ===== *)
theory Stream
  imports Grpc Snapshotter
begin

text \<open>
  \<open>StreamExposure\<close> of \<open>internal/grpc/grpc.go\<close>. The handler runs beside everything that changes the tracker: a schedule is
  a list of labels, one for the first snapshot, one for each round of the \<open>select\<close> loop and one for each operation on
  the tracker in between, and \<open>stream_step\<close> says which of them are possible and what they do.
\<close>

section \<open>The handler\<close>

datatype stream_end = StreamOK | StreamEOF | CtxFailed string | SendFailed string | StreamNoCurrency

text \<open>The tracker, whether the loop is reached, what was sent, and how the stream ended, \<open>None\<close> while it is open.\<close>

record 'd stream_state =
  sm_tracker :: "'d tracker"
  sm_looping :: bool
  sm_sent :: "ExposureSnapshot list"
  sm_end :: "stream_end option"

text \<open>The start: a channel of 16 slots is subscribed.\<close>

definition stream_open :: "string \<Rightarrow> nat \<Rightarrow> 'd tracker \<Rightarrow> 'd stream_state" where
  "stream_open ccy ch t =
     (if ccy = [] then \<lparr>sm_tracker = t, sm_looping = False, sm_sent = [], sm_end = Some StreamNoCurrency\<rparr>
      else \<lparr>sm_tracker = Subscribe (t\<lparr>tr_chans := (tr_chans t)(ch := \<lparr>ch_cap = 16, ch_buf = []\<rparr>)\<rparr>) ch,
            sm_looping = False, sm_sent = [], sm_end = None\<rparr>)"

text \<open>The handler returns; the deferred \<open>Unsubscribe\<close> runs.\<close>

definition stream_return :: "nat \<Rightarrow> stream_end \<Rightarrow> 'd stream_state \<Rightarrow> 'd stream_state" where
  "stream_return ch e st = st\<lparr>sm_tracker := Unsubscribe (sm_tracker st) ch, sm_end := Some e\<rparr>"

text \<open>\<open>send n\<close> is the error of the \<open>n\<close>-th \<open>Send\<close>, if any.\<close>

definition stream_send ::
  "'d decimal_pkg \<Rightarrow> (nat \<Rightarrow> string option) \<Rightarrow> nat \<Rightarrow> 'd Exposure \<Rightarrow> 'd stream_state \<Rightarrow> 'd stream_state" where
  "stream_send D send ch e st =
     (case send (length (sm_sent st)) of
        Some err \<Rightarrow> stream_return ch (SendFailed err) st
      | None \<Rightarrow> st\<lparr>sm_sent := sm_sent st @ [snapshotToProto D e]\<rparr>)"

text \<open>\<open>SFirst now\<close> is the snapshot of the current exposure, read at \<open>now\<close>; \<open>SDone\<close> the end of the context, with its error
  unless it was cancelled or ran out of time; \<open>SReceive\<close> a snapshot from the channel; \<open>SClosed\<close> a closed channel.\<close>

datatype 'd stream_label = SFirst time | SDone "string option" | SReceive | SClosed | STracker "'d tracker_op"

fun stream_step ::
  "'d::linordered_idom decimal_pkg \<Rightarrow> (nat \<Rightarrow> string option) \<Rightarrow> string \<Rightarrow> nat \<Rightarrow> 'd stream_label \<Rightarrow> 'd stream_state \<Rightarrow>
   'd stream_state option" where
  "stream_step D send ccy ch (SFirst now) st =
     (if sm_end st = None \<and> \<not> sm_looping st then
        Some (case Tracker.GetExposure now (sm_tracker st) ccy of
                None \<Rightarrow> st\<lparr>sm_looping := True\<rparr>
              | Some e \<Rightarrow> stream_send D send ch e (st\<lparr>sm_looping := True\<rparr>))
      else None)"
| "stream_step D send ccy ch (SDone err) st =
     (if sm_end st = None \<and> sm_looping st then
        Some (stream_return ch (case err of None \<Rightarrow> StreamOK | Some e \<Rightarrow> CtxFailed e) st) else None)"
| "stream_step D send ccy ch SReceive st =
     (case ch_buf (tr_chans (sm_tracker st) ch) of
        [] \<Rightarrow> None
      | e # _ \<Rightarrow>
          if sm_end st = None \<and> sm_looping st then
            (let st1 = st\<lparr>sm_tracker := pop ch (sm_tracker st)\<rparr>
             in Some (if e_Currency e \<noteq> ccy then st1 else stream_send D send ch e st1))
          else None)"
| "stream_step D send ccy ch SClosed st =
     (if sm_end st = None \<and> sm_looping st then Some (stream_return ch StreamEOF st) else None)"
| "stream_step D send ccy ch (STracker x) st = Some (st\<lparr>sm_tracker := tracker_step x (sm_tracker st)\<rparr>)"

fun stream_run ::
  "'d::linordered_idom decimal_pkg \<Rightarrow> (nat \<Rightarrow> string option) \<Rightarrow> string \<Rightarrow> nat \<Rightarrow> 'd stream_label list \<Rightarrow> 'd stream_state \<Rightarrow>
   'd stream_state option" where
  "stream_run D send ccy ch [] st = Some st"
| "stream_run D send ccy ch (l # ls) st =
     (case stream_step D send ccy ch l st of None \<Rightarrow> None | Some st1 \<Rightarrow> stream_run D send ccy ch ls st1)"

definition StreamExposure ::
  "'d::linordered_idom decimal_pkg \<Rightarrow> (nat \<Rightarrow> string option) \<Rightarrow> string \<Rightarrow> nat \<Rightarrow> 'd stream_label list \<Rightarrow> 'd tracker \<Rightarrow>
   'd stream_state option" where
  "StreamExposure D send ccy ch ls t = stream_run D send ccy ch ls (stream_open ccy ch t)"

section \<open>The stream delivers\<close>

text \<open>What a schedule asks the stream to send: the exposure at the time of \<open>SFirst\<close>, and the snapshots of the currency that
  the operations on the tracker offer. A schedule is roomy when the channel has room for each of them
  while the stream is open and nobody else unsubscribes it.\<close>

fun stream_due ::
  "'d::linordered_idom decimal_pkg \<Rightarrow> (nat \<Rightarrow> string option) \<Rightarrow> string \<Rightarrow> nat \<Rightarrow> 'd stream_label list \<Rightarrow> 'd stream_state \<Rightarrow>
   'd Exposure list \<times> 'd Exposure list" where
  "stream_due D send ccy ch [] st = ([], [])"
| "stream_due D send ccy ch (l # ls) st =
     (let (first, later) = (case stream_step D send ccy ch l st of None \<Rightarrow> ([], []) | Some st1 \<Rightarrow> stream_due D send ccy ch ls st1)
      in case l of
        SFirst now \<Rightarrow> ((case Tracker.GetExposure now (sm_tracker st) ccy of None \<Rightarrow> [] | Some e \<Rightarrow> [e]) @ first, later)
      | STracker x \<Rightarrow> (first, filter (\<lambda>e. e_Currency e = ccy) (step_snapshots x (sm_tracker st)) @ later)
      | _ \<Rightarrow> (first, later))"

fun stream_roomy ::
  "'d::linordered_idom decimal_pkg \<Rightarrow> (nat \<Rightarrow> string option) \<Rightarrow> string \<Rightarrow> nat \<Rightarrow> 'd stream_label list \<Rightarrow> 'd stream_state \<Rightarrow> bool" where
  "stream_roomy D send ccy ch [] st \<longleftrightarrow> True"
| "stream_roomy D send ccy ch (l # ls) st \<longleftrightarrow>
     (case l of STracker x \<Rightarrow> sm_end st = None \<longrightarrow> x \<noteq> TUnsubscribe ch \<and>
        length (ch_buf (tr_chans (sm_tracker st) ch)) + length (step_snapshots x (sm_tracker st)) \<le> ch_cap (tr_chans (sm_tracker st) ch)
      | _ \<Rightarrow> True) \<and>
     (case stream_step D send ccy ch l st of None \<Rightarrow> True | Some st1 \<Rightarrow> stream_roomy D send ccy ch ls st1)"

text \<open>What is in the channel for the stream.\<close>

definition pending :: "'d decimal_pkg \<Rightarrow> string \<Rightarrow> nat \<Rightarrow> 'd stream_state \<Rightarrow> ExposureSnapshot list" where
  "pending D ccy ch st = map (snapshotToProto D) (filter (\<lambda>e. e_Currency e = ccy) (ch_buf (tr_chans (sm_tracker st) ch)))"

text \<open>How much of \<open>all\<close> the stream has delivered: everything that is not in the channel while it is open, a beginning of it
  when it ended, and the error of a failed send.\<close>

definition delivered ::
  "'d decimal_pkg \<Rightarrow> (nat \<Rightarrow> string option) \<Rightarrow> string \<Rightarrow> nat \<Rightarrow> ExposureSnapshot list \<Rightarrow> 'd stream_state \<Rightarrow> bool" where
  "delivered D send ccy ch all st \<longleftrightarrow>
     (case sm_end st of
        None \<Rightarrow> all = sm_sent st @ pending D ccy ch st
      | Some e \<Rightarrow> prefix (sm_sent st) all \<and> (\<forall>err. e = SendFailed err \<longrightarrow> send (length (sm_sent st)) = Some err))"

abbreviation protos :: "'d decimal_pkg \<Rightarrow> 'd Exposure list \<Rightarrow> ExposureSnapshot list" where
  "protos D es \<equiv> map (snapshotToProto D) es"

lemma delivered_append: "delivered D send ccy ch all st \<Longrightarrow> sm_end st \<noteq> None \<Longrightarrow> delivered D send ccy ch (all @ xs) st"
  by (auto simp: delivered_def)

lemma ended_step:
  "stream_step D send ccy ch l st = Some st1 \<Longrightarrow> sm_end st \<noteq> None \<Longrightarrow> sm_end st1 = sm_end st \<and> sm_sent st1 = sm_sent st"
  by (cases l) (auto split: list.splits)

lemma ended_run:
  "stream_run D send ccy ch ls st = Some st' \<Longrightarrow> sm_end st \<noteq> None \<Longrightarrow> sm_end st' = sm_end st \<and> sm_sent st' = sm_sent st"
  by (induction ls arbitrary: st) (auto split: option.splits dest!: ended_step)

text \<open>What ends an open stream: the end of the context, the close of the channel or a failed send.\<close>

definition ended_by :: "'d stream_label set \<Rightarrow> stream_end \<Rightarrow> bool" where
  "ended_by ls e =
     (case e of StreamOK \<Rightarrow> SDone None \<in> ls | CtxFailed err \<Rightarrow> SDone (Some err) \<in> ls | StreamEOF \<Rightarrow> SClosed \<in> ls
      | SendFailed err \<Rightarrow> True | StreamNoCurrency \<Rightarrow> False)"

lemma ended_by_mono: "ended_by A e \<Longrightarrow> A \<subseteq> B \<Longrightarrow> ended_by B e"
  by (auto simp: ended_by_def split: stream_end.splits)

lemma step_ended_by:
  "stream_step D send ccy ch l st = Some st1 \<Longrightarrow> sm_end st = None \<Longrightarrow> sm_end st1 = Some e \<Longrightarrow> ended_by {l} e"
  by (cases l) (auto simp: ended_by_def stream_send_def stream_return_def Let_def split: option.splits list.splits if_splits)

lemma run_ended_by:
  "stream_run D send ccy ch ls st = Some st' \<Longrightarrow> sm_end st = None \<Longrightarrow> sm_end st' = Some e \<Longrightarrow> ended_by (set ls) e"
proof (induction ls arbitrary: st)
  case (Cons l ls)
  obtain st1 where st1: "stream_step D send ccy ch l st = Some st1" "stream_run D send ccy ch ls st1 = Some st'"
    using Cons.prems(1) by (auto split: option.splits)
  show ?case
  proof (cases "sm_end st1")
    case None
    from ended_by_mono [OF Cons.IH [OF st1(2) None Cons.prems(3)]] show ?thesis by auto
  next
    case (Some e')
    with ended_run [OF st1(2)] Cons.prems(3) have "sm_end st1 = Some e" by simp
    from ended_by_mono [OF step_ended_by [OF st1(1) Cons.prems(2) this]] show ?thesis by simp
  qed
qed simp

text \<open>One round with the stream open in its loop.\<close>

lemma loop_step:
  assumes "stream_step D send ccy ch l st = Some st1" and "sm_end st = None" and "sm_looping st" and "ch \<in> tr_subs (sm_tracker st)"
    and "stream_roomy D send ccy ch [l] st"
  shows "delivered D send ccy ch (sm_sent st @ pending D ccy ch st @ protos D (snd (stream_due D send ccy ch [l] st))) st1 \<and>
    fst (stream_due D send ccy ch [l] st) = [] \<and> sm_looping st1 \<and> (sm_end st1 = None \<longrightarrow> ch \<in> tr_subs (sm_tracker st1))"
proof (cases l)
  case (STracker x)
  let ?ch = "tr_chans (sm_tracker st) ch"
  from STracker assms have room: "length (ch_buf ?ch) + length (step_snapshots x (sm_tracker st)) \<le> ch_cap ?ch" "x \<noteq> TUnsubscribe ch" by auto
  then have "tr_chans (tracker_step x (sm_tracker st)) ch = ?ch\<lparr>ch_buf := ch_buf ?ch @ step_snapshots x (sm_tracker st)\<rparr>"
    using tracker_step_chan [OF assms(4)] fold_chan_send [of ?ch] by simp
  with STracker assms room(2) show ?thesis by (auto simp: delivered_def pending_def tracker_step_subs)
qed (use assms in \<open>auto simp: delivered_def pending_def stream_send_def stream_return_def pop_def Let_def
  split: list.splits option.splits if_splits\<close>)

lemma due_append:
  assumes "stream_step D send ccy ch l st = Some st1"
  shows "fst (stream_due D send ccy ch (l # ls) st) = fst (stream_due D send ccy ch [l] st) @ fst (stream_due D send ccy ch ls st1)"
    and "snd (stream_due D send ccy ch (l # ls) st) = snd (stream_due D send ccy ch [l] st) @ snd (stream_due D send ccy ch ls st1)"
  using assms by (cases l; simp add: case_prod_beta)+

lemma due_one:
  "fst (stream_due D send ccy ch [l] st) =
     (case l of SFirst now \<Rightarrow> (case Tracker.GetExposure now (sm_tracker st) ccy of None \<Rightarrow> [] | Some e \<Rightarrow> [e]) | _ \<Rightarrow> [])"
  "snd (stream_due D send ccy ch [l] st) =
     (case l of STracker x \<Rightarrow> filter (\<lambda>e. e_Currency e = ccy) (step_snapshots x (sm_tracker st)) | _ \<Rightarrow> [])"
proof -
  have "(case stream_step D send ccy ch l st of None \<Rightarrow> ([], []) | Some st1 \<Rightarrow> stream_due D send ccy ch [] st1) = ([], [])"
    by (simp split: option.splits)
  then show "fst (stream_due D send ccy ch [l] st) =
     (case l of SFirst now \<Rightarrow> (case Tracker.GetExposure now (sm_tracker st) ccy of None \<Rightarrow> [] | Some e \<Rightarrow> [e]) | _ \<Rightarrow> [])"
    "snd (stream_due D send ccy ch [l] st) =
     (case l of STracker x \<Rightarrow> filter (\<lambda>e. e_Currency e = ccy) (step_snapshots x (sm_tracker st)) | _ \<Rightarrow> [])"
    by (simp_all only: stream_due.simps(2) Let_def prod.case) (simp_all split: stream_label.splits)
qed

lemma looping_kept [simp]:
  "sm_looping (stream_return ch e st) = sm_looping st" "sm_looping (stream_send D send ch x st) = sm_looping st"
  by (simp_all add: stream_return_def stream_send_def split: option.splits)

lemma opened_once:
  assumes "stream_step D send ccy ch l st = Some st1" and "sm_end st \<noteq> None \<or> sm_looping st"
  shows "fst (stream_due D send ccy ch [l] st) = []" and "sm_end st1 \<noteq> None \<or> sm_looping st1"
proof -
  show "fst (stream_due D send ccy ch [l] st) = []" unfolding due_one using assms by (cases l) auto
  show "sm_end st1 \<noteq> None \<or> sm_looping st1"
    using assms by (cases l) (auto simp: Let_def stream_return_def split: list.splits if_splits)
qed

lemma ended_due:
  "stream_run D send ccy ch ls st = Some st' \<Longrightarrow> sm_end st \<noteq> None \<or> sm_looping st \<Longrightarrow> fst (stream_due D send ccy ch ls st) = []"
proof (induction ls arbitrary: st)
  case (Cons l ls)
  obtain st1 where st1: "stream_step D send ccy ch l st = Some st1" "stream_run D send ccy ch ls st1 = Some st'"
    using Cons.prems(1) by (auto split: option.splits)
  note one = opened_once [OF st1(1) Cons.prems(2)]
  from Cons.IH [OF st1(2) one(2)] one(1) show ?case unfolding due_append(1) [OF st1(1), of ls] by (simp del: stream_due.simps)
qed simp

lemma loop_run:
  assumes "stream_run D send ccy ch ls st = Some st'" and "stream_roomy D send ccy ch ls st"
    and "sm_end st = None" and "sm_looping st" and "ch \<in> tr_subs (sm_tracker st)"
  shows "delivered D send ccy ch (sm_sent st @ pending D ccy ch st @ protos D (snd (stream_due D send ccy ch ls st))) st'"
  using assms
proof (induction ls arbitrary: st)
  case (Cons l ls)
  obtain st1 where st1: "stream_step D send ccy ch l st = Some st1" "stream_run D send ccy ch ls st1 = Some st'"
    using Cons.prems(1) by (auto split: option.splits)
  have rm: "stream_roomy D send ccy ch [l] st" "stream_roomy D send ccy ch ls st1" using Cons.prems(2) st1(1) by simp_all
  note one = loop_step [OF st1(1) Cons.prems(3-5) rm(1)] and app = due_append [OF st1(1), of ls]
  show ?case
  proof (cases "sm_end st1")
    case None
    with one have "sm_sent st @ pending D ccy ch st @ protos D (snd (stream_due D send ccy ch [l] st)) =
        sm_sent st1 @ pending D ccy ch st1" by (simp add: delivered_def)
    then have eq: "sm_sent st @ pending D ccy ch st @ protos D (snd (stream_due D send ccy ch [l] st) @ snd (stream_due D send ccy ch ls st1)) =
        sm_sent st1 @ pending D ccy ch st1 @ protos D (snd (stream_due D send ccy ch ls st1))" by (metis append_assoc map_append)
    show ?thesis unfolding app(2) eq by (rule Cons.IH [OF st1(2) rm(2) None]) (use one None in simp_all)
  next
    case (Some e)
    have "delivered D send ccy ch ((sm_sent st @ pending D ccy ch st @ protos D (snd (stream_due D send ccy ch [l] st))) @
        protos D (snd (stream_due D send ccy ch ls st1))) st1" by (rule delivered_append [OF conjunct1 [OF one]]) (simp add: Some)
    with Some ended_run [OF st1(2)] show ?thesis unfolding app(2) by (simp add: delivered_def del: stream_due.simps)
  qed
qed (simp add: delivered_def)

text \<open>Before the loop nothing was sent; the first snapshot goes in front of what the channel holds.\<close>

lemma open_run:
  assumes "stream_run D send ccy ch ls st = Some st'" and "stream_roomy D send ccy ch ls st"
    and "sm_end st = None" and "\<not> sm_looping st" and "ch \<in> tr_subs (sm_tracker st)" and "sm_sent st = []"
  shows "delivered D send ccy ch (protos D (fst (stream_due D send ccy ch ls st)) @ pending D ccy ch st @
    protos D (snd (stream_due D send ccy ch ls st))) st'"
  using assms
proof (induction ls arbitrary: st)
  case (Cons l ls)
  obtain st1 where st1: "stream_step D send ccy ch l st = Some st1" "stream_run D send ccy ch ls st1 = Some st'"
    using Cons.prems(1) by (auto split: option.splits)
  have rm: "stream_roomy D send ccy ch [l] st" "stream_roomy D send ccy ch ls st1" using Cons.prems(2) st1(1) by simp_all
  note app = due_append [OF st1(1), of ls]
  show ?case
  proof (cases l)
    case (STracker x)
    let ?ch = "tr_chans (sm_tracker st) ch"
    from STracker rm(1) Cons.prems(3) have room: "length (ch_buf ?ch) + length (step_snapshots x (sm_tracker st)) \<le> ch_cap ?ch"
      "x \<noteq> TUnsubscribe ch" by auto
    then have "tr_chans (tracker_step x (sm_tracker st)) ch = ?ch\<lparr>ch_buf := ch_buf ?ch @ step_snapshots x (sm_tracker st)\<rparr>"
      using tracker_step_chan [OF Cons.prems(5)] fold_chan_send [of ?ch] by simp
    then have "pending D ccy ch st1 = pending D ccy ch st @ protos D (snd (stream_due D send ccy ch [l] st))"
      "fst (stream_due D send ccy ch [l] st) = []"
      using STracker st1(1) by (auto simp: pending_def)
    moreover have "sm_end st1 = None" "\<not> sm_looping st1" "ch \<in> tr_subs (sm_tracker st1)" "sm_sent st1 = []"
      using STracker st1(1) Cons.prems(3-6) room(2) by (auto simp: tracker_step_subs)
    ultimately show ?thesis using Cons.IH [OF st1(2) rm(2)] unfolding app by (simp del: stream_due.simps)
  next
    case (SFirst now)
    have l: "sm_looping st1" "snd (stream_due D send ccy ch [l] st) = []" "fst (stream_due D send ccy ch ls st1) = []"
      using SFirst st1 Cons.prems(3,4) ended_due [OF st1(2)]
      by (auto simp: stream_send_def stream_return_def split: option.splits)
    show ?thesis
    proof (cases "sm_end st1")
      case None
      with SFirst st1(1) Cons.prems(3-6) have "sm_sent st1 = protos D (fst (stream_due D send ccy ch [l] st))"
        "pending D ccy ch st1 = pending D ccy ch st" "ch \<in> tr_subs (sm_tracker st1)"
        by (auto simp: stream_send_def stream_return_def pending_def split: option.splits)
      with loop_run [OF st1(2) rm(2) None l(1)] l show ?thesis unfolding app by (simp del: stream_due.simps)
    next
      case (Some e)
      then have "sm_sent st1 = []" "\<forall>err. e = SendFailed err \<longrightarrow> send 0 = Some err"
        using SFirst st1(1) Cons.prems(3-6) by (auto simp: stream_send_def stream_return_def split: option.splits)
      with Some ended_run [OF st1(2)] show ?thesis by (auto simp: delivered_def)
    qed
  qed (use st1(1) Cons.prems(4) in \<open>auto split: list.splits\<close>)
qed (simp add: delivered_def)

text \<open>C25. A stream that was opened for a currency sends the exposure at the time it starts, if there is one, and then the
  snapshots of its currency that the tracker offers since it subscribed, each once and in their
  order, under every schedule in which its channel of 16 slots has room: while it is open what was
  sent and what is in its channel is all of them, when it ended what was sent is a beginning of
  them, and it ended only because its context did, its channel was closed or the next send
  failed. Without a currency nothing is sent.\<close>

theorem stream_sends:
  assumes "StreamExposure D send ccy ch ls t = Some st" and "stream_roomy D send ccy ch ls (stream_open ccy ch t)"
  defines "due \<equiv> stream_due D send ccy ch ls (stream_open ccy ch t)"
  shows "if ccy = [] then sm_sent st = [] \<and> sm_end st = Some StreamNoCurrency
    else case sm_end st of
        None \<Rightarrow> protos D (fst due @ snd due) = sm_sent st @ pending D ccy ch st
      | Some e \<Rightarrow> prefix (sm_sent st) (protos D (fst due @ snd due)) \<and>
          (case e of StreamOK \<Rightarrow> SDone None \<in> set ls | CtxFailed err \<Rightarrow> SDone (Some err) \<in> set ls
           | StreamEOF \<Rightarrow> SClosed \<in> set ls | SendFailed err \<Rightarrow> send (length (sm_sent st)) = Some err
           | StreamNoCurrency \<Rightarrow> False)"
proof (cases "ccy = []")
  case True
  with assms(1) ended_run [of D send ccy ch ls "stream_open ccy ch t" st] show ?thesis
    by (simp add: StreamExposure_def stream_open_def)
next
  case False
  let ?st = "stream_open ccy ch t"
  from False have o: "sm_end ?st = None" "\<not> sm_looping ?st" "ch \<in> tr_subs (sm_tracker ?st)" "sm_sent ?st = []" "pending D ccy ch ?st = []"
    by (simp_all add: stream_open_def Subscribe_def pending_def)
  note run = assms(1) [unfolded StreamExposure_def]
  from open_run [OF run assms(2) o(1-4)] o(5) have "delivered D send ccy ch (protos D (fst due @ snd due)) st" by (simp add: due_def)
  with False run_ended_by [OF run o(1)] show ?thesis
    by (cases "sm_end st") (auto simp: delivered_def ended_by_def split: stream_end.splits)
qed

theorem stream_sends_witness:
  "let t = Tracker.AddExposure 1 tracker_New ''EUR'' (5::rat);
       ls = [SFirst 3, STracker (TAddCoverage 5 ''EUR'' 2), SReceive, SDone None]
   in \<exists>st. StreamExposure rat_decimal (\<lambda>_. None) ''EUR'' 0 ls t = Some st \<and> sm_end st = Some StreamOK \<and> length (sm_sent st) = 2 \<and>
     prefix (sm_sent st) (protos rat_decimal (fst (stream_due rat_decimal (\<lambda>_. None) ''EUR'' 0 ls (stream_open ''EUR'' 0 t)) @
       snd (stream_due rat_decimal (\<lambda>_. None) ''EUR'' 0 ls (stream_open ''EUR'' 0 t))))"
proof -
  let ?t = "Tracker.AddExposure 1 tracker_New ''EUR'' (5::rat)"
  let ?ls = "[SFirst 3, STracker (TAddCoverage 5 ''EUR'' 2), SReceive, SDone None] :: rat stream_label list"
  note defs = stream_open_def AddExposure_def AddCoverage_def applyDelta_def notify_def chan_send_def snapshotLocked_def tracker_New_def
    Subscribe_def GetExposure_def stream_send_def stream_return_def pop_def Let_def
  have "\<exists>st. StreamExposure rat_decimal (\<lambda>_. None) ''EUR'' 0 ?ls ?t = Some st \<and> sm_end st = Some StreamOK \<and> length (sm_sent st) = 2"
    by (simp add: StreamExposure_def defs)
  then obtain st where r: "StreamExposure rat_decimal (\<lambda>_. None) ''EUR'' 0 ?ls ?t = Some st" "sm_end st = Some StreamOK" "length (sm_sent st) = 2"
    by blast
  have "stream_roomy rat_decimal (\<lambda>_. None) ''EUR'' 0 ?ls (stream_open ''EUR'' 0 ?t)" by (simp add: defs)
  from stream_sends [OF r(1) this] r show ?thesis by (simp add: Let_def del: stream_due.simps)
qed

end
