(* ===== verification/Migrations.thy ===== *)
theory Migrations
  imports Prelude
begin

text \<open>
  The migration runner of \<open>internal/store/migrations/migrations.go\<close>. The embedded directory, the database and
  the clock are arguments. What the runner relies on of the database is the locale \<open>version_table\<close>; it
  is interpreted on the two closures that \<open>postgres.Open\<close> and \<open>cmd/migrate\<close> pass to \<open>NewRunner\<close>, over a
  table of versions beside the rest of the database, on which the scripts work. \<open>main\<close> of \<open>cmd/migrate\<close> is
  \<open>migrate_main\<close>.
\<close>

section \<open>The embedded migrations\<close>

record Migration =
  mg_Version :: string
  mg_Up :: string
  mg_Down :: string

text \<open>An entry of the directory: its name and whether it is a directory.\<close>

type_synonym dir_entry = "string \<times> bool"

datatype mig_error =
  ReadDirError string | ReadFileError string | MissingUpOrDown string
| CreateTableError string | QueryError string | ApplyError string string | RecordError string string
| RevertError string string | DeleteError string

definition blank_migration :: "string \<Rightarrow> Migration" where
  "blank_migration v = \<lparr>mg_Version = v, mg_Up = [], mg_Down = []\<rparr>"

fun all_loop ::
  "(string \<Rightarrow> string + string) \<Rightarrow> dir_entry list \<Rightarrow> (string \<rightharpoonup> Migration) \<Rightarrow> mig_error + (string \<rightharpoonup> Migration)" where
  "all_loop readFile [] byVersion = Inr byVersion"
| "all_loop readFile ((name, isDir) # es) byVersion =
     (if isDir then all_loop readFile es byVersion
      else if HasSuffix name ''_up.sql'' then
        (let version = TrimSuffix name ''_up.sql'' in
         case readFile name of Inl e \<Rightarrow> Inl (ReadFileError e)
         | Inr b \<Rightarrow> (let m = lookup_or (blank_migration version) byVersion version
                    in all_loop readFile es (byVersion(version \<mapsto> m\<lparr>mg_Up := b\<rparr>))))
      else if HasSuffix name ''_down.sql'' then
        (let version = TrimSuffix name ''_down.sql'' in
         case readFile name of Inl e \<Rightarrow> Inl (ReadFileError e)
         | Inr b \<Rightarrow> (let m = lookup_or (blank_migration version) byVersion version
                    in all_loop readFile es (byVersion(version \<mapsto> m\<lparr>mg_Down := b\<rparr>))))
      else all_loop readFile es byVersion)"

fun check_pairs :: "(string \<rightharpoonup> Migration) \<Rightarrow> string list \<Rightarrow> Migration list \<Rightarrow> mig_error + Migration list" where
  "check_pairs byVersion [] out = Inr out"
| "check_pairs byVersion (v # vs) out =
     (let m = lookup_or (blank_migration v) byVersion v in
      if mg_Up m = [] \<or> mg_Down m = [] then Inl (MissingUpOrDown v)
      else check_pairs byVersion vs (out @ [m]))"

text \<open>\<open>order\<close> is the order of the range over the map; \<open>sort.Strings\<close> makes it irrelevant.\<close>

definition All ::
  "string + dir_entry list \<Rightarrow> (string \<Rightarrow> string + string) \<Rightarrow> ((string \<rightharpoonup> Migration) \<Rightarrow> string list) \<Rightarrow> mig_error + Migration list" where
  "All readDir readFile order =
     (case readDir of Inl e \<Rightarrow> Inl (ReadDirError e)
      | Inr entries \<Rightarrow>
          (case all_loop readFile entries Map.empty of Inl e \<Rightarrow> Inl e
           | Inr byVersion \<Rightarrow> check_pairs byVersion (sort (order byVersion)) []))"

section \<open>The runner\<close>

text \<open>The statements the runner executes: the three of its own and the text of a migration.\<close>

datatype statement = CreateSchemaMigrations | InsertVersion string time | DeleteVersion string | Script string

type_synonym 'db ExecFunc = "statement \<Rightarrow> 'db \<Rightarrow> string option \<times> 'db"
type_synonym 'db QueryFunc = "string \<Rightarrow> 'db \<Rightarrow> string + bool"

record 'db Runner =
  rn_exec :: "'db ExecFunc"
  rn_query :: "'db QueryFunc option"

definition NewRunner :: "'db ExecFunc \<Rightarrow> 'db QueryFunc option \<Rightarrow> 'db Runner" where
  "NewRunner exec query = \<lparr>rn_exec = exec, rn_query = query\<rparr>"

text \<open>Whether a version is applied, \<open>None\<close> without a query function; \<open>clock v\<close> is the time at which the
  version \<open>v\<close> is recorded.\<close>

definition is_applied :: "'db Runner \<Rightarrow> string \<Rightarrow> 'db \<Rightarrow> string + bool option" where
  "is_applied r v db = (case rn_query r of None \<Rightarrow> Inr None
     | Some q \<Rightarrow> (case q v db of Inl e \<Rightarrow> Inl e | Inr b \<Rightarrow> Inr (Some b)))"

fun up_loop :: "'db Runner \<Rightarrow> (string \<Rightarrow> time) \<Rightarrow> Migration list \<Rightarrow> 'db \<Rightarrow> mig_error option \<times> 'db" where
  "up_loop r clock [] db = (None, db)"
| "up_loop r clock (m # ms) db =
     (case is_applied r (mg_Version m) db of
        Inl e \<Rightarrow> (Some (QueryError e), db)
      | Inr (Some True) \<Rightarrow> up_loop r clock ms db
      | Inr _ \<Rightarrow>
          (case rn_exec r (Script (mg_Up m)) db of
             (Some e, db1) \<Rightarrow> (Some (ApplyError (mg_Version m) e), db1)
           | (None, db1) \<Rightarrow>
               (case rn_exec r (InsertVersion (mg_Version m) (clock (mg_Version m))) db1 of
                  (Some e, db2) \<Rightarrow> (Some (RecordError (mg_Version m) e), db2)
                | (None, db2) \<Rightarrow> up_loop r clock ms db2)))"

definition Up :: "'db Runner \<Rightarrow> (string \<Rightarrow> time) \<Rightarrow> mig_error + Migration list \<Rightarrow> 'db \<Rightarrow> mig_error option \<times> 'db" where
  "Up r clock allm db =
     (case rn_exec r CreateSchemaMigrations db of
        (Some e, db1) \<Rightarrow> (Some (CreateTableError e), db1)
      | (None, db1) \<Rightarrow> (case allm of Inl e \<Rightarrow> (Some e, db1) | Inr migs \<Rightarrow> up_loop r clock migs db1))"

fun down_loop :: "'db Runner \<Rightarrow> Migration list \<Rightarrow> 'db \<Rightarrow> mig_error option \<times> 'db" where
  "down_loop r [] db = (None, db)"
| "down_loop r (m # ms) db =
     (case is_applied r (mg_Version m) db of
        Inl e \<Rightarrow> (Some (QueryError e), db)
      | Inr (Some False) \<Rightarrow> down_loop r ms db
      | Inr _ \<Rightarrow>
          (case rn_exec r (Script (mg_Down m)) db of
             (Some e, db1) \<Rightarrow> (Some (RevertError (mg_Version m) e), db1)
           | (None, db1) \<Rightarrow>
               (case rn_exec r (DeleteVersion (mg_Version m)) db1 of
                  (Some e, db2) \<Rightarrow> (Some (DeleteError e), db2)
                | (None, db2) \<Rightarrow> down_loop r ms db2)))"

definition Down :: "'db Runner \<Rightarrow> mig_error + Migration list \<Rightarrow> 'db \<Rightarrow> mig_error option \<times> 'db" where
  "Down r allm db = (case allm of Inl e \<Rightarrow> (Some e, db) | Inr migs \<Rightarrow> down_loop r (rev migs) db)"

section \<open>The list of migrations\<close>

lemma check_pairs_Inr:
  "check_pairs byVersion vs out = Inr ms \<Longrightarrow>
     ms = out @ map (\<lambda>v. lookup_or (blank_migration v) byVersion v) vs \<and>
     (\<forall>m\<in>set ms - set out. mg_Up m \<noteq> [] \<and> mg_Down m \<noteq> [])"
  by (induction vs arbitrary: out) (fastforce simp: Let_def split: if_splits)+

definition keyed :: "(string \<rightharpoonup> Migration) \<Rightarrow> bool" where
  "keyed m \<longleftrightarrow> (\<forall>v x. m v = Some x \<longrightarrow> mg_Version x = v)"

lemma keyed_lookup: "keyed m \<Longrightarrow> mg_Version (lookup_or (blank_migration v) m v) = v"
  by (auto simp: keyed_def lookup_or_def blank_migration_def split: option.splits)

lemma keyed_upd: "keyed m \<Longrightarrow> mg_Version x = v \<Longrightarrow> keyed (m(v \<mapsto> x))"
  by (simp add: keyed_def)

lemma all_loop_keyed: "all_loop rf es m = Inr m' \<Longrightarrow> keyed m \<Longrightarrow> keyed m'"
  by (induction rf es m rule: all_loop.induct)
    (auto simp: Let_def keyed_upd keyed_lookup split: if_splits sum.splits)

lemma all_loop_finite: "all_loop rf es m = Inr m' \<Longrightarrow> finite (dom m) \<Longrightarrow> finite (dom m')"
  by (induction rf es m rule: all_loop.induct) (auto simp: Let_def split: if_splits sum.splits)

lemma All_Inr:
  assumes "All rd rf order = Inr ms" and "\<And>m. finite (dom m) \<Longrightarrow> enumerates (order m) m"
  shows "sorted (map mg_Version ms)" and "distinct (map mg_Version ms)"
    and "\<forall>m\<in>set ms. mg_Up m \<noteq> [] \<and> mg_Down m \<noteq> []"
proof -
  obtain es m where m: "all_loop rf es Map.empty = Inr m" and c: "check_pairs m (sort (order m)) [] = Inr ms"
    using assms(1) by (auto simp: All_def split: sum.splits)
  have ms: "ms = map (\<lambda>v. lookup_or (blank_migration v) m v) (sort (order m))"
    and "\<forall>m\<in>set ms. mg_Up m \<noteq> [] \<and> mg_Down m \<noteq> []"
    using check_pairs_Inr [OF c] by simp_all
  have "enumerates (order m) m" by (rule assms(2)) (rule all_loop_finite [OF m], simp)
  then have "distinct (order m)" by (simp add: enumerates_def)
  moreover have "map mg_Version ms = sort (order m)"
  proof -
    have "keyed m" by (rule all_loop_keyed [OF m]) (simp add: keyed_def)
    then show ?thesis by (simp add: ms keyed_lookup map_idI)
  qed
  ultimately show "sorted (map mg_Version ms)" "distinct (map mg_Version ms)" by simp_all
qed (use check_pairs_Inr assms(1) in \<open>auto simp: All_def split: sum.splits\<close>)

section \<open>The contract of the database\<close>

text \<open>Scripts one after the other, up to the first that fails.\<close>

fun run_scripts :: "(string \<Rightarrow> 'r \<Rightarrow> string + 'r) \<Rightarrow> string list \<Rightarrow> 'r \<Rightarrow> string + 'r" where
  "run_scripts sh [] r = Inr r"
| "run_scripts sh (q # qs) r = (case sh q r of Inl e \<Rightarrow> Inl e | Inr r' \<Rightarrow> run_scripts sh qs r')"

lemma run_scripts_append:
  "run_scripts sh (qs @ qs') r = (case run_scripts sh qs r of Inl e \<Rightarrow> Inl e | Inr r' \<Rightarrow> run_scripts sh qs' r')"
  by (induction qs arbitrary: r) (auto split: sum.splits)

text \<open>Each down script undoes its up script on the content it is applied to, when the up scripts run one after the other
  from \<open>r\<close>.\<close>

fun undoes :: "(string \<Rightarrow> 'r \<Rightarrow> string + 'r) \<Rightarrow> Migration list \<Rightarrow> 'r \<Rightarrow> bool" where
  "undoes sh [] r \<longleftrightarrow> True"
| "undoes sh (m # ms) r \<longleftrightarrow> (case sh (mg_Up m) r of Inl _ \<Rightarrow> True | Inr r' \<Rightarrow> sh (mg_Down m) r' = Inr r \<and> undoes sh ms r')"

lemma run_scripts_inverse:
  "undoes sh ms r \<Longrightarrow> run_scripts sh (map mg_Up ms) r = Inr r' \<Longrightarrow> run_scripts sh (map mg_Down (rev ms)) r' = Inr r"
proof (induction ms arbitrary: r)
  case (Cons m ms)
  from Cons.prems(2) obtain r1 where r1: "sh (mg_Up m) r = Inr r1" "run_scripts sh (map mg_Up ms) r1 = Inr r'"
    by (auto split: sum.splits)
  have "run_scripts sh (map mg_Down (rev ms)) r' = Inr r1" by (rule Cons.IH) (use Cons.prems(1) r1 in auto)
  with Cons.prems(1) r1(1) show ?case by (simp add: run_scripts_append)
qed simp

text \<open>What the runner relies on: a statement of its own succeeds when the table exists and does what it
  says to the set of applied versions; a script works on the content of the database besides the
  table, and the query reads the table.\<close>

locale version_table =
  fixes exec :: "'db ExecFunc" and query :: "'db QueryFunc"
    and ready :: "'db \<Rightarrow> bool" and applied :: "'db \<Rightarrow> string set" and content :: "'db \<Rightarrow> 'r"
    and sh :: "string \<Rightarrow> 'r \<Rightarrow> string + 'r"
  assumes exec_create: "\<exists>db'. exec CreateSchemaMigrations db = (None, db') \<and> ready db' \<and> content db' = content db \<and> applied db' = applied db"
    and exec_script: "ready db \<Longrightarrow> case sh q (content db) of
        Inl e \<Rightarrow> \<exists>db' e'. exec (Script q) db = (Some e', db')
      | Inr r \<Rightarrow> \<exists>db'. exec (Script q) db = (None, db') \<and> ready db' \<and> content db' = r \<and> applied db' = applied db"
    and exec_insert: "ready db \<Longrightarrow> \<exists>db'. exec (InsertVersion v t) db = (None, db') \<and> ready db' \<and> content db' = content db \<and>
        applied db' = insert v (applied db)"
    and exec_delete: "ready db \<Longrightarrow> \<exists>db'. exec (DeleteVersion v) db = (None, db') \<and> ready db' \<and> content db' = content db \<and>
        applied db' = applied db - {v}"
    and query_applied: "ready db \<Longrightarrow> query v db = Inr (v \<in> applied db)"
begin

abbreviation runner :: "'db Runner" where
  "runner \<equiv> NewRunner exec (Some query)"

lemma runner_fields [simp]: "rn_exec runner = exec" "rn_query runner = Some query"
  by (simp_all add: NewRunner_def)

lemma is_applied_eq: "ready db \<Longrightarrow> is_applied runner v db = Inr (Some (v \<in> applied db))"
  by (simp add: is_applied_def query_applied)

lemma up_loop_scripts:
  assumes "ready db" and "distinct (map mg_Version ms)"
    and "run_scripts sh (map mg_Up (filter (\<lambda>m. mg_Version m \<notin> applied db) ms)) (content db) = Inr r"
  shows "\<exists>db'. up_loop runner clock ms db = (None, db') \<and> ready db' \<and> content db' = r \<and>
    applied db' = applied db \<union> mg_Version ` set ms"
  using assms
proof (induction ms arbitrary: db)
  case (Cons m ms)
  let ?v = "mg_Version m"
  show ?case
  proof (cases "?v \<in> applied db")
    case True
    with Cons.prems Cons.IH [of db] show ?thesis by (auto simp: is_applied_eq insert_absorb)
  next
    case False
    with Cons.prems(3) obtain r1 where r1: "sh (mg_Up m) (content db) = Inr r1"
      and rest: "run_scripts sh (map mg_Up (filter (\<lambda>m. mg_Version m \<notin> applied db) ms)) r1 = Inr r"
      by (auto split: sum.splits)
    obtain db1 where db1: "exec (Script (mg_Up m)) db = (None, db1)" "ready db1" "content db1 = r1" "applied db1 = applied db"
      using exec_script [OF Cons.prems(1), of "mg_Up m"] r1 by auto
    obtain db2 where db2: "exec (InsertVersion ?v (clock ?v)) db1 = (None, db2)" "ready db2" "content db2 = r1"
      "applied db2 = insert ?v (applied db)"
      using exec_insert [OF db1(2)] db1(3,4) by metis
    have "filter (\<lambda>m. mg_Version m \<notin> applied db2) ms = filter (\<lambda>m. mg_Version m \<notin> applied db) ms"
      using Cons.prems(2) db2(4) by (intro filter_cong) (auto simp: image_iff)
    then have "\<exists>db'. up_loop runner clock ms db2 = (None, db') \<and> ready db' \<and> content db' = r \<and>
        applied db' = applied db2 \<union> mg_Version ` set ms"
      using Cons.IH [OF db2(2)] Cons.prems(2) rest db2(3) by simp
    with False db1(1) db2(1,4) show ?thesis
      by (auto simp: is_applied_eq [OF Cons.prems(1)])
  qed
qed simp

lemma up_loop_error:
  assumes "ready db" and "distinct (map mg_Version ms)"
    and "run_scripts sh (map mg_Up (filter (\<lambda>m. mg_Version m \<notin> applied db) ms)) (content db) = Inl e"
  shows "fst (up_loop runner clock ms db) \<noteq> None"
  using assms
proof (induction ms arbitrary: db)
  case (Cons m ms)
  let ?v = "mg_Version m"
  show ?case
  proof (cases "?v \<in> applied db")
    case True
    with Cons.prems Cons.IH [of db] show ?thesis by (simp add: is_applied_eq)
  next
    case new: False
    show ?thesis
    proof (cases "sh (mg_Up m) (content db)")
      case (Inl e1)
      with exec_script [OF Cons.prems(1), of "mg_Up m"] new show ?thesis by (auto simp: is_applied_eq [OF Cons.prems(1)])
    next
      case (Inr r1)
      obtain db1 where db1: "exec (Script (mg_Up m)) db = (None, db1)" "ready db1" "content db1 = r1" "applied db1 = applied db"
        using exec_script [OF Cons.prems(1), of "mg_Up m"] Inr by auto
      obtain db2 where db2: "exec (InsertVersion ?v (clock ?v)) db1 = (None, db2)" "ready db2" "content db2 = r1"
        "applied db2 = insert ?v (applied db)"
        using exec_insert [OF db1(2)] db1(3,4) by metis
      have "filter (\<lambda>m. mg_Version m \<notin> applied db2) ms = filter (\<lambda>m. mg_Version m \<notin> applied db) ms"
        using Cons.prems(2) db2(4) by (intro filter_cong) (auto simp: image_iff)
      with Cons.IH [OF db2(2)] Cons.prems(2,3) Inr db2(3) new have "fst (up_loop runner clock ms db2) \<noteq> None" by simp
      with new db1(1) db2(1) show ?thesis by (simp add: is_applied_eq [OF Cons.prems(1)])
    qed
  qed
qed simp

lemma down_loop_scripts:
  assumes "ready db" and "distinct (map mg_Version ms)"
    and "run_scripts sh (map mg_Down (filter (\<lambda>m. mg_Version m \<in> applied db) ms)) (content db) = Inr r"
  shows "\<exists>db'. down_loop runner ms db = (None, db') \<and> ready db' \<and> content db' = r \<and>
    applied db' = applied db - mg_Version ` set ms"
  using assms
proof (induction ms arbitrary: db)
  case (Cons m ms)
  let ?v = "mg_Version m"
  show ?case
  proof (cases "?v \<in> applied db")
    case False
    with Cons.prems Cons.IH [of db] show ?thesis by (auto simp: is_applied_eq)
  next
    case True
    with Cons.prems(3) obtain r1 where r1: "sh (mg_Down m) (content db) = Inr r1"
      and rest: "run_scripts sh (map mg_Down (filter (\<lambda>m. mg_Version m \<in> applied db) ms)) r1 = Inr r"
      by (auto split: sum.splits)
    obtain db1 where db1: "exec (Script (mg_Down m)) db = (None, db1)" "ready db1" "content db1 = r1" "applied db1 = applied db"
      using exec_script [OF Cons.prems(1), of "mg_Down m"] r1 by auto
    obtain db2 where db2: "exec (DeleteVersion ?v) db1 = (None, db2)" "ready db2" "content db2 = r1"
      "applied db2 = applied db - {?v}"
      using exec_delete [OF db1(2)] db1(3,4) by metis
    have "filter (\<lambda>m. mg_Version m \<in> applied db2) ms = filter (\<lambda>m. mg_Version m \<in> applied db) ms"
      using Cons.prems(2) db2(4) by (intro filter_cong) (auto simp: image_iff)
    then have "\<exists>db'. down_loop runner ms db2 = (None, db') \<and> ready db' \<and> content db' = r \<and>
        applied db' = applied db2 - mg_Version ` set ms"
      using Cons.IH [OF db2(2)] Cons.prems(2) rest db2(3) by simp
    with True db1(1) db2(1,4) show ?thesis
      by (auto simp: is_applied_eq [OF Cons.prems(1)])
  qed
qed simp

text \<open>Up and Down for a good list of migrations.\<close>

lemma Up_ok:
  assumes "distinct (map mg_Version ms)"
    and "run_scripts sh (map mg_Up (filter (\<lambda>m. mg_Version m \<notin> applied db) ms)) (content db) = Inr r"
  shows "\<exists>db'. Up runner clock (Inr ms) db = (None, db') \<and> ready db' \<and> content db' = r \<and>
    applied db' = applied db \<union> mg_Version ` set ms"
proof -
  obtain db1 where db1: "exec CreateSchemaMigrations db = (None, db1)" "ready db1" "content db1 = content db" "applied db1 = applied db"
    using exec_create by metis
  with up_loop_scripts [OF db1(2) assms(1), of r] assms(2) show ?thesis by (simp add: Up_def)
qed

text \<open>A successful Up ran exactly the scripts of the pending migrations, in their order.\<close>

lemma Up_done:
  assumes "distinct (map mg_Version ms)" and "Up runner clock (Inr ms) db = (None, db')"
  shows "run_scripts sh (map mg_Up (filter (\<lambda>m. mg_Version m \<notin> applied db) ms)) (content db) = Inr (content db') \<and>
    applied db' = applied db \<union> mg_Version ` set ms \<and> ready db'"
proof (cases "run_scripts sh (map mg_Up (filter (\<lambda>m. mg_Version m \<notin> applied db) ms)) (content db)")
  case (Inl e)
  obtain db1 where db1: "exec CreateSchemaMigrations db = (None, db1)" "ready db1" "content db1 = content db" "applied db1 = applied db"
    using exec_create by metis
  with up_loop_error [OF db1(2) assms(1), of e clock] Inl assms(2) show ?thesis by (simp add: Up_def)
next
  case (Inr r)
  from Up_ok [OF assms(1) this, of clock] assms(2) Inr show ?thesis by auto
qed

lemma Up_again:
  assumes "distinct (map mg_Version ms)" and "mg_Version ` set ms \<subseteq> applied db"
  shows "\<exists>db'. Up runner clock (Inr ms) db = (None, db') \<and> content db' = content db \<and> applied db' = applied db"
proof -
  have none: "filter (\<lambda>m. mg_Version m \<notin> applied db) ms = []" using assms(2) by (auto simp: filter_empty_conv)
  from Up_ok [OF assms(1), of db "content db" clock] show ?thesis by (auto simp: none Un_absorb2 [OF assms(2)])
qed

lemma Down_ok:
  assumes "ready db" and "distinct (map mg_Version ms)"
    and "run_scripts sh (map mg_Down (filter (\<lambda>m. mg_Version m \<in> applied db) (rev ms))) (content db) = Inr r"
  shows "\<exists>db'. Down runner (Inr ms) db = (None, db') \<and> ready db' \<and> content db' = r \<and>
    applied db' = applied db - mg_Version ` set ms"
  using down_loop_scripts [OF assms(1), of "rev ms"] assms(2,3) by (simp add: Down_def rev_map [symmetric])

lemma Up_Down:
  assumes "distinct (map mg_Version ms)" and "applied db \<inter> mg_Version ` set ms = {}"
    and "undoes sh ms (content db)" and "Up runner clock (Inr ms) db = (None, db1)"
  shows "\<exists>db2. Down runner (Inr ms) db1 = (None, db2) \<and> content db2 = content db \<and> applied db2 = applied db"
proof -
  have all: "filter (\<lambda>m. mg_Version m \<notin> applied db) ms = ms" using assms(2) by (auto simp: filter_id_conv)
  have db1: "run_scripts sh (map mg_Up ms) (content db) = Inr (content db1)" "ready db1"
    "applied db1 = applied db \<union> mg_Version ` set ms"
    using Up_done [OF assms(1,4)] by (auto simp: all)
  have "filter (\<lambda>m. mg_Version m \<in> applied db1) (rev ms) = rev ms" using db1(3) by (auto simp: filter_id_conv)
  with Down_ok [OF db1(2) assms(1)] run_scripts_inverse [OF assms(3) db1(1)] obtain db2 where
    "Down runner (Inr ms) db1 = (None, db2)" "content db2 = content db" "applied db2 = applied db1 - mg_Version ` set ms"
    by auto
  moreover have "applied db1 - mg_Version ` set ms = applied db" using db1(3) assms(2) by auto
  ultimately show ?thesis by metis
qed

end

section \<open>The command\<close>

text \<open>\<open>main\<close> of \<open>cmd/migrate\<close>: the two flags, \<open>DB_URL\<close>, the errors of opening and of pinging the pool, and the
  runner over it. The outcome is what it prints before it exits.\<close>

datatype migrate_outcome =
  Usage | NoURL | OpenFailed string | PingFailed string | UpFailed mig_error | Applied | DownFailed mig_error | Reverted

fun exit_code :: "migrate_outcome \<Rightarrow> nat" where
  "exit_code Usage = 2"
| "exit_code Applied = 0"
| "exit_code Reverted = 0"
| "exit_code _ = 1"

definition migrate_main ::
  "bool \<Rightarrow> bool \<Rightarrow> string \<Rightarrow> string option \<Rightarrow> string option \<Rightarrow> 'db Runner \<Rightarrow> (string \<Rightarrow> time) \<Rightarrow> mig_error + Migration list \<Rightarrow> 'db \<Rightarrow>
   migrate_outcome \<times> 'db" where
  "migrate_main up down dsn new_err ping_err runner clock allm db =
     (if \<not> up \<and> \<not> down then (Usage, db)
      else if dsn = [] then (NoURL, db)
      else case new_err of Some e \<Rightarrow> (OpenFailed e, db)
      | None \<Rightarrow>
        (case ping_err of Some e \<Rightarrow> (PingFailed e, db)
         | None \<Rightarrow>
             if up then
               (case Up runner clock allm db of (Some e, db1) \<Rightarrow> (UpFailed e, db1) | (None, db1) \<Rightarrow> (Applied, db1))
             else (case Down runner allm db of (Some e, db1) \<Rightarrow> (DownFailed e, db1) | (None, db1) \<Rightarrow> (Reverted, db1))))"

lemma migrate_main_up:
  "migrate_main True d dsn None None r clock allm db = (Applied, db1) \<longleftrightarrow> dsn \<noteq> [] \<and> Up r clock allm db = (None, db1)"
  by (auto simp: migrate_main_def split: prod.splits option.splits)

lemma migrate_main_down:
  "migrate_main False True dsn None None r clock allm db = (Reverted, db1) \<longleftrightarrow> dsn \<noteq> [] \<and> Down r allm db = (None, db1)"
  by (auto simp: migrate_main_def split: prod.splits option.splits)

text \<open>Up is idempotent: after a successful Up a second one succeeds, runs no script and leaves the content
  and the set of versions as they are.\<close>

theorem migrate_up_idempotent:
  assumes "version_table exec query ready applied content sh"
    and "All readDir readFile order = Inr ms" and "\<And>m. finite (dom m) \<Longrightarrow> enumerates (order m) m"
    and "Up (NewRunner exec (Some query)) clock (All readDir readFile order) db = (None, db1)"
  shows "\<exists>db2. Up (NewRunner exec (Some query)) clock2 (All readDir readFile order) db1 = (None, db2) \<and>
    content db2 = content db1 \<and> applied db2 = applied db1"
proof -
  have d: "distinct (map mg_Version ms)" by (rule All_Inr(2) [OF assms(2)]) (rule assms(3))
  have "mg_Version ` set ms \<subseteq> applied db1"
    using version_table.Up_done [OF assms(1) d] assms(2,4) by auto
  from version_table.Up_again [OF assms(1) d this] show ?thesis by (simp add: assms(2))
qed

section \<open>A database that keeps the contract\<close>

text \<open>The closures over the pool, on a server that executes every statement: the table \<open>schema_migrations\<close> with its primary key, if it was created,
  beside the rest of the database, on which the interpreter \<open>sh\<close> of SQL runs a script. \<open>INSERT ... ON
  CONFLICT DO NOTHING\<close> keeps an existing row.\<close>

record 'r pgdb =
  pg_versions :: "(string \<times> time) list option"
  pg_content :: 'r

fun pg_exec :: "(string \<Rightarrow> 'r \<Rightarrow> string + 'r) \<Rightarrow> 'r pgdb ExecFunc" where
  "pg_exec sh CreateSchemaMigrations db =
     (None, case pg_versions db of None \<Rightarrow> db\<lparr>pg_versions := Some []\<rparr> | Some _ \<Rightarrow> db)"
| "pg_exec sh (InsertVersion v t) db =
     (case pg_versions db of None \<Rightarrow> (Some ''relation does not exist'', db)
      | Some vs \<Rightarrow> (None, if v \<in> fst ` set vs then db else db\<lparr>pg_versions := Some (vs @ [(v, t)])\<rparr>))"
| "pg_exec sh (DeleteVersion v) db =
     (case pg_versions db of None \<Rightarrow> (Some ''relation does not exist'', db)
      | Some vs \<Rightarrow> (None, db\<lparr>pg_versions := Some (filter (\<lambda>row. fst row \<noteq> v) vs)\<rparr>))"
| "pg_exec sh (Script q) db =
     (case sh q (pg_content db) of Inl e \<Rightarrow> (Some e, db) | Inr r \<Rightarrow> (None, db\<lparr>pg_content := r\<rparr>))"

definition pg_query :: "'r pgdb QueryFunc" where
  "pg_query v db = (case pg_versions db of None \<Rightarrow> Inl ''relation does not exist'' | Some vs \<Rightarrow> Inr (v \<in> fst ` set vs))"

definition pg_applied :: "'r pgdb \<Rightarrow> string set" where
  "pg_applied db = (case pg_versions db of None \<Rightarrow> {} | Some vs \<Rightarrow> fst ` set vs)"

interpretation pg: version_table "pg_exec sh" pg_query "\<lambda>db. pg_versions db \<noteq> None" pg_applied pg_content sh
  for sh :: "string \<Rightarrow> 'r \<Rightarrow> string + 'r"
  by unfold_locales (auto simp: pg_query_def pg_applied_def split: option.splits sum.splits)

definition pg_runner :: "(string \<Rightarrow> 'r \<Rightarrow> string + 'r) \<Rightarrow> 'r pgdb Runner" where
  "pg_runner sh = NewRunner (pg_exec sh) (Some pg_query)"

section \<open>The embedded scripts\<close>

text \<open>The statements of the two scripts of the repository, \<open>0001_init_up.sql\<close> and \<open>0001_init_down.sql\<close>, on the relations of a
  database: tables and indexes share their names, each belongs to a table, and a table has rows. A table is created
  only when its name is free, an index too, and needs its table; a table that is dropped takes its indexes with
  it and is skipped when it is missing. The columns, and the indexes of keys, which have no names in the script, are
  left out.\<close>

datatype ddl = CreateTable string | CreateIndex string string | DropTable string

record 'v relation =
  re_name :: string
  re_table :: string
  re_rows :: "'v list"

definition is_relation :: "string \<Rightarrow> 'v relation list \<Rightarrow> bool" where
  "is_relation n rels \<longleftrightarrow> list_ex (\<lambda>r. re_name r = n) rels"

definition is_table :: "string \<Rightarrow> 'v relation list \<Rightarrow> bool" where
  "is_table t rels \<longleftrightarrow> list_ex (\<lambda>r. re_name r = t \<and> re_table r = t) rels"

fun ddl_step :: "ddl \<Rightarrow> 'v relation list \<Rightarrow> string + 'v relation list" where
  "ddl_step (CreateTable t) rels =
     (if is_relation t rels then Inr rels else Inr (rels @ [\<lparr>re_name = t, re_table = t, re_rows = []\<rparr>]))"
| "ddl_step (CreateIndex i t) rels =
     (if \<not> is_table t rels then Inl ''relation does not exist''
      else if is_relation i rels then Inr rels else Inr (rels @ [\<lparr>re_name = i, re_table = t, re_rows = []\<rparr>]))"
| "ddl_step (DropTable t) rels =
     (if is_table t rels then Inr (filter (\<lambda>r. re_table r \<noteq> t) rels)
      else if is_relation t rels then Inl ''is not a table'' else Inr rels)"

fun ddl_run :: "ddl list \<Rightarrow> 'v relation list \<Rightarrow> string + 'v relation list" where
  "ddl_run [] rels = Inr rels"
| "ddl_run (d # ds) rels = (case ddl_step d rels of Inl e \<Rightarrow> Inl e | Inr rels1 \<Rightarrow> ddl_run ds rels1)"

definition init_up :: "ddl list" where
  "init_up =
     [CreateTable ''fx_exposures'', CreateIndex ''fx_exposures_currency_ts_idx'' ''fx_exposures'',
      CreateTable ''hedges'', CreateIndex ''hedges_status_idx'' ''hedges'', CreateIndex ''hedges_client_request_id_idx'' ''hedges'',
      CreateTable ''hedge_executions'', CreateIndex ''hedge_executions_hedge_venue_trade_idx'' ''hedge_executions'',
      CreateTable ''fx_pnl'', CreateIndex ''fx_pnl_currency_ts_idx'' ''fx_pnl'',
      CreateTable ''slippage_samples'', CreateIndex ''slippage_samples_pair_ts_idx'' ''slippage_samples'']"

definition init_down :: "ddl list" where
  "init_down = map DropTable [''slippage_samples'', ''fx_pnl'', ''hedge_executions'', ''hedges'', ''fx_exposures'']"

text \<open>What a statement names, and the relation it creates.\<close>

fun ddl_name :: "ddl \<Rightarrow> string" where
  "ddl_name (CreateTable t) = t" | "ddl_name (CreateIndex i t) = i" | "ddl_name (DropTable t) = t"

fun ddl_table :: "ddl \<Rightarrow> string" where
  "ddl_table (CreateTable t) = t" | "ddl_table (CreateIndex i t) = t" | "ddl_table (DropTable t) = t"

definition created :: "ddl \<Rightarrow> 'v relation" where
  "created d = \<lparr>re_name = ddl_name d, re_table = ddl_table d, re_rows = []\<rparr>"

definition without_init :: "'v relation list \<Rightarrow> bool" where
  "without_init rels \<longleftrightarrow> (\<forall>r\<in>set rels. re_name r \<notin> ddl_name ` set init_up \<and> re_table r \<notin> ddl_table ` set init_up)"

text \<open>A script is executed as one transaction; \<open>sql\<close> is how the server reads its text.\<close>

definition script_sh :: "(string \<Rightarrow> ddl list option) \<Rightarrow> string \<Rightarrow> 'v relation list \<Rightarrow> string + 'v relation list" where
  "script_sh sql q rels = (case sql q of None \<Rightarrow> Inl ''syntax error'' | Some ds \<Rightarrow> ddl_run ds rels)"

lemma is_relation_append [simp]: "is_relation n (rels @ [r]) \<longleftrightarrow> is_relation n rels \<or> re_name r = n"
  by (auto simp: is_relation_def)

lemma is_table_append [simp]: "is_table t (rels @ [r]) \<longleftrightarrow> is_table t rels \<or> re_name r = t \<and> re_table r = t"
  by (auto simp: is_table_def)

text \<open>A list of statements that create, each index after its table; \<open>ts\<close> are the tables there are.\<close>

fun creates :: "string list \<Rightarrow> ddl list \<Rightarrow> bool" where
  "creates ts [] \<longleftrightarrow> True"
| "creates ts (CreateTable t # ds) \<longleftrightarrow> creates (t # ts) ds"
| "creates ts (CreateIndex i t # ds) \<longleftrightarrow> t \<in> set ts \<and> creates ts ds"
| "creates ts (DropTable t # ds) \<longleftrightarrow> False"

lemma run_creates:
  assumes "creates ts ds" and "\<forall>t\<in>set ts. is_table t rels" and "distinct (map ddl_name ds)"
    and "\<forall>d\<in>set ds. \<not> is_relation (ddl_name d) rels"
  shows "ddl_run ds rels = Inr (rels @ map created ds)"
  using assms
proof (induction ts ds arbitrary: rels rule: creates.induct)
  case (2 ts t ds)
  let ?rels = "rels @ [created (CreateTable t)]"
  have "ddl_run ds ?rels = Inr (?rels @ map created ds)"
    by (rule "2.IH") (use "2.prems" in \<open>auto simp: created_def\<close>)
  with "2.prems"(4) show ?case by (simp add: created_def)
next
  case (3 ts i t ds)
  let ?rels = "rels @ [created (CreateIndex i t)]"
  have "ddl_run ds ?rels = Inr (?rels @ map created ds)"
    by (rule "3.IH") (use "3.prems" in \<open>auto simp: created_def\<close>)
  with "3.prems" show ?case by (simp add: created_def)
qed simp_all

lemma run_drops:
  "distinct ts \<Longrightarrow> \<forall>t\<in>set ts. is_table t rels \<Longrightarrow> ddl_run (map DropTable ts) rels = Inr (filter (\<lambda>r. re_table r \<notin> set ts) rels)"
proof (induction ts arbitrary: rels)
  case (Cons t ts)
  have "is_table u (filter (\<lambda>r. re_table r \<noteq> t) rels)" if "is_table u rels" "u \<noteq> t" for u
    using that by (auto simp: is_table_def list_ex_iff)
  moreover have "t \<notin> set ts" "\<forall>u\<in>set ts. is_table u rels" using Cons.prems by simp_all
  ultimately have "\<forall>u\<in>set ts. is_table u (filter (\<lambda>r. re_table r \<noteq> t) rels)" by metis
  with Cons show ?case by (simp add: conj_commute)
qed simp

lemma init_up_run:
  assumes "without_init rels"
  shows "ddl_run init_up rels = Inr (rels @ map created init_up)"
proof (rule run_creates)
  show "creates [] init_up" "distinct (map ddl_name init_up)" by (simp_all add: init_up_def)
qed (use assms in \<open>auto simp: without_init_def is_relation_def list_ex_iff\<close>)

lemma init_down_run:
  assumes "without_init rels"
  shows "ddl_run init_down (rels @ map created init_up) = Inr rels"
proof -
  let ?ts = "[''slippage_samples'', ''fx_pnl'', ''hedge_executions'', ''hedges'', ''fx_exposures'']"
  have "distinct ?ts" by simp
  moreover have "\<forall>t\<in>set ?ts. CreateTable t \<in> set init_up" by (simp add: init_up_def)
  then have "\<forall>t\<in>set ?ts. is_table t (rels @ map created init_up)" by (force simp: is_table_def list_ex_iff created_def)
  moreover have in_ts: "\<forall>d\<in>set init_up. ddl_table d \<in> set ?ts" by (simp add: init_up_def)
  moreover have "filter (\<lambda>r. re_table r \<notin> set ?ts) rels = rels"
  proof -
    have "set ?ts \<subseteq> ddl_table ` set init_up" by (simp add: init_up_def)
    with assms show ?thesis by (auto simp: filter_id_conv without_init_def)
  qed
  ultimately show ?thesis using run_drops [of ?ts "rels @ map created init_up"]
    by (simp add: init_down_def filter_map comp_def created_def del: set_simps)
qed

definition embedded_dir :: "dir_entry list" where
  "embedded_dir = [(''0001_init_down.sql'', False), (''0001_init_up.sql'', False)]"

lemma distinct_singleton_list: "distinct xs \<Longrightarrow> set xs = {x} \<Longrightarrow> xs = [x]"
proof (cases xs)
  case (Cons y ys)
  assume "distinct xs" "set xs = {x}"
  with Cons have "y = x" "set ys \<subseteq> {x}" "x \<notin> set ys" by auto
  then have "set ys = {}" by (metis subset_singletonD insertI1)
  with Cons \<open>y = x\<close> show ?thesis by simp
qed simp

lemma embedded_All:
  assumes "readFile ''0001_init_up.sql'' = Inr up" and "readFile ''0001_init_down.sql'' = Inr dn" and "up \<noteq> []" and "dn \<noteq> []"
    and "\<And>m. finite (dom m) \<Longrightarrow> enumerates (order m) m"
  shows "All (Inr embedded_dir) readFile order = Inr [\<lparr>mg_Version = ''0001_init'', mg_Up = up, mg_Down = dn\<rparr>]"
proof -
  let ?m = "[''0001_init'' \<mapsto> \<lparr>mg_Version = ''0001_init'', mg_Up = up, mg_Down = dn\<rparr>]"
  have "all_loop readFile embedded_dir Map.empty = Inr ?m"
    by (simp add: embedded_dir_def assms(1,2) HasSuffix_def TrimSuffix_def blank_migration_def lookup_or_def Let_def)
  moreover have "order ?m = [''0001_init'']"
  proof -
    have "distinct (order ?m)" "set (order ?m) = {''0001_init''}" using assms(5) [of ?m] by (simp_all add: enumerates_def)
    then show ?thesis by (rule distinct_singleton_list)
  qed
  ultimately show ?thesis using assms(3,4) by (simp add: All_def lookup_or_def)
qed

text \<open>C23. Migrating up and down again is a round trip for the migration of the repository: on a server that executes every
  statement, with none of the relations of \<open>0001_init\<close> there and its version not recorded, \<open>migrate --up\<close>
  succeeds, adds exactly the tables and indexes of the script, empty, and records the version, and
  \<open>migrate --down\<close> then succeeds and restores the relations, with their rows, and the set of versions. The
  order of the range over the versions does not matter.\<close>

theorem migrate_roundtrip:
  assumes "readFile ''0001_init_up.sql'' = Inr up" and "readFile ''0001_init_down.sql'' = Inr dn" and "up \<noteq> []" and "dn \<noteq> []"
    and "sql up = Some init_up" and "sql dn = Some init_down" and "\<And>m. finite (dom m) \<Longrightarrow> enumerates (order m) m"
    and "dsn \<noteq> []" and "without_init (pg_content db)" and "''0001_init'' \<notin> pg_applied db"
  defines "allm \<equiv> All (Inr embedded_dir) readFile order"
  shows "\<exists>db1 db2. migrate_main True d dsn None None (pg_runner (script_sh sql)) clock allm db = (Applied, db1) \<and>
    pg_content db1 = pg_content db @ map created init_up \<and> pg_applied db1 = insert ''0001_init'' (pg_applied db) \<and>
    migrate_main False True dsn None None (pg_runner (script_sh sql)) clock' allm db1 = (Reverted, db2) \<and>
    pg_content db2 = pg_content db \<and> pg_applied db2 = pg_applied db"
proof -
  let ?m = "\<lparr>mg_Version = ''0001_init'', mg_Up = up, mg_Down = dn\<rparr>" and ?sh = "script_sh sql"
  have all: "allm = Inr [?m]" unfolding allm_def using assms(1-4,7) by (rule embedded_All)
  have up: "?sh up (pg_content db) = Inr (pg_content db @ map created init_up)"
    and dn: "?sh dn (pg_content db @ map created init_up) = Inr (pg_content db)"
    by (simp_all add: script_sh_def assms(5,6) init_up_run [OF assms(9)] init_down_run [OF assms(9)])
  obtain db1 where db1: "Up (pg_runner ?sh) clock (Inr [?m]) db = (None, db1)" "pg_content db1 = pg_content db @ map created init_up"
    "pg_applied db1 = insert ''0001_init'' (pg_applied db)"
    using pg.Up_ok [where ms = "[?m]" and db = db and sh = ?sh and r = "pg_content db @ map created init_up" and clock = clock] assms(10) up by (auto simp: pg_runner_def)
  have "undoes ?sh [?m] (pg_content db)" by (simp add: up dn)
  with pg.Up_Down [where ms = "[?m]" and db = db and sh = ?sh and clock = clock and ?db1.0 = db1] db1(1) assms(10)
  obtain db2 where "Down (pg_runner ?sh) (Inr [?m]) db1 = (None, db2)" "pg_content db2 = pg_content db" "pg_applied db2 = pg_applied db"
    by (auto simp: pg_runner_def)
  with db1 assms(8) show ?thesis unfolding all migrate_main_up migrate_main_down by blast
qed

theorem migrate_roundtrip_witness:
  "let sql = (\<lambda>q. if q = ''up'' then Some init_up else if q = ''down'' then Some init_down else None);
       allm = All (Inr embedded_dir) (\<lambda>f. Inr (if f = ''0001_init_up.sql'' then ''up'' else ''down'')) (\<lambda>m. sorted_list_of_set (dom m));
       db = \<lparr>pg_versions = None, pg_content = [\<lparr>re_name = ''users'', re_table = ''users'', re_rows = [7::nat]\<rparr>]\<rparr>
   in \<exists>db1 db2. migrate_main True False ''postgres'' None None (pg_runner (script_sh sql)) (\<lambda>_. 1) allm db = (Applied, db1) \<and>
     length (pg_content db1) = 12 \<and>
     migrate_main False True ''postgres'' None None (pg_runner (script_sh sql)) (\<lambda>_. 2) allm db1 = (Reverted, db2) \<and>
     pg_content db2 = pg_content db"
proof -
  let ?sql = "\<lambda>q. if q = ''up'' then Some init_up else if q = ''down'' then Some init_down else None"
  let ?rf = "\<lambda>f. Inr (if f = ''0001_init_up.sql'' then ''up'' else ''down'')"
  let ?db = "\<lparr>pg_versions = None, pg_content = [\<lparr>re_name = ''users'', re_table = ''users'', re_rows = [7::nat]\<rparr>]\<rparr>"
  have "without_init (pg_content ?db)" "''0001_init'' \<notin> pg_applied ?db"
    by (simp_all add: without_init_def init_up_def pg_applied_def)
  moreover have "enumerates (sorted_list_of_set (dom m)) m" if "finite (dom m)" for m :: "string \<rightharpoonup> Migration"
    using that by (simp add: enumerates_def)
  moreover have "length init_up = 11" by (simp add: init_up_def)
  ultimately show ?thesis
    using migrate_roundtrip [of ?rf "''up''" "''down''" ?sql "\<lambda>m. sorted_list_of_set (dom m)" "''postgres''" ?db False "\<lambda>_. 1" "\<lambda>_. 2"]
    unfolding Let_def by fastforce
qed

end
