(* ===== verification/Postgres.thy ===== *)
theory Postgres
  imports Store Migrations
begin

text \<open>
  The store of \<open>internal/store/postgres/postgres.go\<close>. The statements are in the source and are translated as
  operations on lists of rows, one list for each table of \<open>0001_init_up.sql\<close>, with the columns the program writes
  or reads. The driver and the server are not part of the repository: how a value crosses them, in which order rows
  come where the statement leaves it open, and what reading NULL into a time gives are the fields of \<open>pgx\<close>; whether
  the \<open>n\<close>-th statement fails, for whatever reason, or its connection breaks is the oracle \<open>db_fault\<close>.
\<close>

section \<open>Tables\<close>

text \<open>The ids are columns of type \<open>UUID\<close>. The program stores the text of \<open>uuid.UUID.String\<close>, on which such a column is the
  identity, so they are strings here; a lookup with a text that is no UUID fails on the server and finds no row
  here, which the store answers alike.\<close>

record hedge_row =
  hr_id :: string
  hr_currency :: string
  hr_notional :: float64
  hr_tenor :: string
  hr_type :: string
  hr_status :: string
  hr_quoted_rate :: float64
  hr_slippage_bps :: float64
  hr_pnl :: float64
  hr_client_request_id :: string
  hr_policy_ratio :: float64
  hr_policy_cap_usd :: float64
  hr_cap_breached :: bool
  hr_value_date :: "time option"
  hr_created_at :: time
  hr_updated_at :: time

record execution_row =
  xr_id :: string
  xr_hedge_id :: string
  xr_venue :: string
  xr_venue_trade_id :: string
  xr_fill_price :: float64
  xr_quoted_price :: float64
  xr_slippage_bps :: float64
  xr_amount :: float64
  xr_ts :: time

record fx_pnl_row =
  pr_id :: string
  pr_currency :: string
  pr_component :: string
  pr_realized :: float64
  pr_unrealized :: float64
  pr_rate :: float64
  pr_ts :: time

record sample_row =
  sr_id :: string
  sr_pair :: string
  sr_quoted_rate :: float64
  sr_executed_rate :: float64
  sr_slippage_bps :: float64
  sr_ts :: time

record fx_exposure_row =
  er_id :: string
  er_currency :: string
  er_net_amount :: float64
  er_hedge_coverage :: float64
  er_open_amount :: float64
  er_ts :: time

section \<open>The driver and the server\<close>

text \<open>A statement can fail without effect, or its connection can break: then an update was made although an error is
  reported, and a query delivers some rows before it ends.\<close>

datatype pg_fault = Healthy | Fails | Breaks nat

record DB =
  db_hedges :: "hedge_row list"
  db_executions :: "execution_row list"
  db_fx_pnl :: "fx_pnl_row list"
  db_samples :: "sample_row list"
  db_exposures :: "fx_exposure_row list"
  db_fault :: "nat \<Rightarrow> pg_fault"
  db_count :: nat
  db_uuid :: "nat \<Rightarrow> string"
  db_ids :: nat

record pgx =
  to_float8 :: "string \<Rightarrow> float64"
  float8_text :: "float64 \<Rightarrow> string"
  to_timestamptz :: "time \<Rightarrow> time"
  to_date :: "time \<Rightarrow> time"
  null_time :: "time option"
  some_order :: "hedge_row list \<Rightarrow> hedge_row list"
  hedges_by_created_at :: "hedge_row list \<Rightarrow> hedge_row list"
  executions_by_ts :: "execution_row list \<Rightarrow> execution_row list"
  pnl_by_id :: "fx_pnl_row list \<Rightarrow> fx_pnl_row list"
  samples_by_ts :: "sample_row list \<Rightarrow> sample_row list"
  exposures_by_ts :: "fx_exposure_row list \<Rightarrow> fx_exposure_row list"

text \<open>What the program relies on, as documented: \<open>ORDER BY\<close> sorts, a query without it returns the rows in some order,
  and NULL cannot be scanned into a \<open>time.Time\<close>.\<close>

definition pgx_ok :: "pgx \<Rightarrow> bool" where
  "pgx_ok X \<longleftrightarrow> null_time X = None \<and> (\<forall>rs. mset (some_order X rs) = mset rs) \<and>
     sorts_by hr_created_at (hedges_by_created_at X) \<and> sorts_by xr_ts (executions_by_ts X) \<and> sorts_by pr_id (pnl_by_id X) \<and>
     sorts_by sr_ts (samples_by_ts X) \<and> sorts_by er_ts (exposures_by_ts X)"

text \<open>An update violates a constraint where it is \<open>None\<close>. The first component says that no error is reported.\<close>

definition db_exec :: "(DB \<Rightarrow> DB option) \<Rightarrow> DB \<Rightarrow> bool \<times> DB" where
  "db_exec upd s =
     (let s1 = s\<lparr>db_count := Suc (db_count s)\<rparr> in
      case db_fault s (db_count s) of
        Fails \<Rightarrow> (False, s1)
      | Breaks _ \<Rightarrow> (False, case upd s1 of None \<Rightarrow> s1 | Some s2 \<Rightarrow> s2)
      | Healthy \<Rightarrow> (case upd s1 of None \<Rightarrow> (False, s1) | Some s2 \<Rightarrow> (True, s2)))"

text \<open>\<open>Query\<close>: an error, or the rows the loop over \<open>rows.Next\<close> sees and whether \<open>rows.Err\<close> is nil afterwards.\<close>

definition db_query :: "(DB \<Rightarrow> 'r list) \<Rightarrow> DB \<Rightarrow> ('r list \<times> bool) option \<times> DB" where
  "db_query q s =
     (let s1 = s\<lparr>db_count := Suc (db_count s)\<rparr> in
      (case db_fault s (db_count s) of
         Fails \<Rightarrow> None | Breaks n \<Rightarrow> Some (take n (q s), False) | Healthy \<Rightarrow> Some (q s, True), s1))"

text \<open>\<open>QueryRow\<close> reports an error without a row and on every failure.\<close>

definition db_query_row :: "(DB \<Rightarrow> 'r list) \<Rightarrow> DB \<Rightarrow> 'r option \<times> DB" where
  "db_query_row q s =
     (case db_query q s of
        (Some (r # _, True), s1) \<Rightarrow> (Some r, s1)
      | (_, s1) \<Rightarrow> (None, s1))"

definition uuid_NewV7 :: "DB \<Rightarrow> string \<times> DB" where
  "uuid_NewV7 s = (db_uuid s (db_ids s), s\<lparr>db_ids := Suc (db_ids s)\<rparr>)"

text \<open>A decimal is sent as text for a column of type \<open>DOUBLE PRECISION\<close> and read back as text; an error of
  \<open>NewFromString\<close> is dropped and leaves zero.\<close>

definition float8_col :: "'d decimal_pkg \<Rightarrow> pgx \<Rightarrow> 'd \<Rightarrow> float64" where
  "float8_col D X d = to_float8 X (DecString D d)"

definition read_decimal :: "'d::zero decimal_pkg \<Rightarrow> pgx \<Rightarrow> float64 \<Rightarrow> 'd" where
  "read_decimal D X f = (case NewFromString D (float8_text X f) of None \<Rightarrow> 0 | Some d \<Rightarrow> d)"

section \<open>Opening the store\<close>

datatype open_error = PoolError string | MigrateError mig_error

definition db_Open ::
  "string option \<Rightarrow> string option \<Rightarrow> 'db Runner \<Rightarrow> (string \<Rightarrow> time) \<Rightarrow> mig_error + Migration list \<Rightarrow> 'db \<Rightarrow> (open_error + 'db) \<times> 'db" where
  "db_Open new_err ping_err runner clock allm db =
     (case new_err of Some e \<Rightarrow> (Inl (PoolError e), db)
      | None \<Rightarrow>
        (case ping_err of Some e \<Rightarrow> (Inl (PoolError e), db)
         | None \<Rightarrow>
           (case Up runner clock allm db of
              (Some e, db1) \<Rightarrow> (Inl (MigrateError e), db1)
            | (None, db1) \<Rightarrow> (Inr db1, db1))))"

section \<open>Hedges\<close>

text \<open>Two \<open>INSERT\<close> statements, without and with the column \<open>value_date\<close>, which is NULL by default.\<close>

definition hedge_values :: "'d decimal_pkg \<Rightarrow> pgx \<Rightarrow> 'd Hedge \<Rightarrow> time option \<Rightarrow> hedge_row" where
  "hedge_values D X h value_date =
     \<lparr>hr_id = h_ID h, hr_currency = h_Currency h, hr_notional = float8_col D X (h_Notional h), hr_tenor = h_Tenor h,
      hr_type = h_Type h, hr_status = h_Status h, hr_quoted_rate = float8_col D X (h_QuotedRate h),
      hr_slippage_bps = h_SlippageBPS h, hr_pnl = float8_col D X (h_PnL h), hr_client_request_id = h_ClientRequestID h,
      hr_policy_ratio = h_PolicyRatio h, hr_policy_cap_usd = float8_col D X (h_PolicyCapUSD h),
      hr_cap_breached = h_CapBreached h, hr_value_date = map_option (to_date X) value_date,
      hr_created_at = to_timestamptz X (h_CreatedAt h), hr_updated_at = to_timestamptz X (h_UpdatedAt h)\<rparr>"

text \<open>The primary key.\<close>

definition insert_hedge :: "hedge_row \<Rightarrow> DB \<Rightarrow> DB option" where
  "insert_hedge row s =
     (if hr_id row \<in> hr_id ` set (db_hedges s) then None else Some (s\<lparr>db_hedges := db_hedges s @ [row]\<rparr>))"

definition execution_values :: "'d decimal_pkg \<Rightarrow> pgx \<Rightarrow> string \<Rightarrow> 'd Hedge \<Rightarrow> 'd Fill \<Rightarrow> execution_row" where
  "execution_values D X fillID h f =
     \<lparr>xr_id = fillID, xr_hedge_id = h_ID h, xr_venue = fl_Venue f, xr_venue_trade_id = fl_VenueTradeID f,
      xr_fill_price = float8_col D X (fl_Price f), xr_quoted_price = float8_col D X (h_QuotedRate h),
      xr_slippage_bps = h_SlippageBPS h, xr_amount = float8_col D X (fl_Amount f), xr_ts = to_timestamptz X (fl_Timestamp f)\<rparr>"

definition same_trade :: "execution_row \<Rightarrow> execution_row \<Rightarrow> bool" where
  "same_trade r r' \<longleftrightarrow> xr_venue r = xr_venue r' \<and> xr_venue_trade_id r = xr_venue_trade_id r'"

text \<open>\<open>INSERT ... ON CONFLICT (venue, venue_trade_id) DO UPDATE\<close>: a row with the same trade takes the new values and keeps
  its id and its hedge.\<close>

definition upsert_execution :: "execution_row \<Rightarrow> DB \<Rightarrow> DB option" where
  "upsert_execution row s =
     (if list_ex (same_trade row) (db_executions s) then
        Some (s\<lparr>db_executions := map (\<lambda>r. if same_trade row r then
            r\<lparr>xr_fill_price := xr_fill_price row, xr_quoted_price := xr_quoted_price row,
              xr_slippage_bps := xr_slippage_bps row, xr_amount := xr_amount row, xr_ts := xr_ts row\<rparr> else r) (db_executions s)\<rparr>)
      else if xr_id row \<in> xr_id ` set (db_executions s) then None
      else Some (s\<lparr>db_executions := db_executions s @ [row]\<rparr>))"

fun sync_loop :: "'d decimal_pkg \<Rightarrow> pgx \<Rightarrow> 'd Hedge \<Rightarrow> 'd Fill list \<Rightarrow> DB \<Rightarrow> DB" where
  "sync_loop D X h [] s = s"
| "sync_loop D X h (f # fs) s =
     (let (fillID, s1) = uuid_NewV7 s
      in sync_loop D X h fs (snd (db_exec (upsert_execution (execution_values D X fillID h f)) s1)))"

definition syncFills :: "'d decimal_pkg \<Rightarrow> pgx \<Rightarrow> 'd Hedge \<Rightarrow> DB \<Rightarrow> DB" where
  "syncFills D X h s = (if h_Fills h = [] then s else sync_loop D X h (h_Fills h) s)"

definition db_CreateHedge :: "'d decimal_pkg \<Rightarrow> pgx \<Rightarrow> 'd Hedge \<Rightarrow> DB \<Rightarrow> DB" where
  "db_CreateHedge D X h s =
     (let valueDate = h_ValueDate h;
          s1 = (if valueDate = 0 then snd (db_exec (insert_hedge (hedge_values D X h None)) s)
                else snd (db_exec (insert_hedge (hedge_values D X h (Some valueDate))) s))
      in syncFills D X h s1)"

definition read_fill :: "'d::zero decimal_pkg \<Rightarrow> pgx \<Rightarrow> execution_row \<Rightarrow> 'd Fill" where
  "read_fill D X r =
     \<lparr>fl_HedgeID = xr_hedge_id r, fl_Venue = xr_venue r, fl_VenueTradeID = xr_venue_trade_id r,
      fl_Price = read_decimal D X (xr_fill_price r), fl_Amount = read_decimal D X (xr_amount r), fl_Timestamp = xr_ts r\<rparr>"

definition loadFills :: "'d::zero decimal_pkg \<Rightarrow> pgx \<Rightarrow> string \<Rightarrow> DB \<Rightarrow> 'd Fill list option \<times> DB" where
  "loadFills D X hedgeID s =
     (case db_query (\<lambda>s. executions_by_ts X (filter (\<lambda>r. xr_hedge_id r = hedgeID) (db_executions s))) s of
        (Some (rows, True), s1) \<Rightarrow> (Some (map (read_fill D X) rows), s1)
      | (_, s1) \<Rightarrow> (None, s1))"

text \<open>Scanning a row of \<open>hedges\<close> into a \<open>domain.Hedge\<close>, without the fills; the field \<open>Venue\<close> has no column.\<close>

definition scan_hedge :: "'d::zero decimal_pkg \<Rightarrow> pgx \<Rightarrow> hedge_row \<Rightarrow> 'd Hedge option" where
  "scan_hedge D X r =
     (case (case hr_value_date r of None \<Rightarrow> null_time X | Some t \<Rightarrow> Some t) of
        None \<Rightarrow> None
      | Some valueDate \<Rightarrow> Some
          \<lparr>h_ID = hr_id r, h_Currency = hr_currency r, h_Notional = read_decimal D X (hr_notional r), h_Tenor = hr_tenor r,
           h_Type = hr_type r, h_Status = hr_status r, h_QuotedRate = read_decimal D X (hr_quoted_rate r), h_Fills = [],
           h_SlippageBPS = hr_slippage_bps r, h_PnL = read_decimal D X (hr_pnl r), h_ClientRequestID = hr_client_request_id r,
           h_PolicyRatio = hr_policy_ratio r, h_PolicyCapUSD = read_decimal D X (hr_policy_cap_usd r),
           h_CapBreached = hr_cap_breached r, h_ValueDate = (if valueDate \<noteq> 0 then valueDate else 0), h_Venue = [],
           h_CreatedAt = hr_created_at r, h_UpdatedAt = hr_updated_at r\<rparr>)"

definition with_fills :: "'d::zero decimal_pkg \<Rightarrow> pgx \<Rightarrow> 'd Hedge \<Rightarrow> DB \<Rightarrow> 'd Hedge \<times> DB" where
  "with_fills D X h s =
     (case loadFills D X (h_ID h) s of (Some fills, s1) \<Rightarrow> (h\<lparr>h_Fills := fills\<rparr>, s1) | (None, s1) \<Rightarrow> (h, s1))"

definition get_row :: "'d::zero decimal_pkg \<Rightarrow> pgx \<Rightarrow> (DB \<Rightarrow> hedge_row list) \<Rightarrow> DB \<Rightarrow> 'd Hedge option \<times> DB" where
  "get_row D X q s =
     (case db_query_row q s of
        (None, s1) \<Rightarrow> (None, s1)
      | (Some row, s1) \<Rightarrow>
          (case scan_hedge D X row of None \<Rightarrow> (None, s1)
           | Some h \<Rightarrow> (let (h1, s2) = with_fills D X h s1 in (Some h1, s2))))"

definition db_GetHedgeByClientRequest :: "'d::zero decimal_pkg \<Rightarrow> pgx \<Rightarrow> string \<Rightarrow> DB \<Rightarrow> 'd Hedge option \<times> DB" where
  "db_GetHedgeByClientRequest D X reqID s =
     (if reqID = [] then (None, s)
      else get_row D X (\<lambda>s. some_order X (filter (\<lambda>r. hr_client_request_id r = reqID) (db_hedges s))) s)"

definition db_HasFill :: "string \<Rightarrow> string \<Rightarrow> DB \<Rightarrow> bool \<times> DB" where
  "db_HasFill venue venueTradeID s =
     (if venue = [] \<or> venueTradeID = [] then (False, s)
      else case db_query_row (\<lambda>s. [list_ex (\<lambda>r. xr_venue r = venue \<and> xr_venue_trade_id r = venueTradeID) (db_executions s)]) s of
        (None, s1) \<Rightarrow> (False, s1) | (Some ex, s1) \<Rightarrow> (ex, s1))"

definition db_GetHedge :: "'d::zero decimal_pkg \<Rightarrow> pgx \<Rightarrow> string \<Rightarrow> DB \<Rightarrow> 'd Hedge option \<times> DB" where
  "db_GetHedge D X i s = get_row D X (\<lambda>s. some_order X (filter (\<lambda>r. hr_id r = i) (db_hedges s))) s"

text \<open>\<open>UPDATE hedges ... WHERE id=$1\<close> sets every column but the id and \<open>created_at\<close>.\<close>

definition update_hedge :: "string \<Rightarrow> hedge_row \<Rightarrow> DB \<Rightarrow> DB option" where
  "update_hedge i row s =
     Some (s\<lparr>db_hedges := map (\<lambda>r. if hr_id r = i then row\<lparr>hr_id := hr_id r, hr_created_at := hr_created_at r\<rparr> else r) (db_hedges s)\<rparr>)"

datatype pg_error = StoreError store_error | SQLError

text \<open>The hedge returned without an error is read again and can be nil.\<close>

definition db_UpdateHedge ::
  "'d::zero decimal_pkg \<Rightarrow> pgx \<Rightarrow> string \<Rightarrow> ('d Hedge \<Rightarrow> 'd Hedge \<times> string option) \<Rightarrow> DB \<Rightarrow> (pg_error + 'd Hedge option) \<times> DB" where
  "db_UpdateHedge D X i fn s =
     (case db_GetHedge D X i s of
        (None, s1) \<Rightarrow> (Inl (StoreError ErrNotFound), s1)
      | (Some h0, s1) \<Rightarrow>
          (case fn h0 of
             (_, Some e) \<Rightarrow> (Inl (StoreError (FnError e)), s1)
           | (h, None) \<Rightarrow>
               (let valueDate = h_ValueDate h;
                    (ok, s2) = (if valueDate = 0 then db_exec (update_hedge i (hedge_values D X h None)) s1
                                else db_exec (update_hedge i (hedge_values D X h (Some valueDate))) s1)
                in if \<not> ok then (Inl SQLError, s2)
                   else let (r, s3) = db_GetHedge D X i (syncFills D X h s2) in (Inr r, s3))))"

fun scan_loop :: "'d::zero decimal_pkg \<Rightarrow> pgx \<Rightarrow> hedge_row list \<Rightarrow> 'd Hedge list \<Rightarrow> DB \<Rightarrow> (bool \<times> 'd Hedge list) \<times> DB" where
  "scan_loop D X [] out s = ((True, out), s)"
| "scan_loop D X (r # rs) out s =
     (case scan_hedge D X r of
        None \<Rightarrow> ((False, out), s)
      | Some h \<Rightarrow> (let (h1, s1) = with_fills D X h s in scan_loop D X rs (out @ [h1]) s1))"

definition scanHedges ::
  "('d Hedge list \<Rightarrow> 'd Hedge list) \<Rightarrow> 'd::zero decimal_pkg \<Rightarrow> pgx \<Rightarrow> hedge_row list \<Rightarrow> DB \<Rightarrow> 'd Hedge list \<times> DB" where
  "scanHedges srt D X rows s = (case scan_loop D X rows [] s of ((ok, out), s1) \<Rightarrow> (if ok then srt out else out, s1))"

definition db_HedgesByCurrency ::
  "('d Hedge list \<Rightarrow> 'd Hedge list) \<Rightarrow> 'd::zero decimal_pkg \<Rightarrow> pgx \<Rightarrow> string \<Rightarrow> DB \<Rightarrow> 'd Hedge list \<times> DB" where
  "db_HedgesByCurrency srt D X currency s =
     (case db_query (\<lambda>s. hedges_by_created_at X (filter (\<lambda>r. hr_currency r = currency) (db_hedges s))) s of
        (None, s1) \<Rightarrow> ([], s1) | (Some (rows, _), s1) \<Rightarrow> scanHedges srt D X rows s1)"

definition db_AllHedges ::
  "('d Hedge list \<Rightarrow> 'd Hedge list) \<Rightarrow> 'd::zero decimal_pkg \<Rightarrow> pgx \<Rightarrow> DB \<Rightarrow> 'd Hedge list \<times> DB" where
  "db_AllHedges srt D X s =
     (case db_query (\<lambda>s. hedges_by_created_at X (db_hedges s)) s of
        (None, s1) \<Rightarrow> ([], s1) | (Some (rows, _), s1) \<Rightarrow> scanHedges srt D X rows s1)"

section \<open>Samples, profit and loss, exposures\<close>

definition db_AddSlippageSample :: "'d decimal_pkg \<Rightarrow> pgx \<Rightarrow> 'd SlippageSample \<Rightarrow> DB \<Rightarrow> DB" where
  "db_AddSlippageSample D X sample s =
     (let (sampleID, s1) = uuid_NewV7 s;
          row = \<lparr>sr_id = sampleID, sr_pair = ss_Pair sample, sr_quoted_rate = float8_col D X (ss_QuotedRate sample),
                 sr_executed_rate = float8_col D X (ss_ExecutedRate sample), sr_slippage_bps = ss_SlippageBPS sample,
                 sr_ts = to_timestamptz X (ss_Timestamp sample)\<rparr>
      in snd (db_exec (\<lambda>s. if sampleID \<in> sr_id ` set (db_samples s) then None
                           else Some (s\<lparr>db_samples := db_samples s @ [row]\<rparr>)) s1))"

definition db_AddPnL :: "'d decimal_pkg \<Rightarrow> pgx \<Rightarrow> time \<Rightarrow> 'd PnL \<Rightarrow> DB \<Rightarrow> DB" where
  "db_AddPnL D X now p s =
     (let (pnlID, s1) = uuid_NewV7 s;
          row = \<lparr>pr_id = pnlID, pr_currency = pl_Currency p, pr_component = ''HEDGE_PNL'',
                 pr_realized = float8_col D X (pl_Realized p), pr_unrealized = float8_col D X (pl_Unrealized p),
                 pr_rate = float8_col D X (pc_SlippageCost (pl_Components p)), pr_ts = to_timestamptz X now\<rparr>
      in snd (db_exec (\<lambda>s. if pnlID \<in> pr_id ` set (db_fx_pnl s) then None
                           else Some (s\<lparr>db_fx_pnl := db_fx_pnl s @ [row]\<rparr>)) s1))"

definition read_pnl :: "'d::linordered_idom decimal_pkg \<Rightarrow> pgx \<Rightarrow> fx_pnl_row \<Rightarrow> 'd PnL" where
  "read_pnl D X r =
     (let realized = read_decimal D X (pr_realized r); unrealized = read_decimal D X (pr_unrealized r) in
      \<lparr>pl_Currency = pr_currency r, pl_Realized = realized, pl_Unrealized = unrealized, pl_Total = realized + unrealized,
       pl_Components = \<lparr>pc_HedgePnL = realized, pc_SpotPnL = 0, pc_SlippageCost = read_decimal D X (pr_rate r)\<rparr>\<rparr>)"

definition db_AllPnL :: "'d::linordered_idom decimal_pkg \<Rightarrow> pgx \<Rightarrow> DB \<Rightarrow> 'd PnL list \<times> DB" where
  "db_AllPnL D X s =
     (case db_query (\<lambda>s. pnl_by_id X (db_fx_pnl s)) s of
        (None, s1) \<Rightarrow> ([], s1) | (Some (rows, _), s1) \<Rightarrow> (map (read_pnl D X) rows, s1))"

definition db_AppendExposureSnapshot :: "'d decimal_pkg \<Rightarrow> pgx \<Rightarrow> 'd Exposure \<Rightarrow> DB \<Rightarrow> DB" where
  "db_AppendExposureSnapshot D X e s =
     (let (expID, s1) = uuid_NewV7 s;
          row = \<lparr>er_id = expID, er_currency = e_Currency e, er_net_amount = float8_col D X (e_NetAmount e),
                 er_hedge_coverage = float8_col D X (e_HedgeCoverage e), er_open_amount = float8_col D X (e_OpenAmount e),
                 er_ts = to_timestamptz X (e_UpdatedAt e)\<rparr>
      in snd (db_exec (\<lambda>s. if expID \<in> er_id ` set (db_exposures s) then None
                           else Some (s\<lparr>db_exposures := db_exposures s @ [row]\<rparr>)) s1))"

definition read_exposure :: "'d::zero decimal_pkg \<Rightarrow> pgx \<Rightarrow> fx_exposure_row \<Rightarrow> 'd Exposure" where
  "read_exposure D X r =
     \<lparr>e_Currency = er_currency r, e_NetAmount = read_decimal D X (er_net_amount r),
      e_HedgeCoverage = read_decimal D X (er_hedge_coverage r), e_OpenAmount = read_decimal D X (er_open_amount r),
      e_UpdatedAt = er_ts r\<rparr>"

definition db_ExposureSnapshots :: "'d::zero decimal_pkg \<Rightarrow> pgx \<Rightarrow> string \<Rightarrow> DB \<Rightarrow> 'd Exposure list \<times> DB" where
  "db_ExposureSnapshots D X currency s =
     (case db_query (\<lambda>s. exposures_by_ts X
         (if currency \<noteq> [] then filter (\<lambda>r. er_currency r = currency) (db_exposures s) else db_exposures s)) s of
        (None, s1) \<Rightarrow> ([], s1) | (Some (rows, _), s1) \<Rightarrow> (map (read_exposure D X) rows, s1))"

definition read_sample :: "'d::zero decimal_pkg \<Rightarrow> pgx \<Rightarrow> sample_row \<Rightarrow> 'd SlippageSample" where
  "read_sample D X r =
     \<lparr>ss_Pair = sr_pair r, ss_QuotedRate = read_decimal D X (sr_quoted_rate r),
      ss_ExecutedRate = read_decimal D X (sr_executed_rate r), ss_SlippageBPS = sr_slippage_bps r, ss_Timestamp = sr_ts r\<rparr>"

text \<open>The conditions of the \<open>WHERE\<close> clause that the arguments add.\<close>

definition sample_conds :: "pgx \<Rightarrow> string \<Rightarrow> time \<Rightarrow> time \<Rightarrow> (sample_row \<Rightarrow> bool) list" where
  "sample_conds X pair fro til =
     (if pair \<noteq> [] then [\<lambda>r. sr_pair r = pair] else []) @
     (if fro \<noteq> 0 then [\<lambda>r. to_timestamptz X fro \<le> sr_ts r] else []) @
     (if til \<noteq> 0 then [\<lambda>r. sr_ts r \<le> to_timestamptz X til] else [])"

definition db_SlippageSamples ::
  "'d::zero decimal_pkg \<Rightarrow> pgx \<Rightarrow> string \<Rightarrow> time \<Rightarrow> time \<Rightarrow> DB \<Rightarrow> 'd SlippageSample list \<times> DB" where
  "db_SlippageSamples D X pair fro til s =
     (case db_query (\<lambda>s. samples_by_ts X (filter (\<lambda>r. list_all (\<lambda>c. c r) (sample_conds X pair fro til)) (db_samples s))) s of
        (None, s1) \<Rightarrow> ([], s1) | (Some (rows, _), s1) \<Rightarrow> (map (read_sample D X) rows, s1))"

section \<open>Reading\<close>

definition healthy :: "DB \<Rightarrow> bool" where
  "healthy s \<longleftrightarrow> (\<forall>n. db_fault s n = Healthy)"

lemma healthy_upd [simp]:
  "healthy (s\<lparr>db_count := n\<rparr>) = healthy s" "healthy (s\<lparr>db_ids := m\<rparr>) = healthy s"
  "healthy (s\<lparr>db_hedges := hs\<rparr>) = healthy s" "healthy (s\<lparr>db_executions := xs\<rparr>) = healthy s"
  by (simp_all add: healthy_def)

lemma db_exec_healthy:
  "healthy s \<Longrightarrow> db_exec upd s = (case upd (s\<lparr>db_count := Suc (db_count s)\<rparr>) of
     None \<Rightarrow> (False, s\<lparr>db_count := Suc (db_count s)\<rparr>) | Some s2 \<Rightarrow> (True, s2))"
  by (simp add: db_exec_def healthy_def Let_def)

lemma db_query_healthy: "healthy s \<Longrightarrow> db_query q s = (Some (q s, True), s\<lparr>db_count := Suc (db_count s)\<rparr>)"
  by (simp add: db_query_def healthy_def)

lemma db_query_rows: "fst (db_query q s) = Some (rows, ok) \<Longrightarrow> \<exists>n. rows = take n (q s)"
  by (auto simp: db_query_def Let_def intro: exI [of _ "length (q s)"] split: pg_fault.splits)

lemma db_query_row_mem: "fst (db_query_row q s) = Some r \<Longrightarrow> r \<in> set (q s)"
  by (auto simp: db_query_row_def db_query_def Let_def split: pg_fault.splits list.splits option.splits prod.splits bool.splits)

text \<open>What the tables say of a hedge.\<close>

definition fills_of :: "'d::zero decimal_pkg \<Rightarrow> pgx \<Rightarrow> DB \<Rightarrow> string \<Rightarrow> 'd Fill list" where
  "fills_of D X s i = map (read_fill D X) (executions_by_ts X (filter (\<lambda>r. xr_hedge_id r = i) (db_executions s)))"

definition read_row :: "'d::zero decimal_pkg \<Rightarrow> pgx \<Rightarrow> DB \<Rightarrow> hedge_row \<Rightarrow> 'd Hedge option" where
  "read_row D X s r = map_option (\<lambda>h. h\<lparr>h_Fills := fills_of D X s (hr_id r)\<rparr>) (scan_hedge D X r)"

lemma scan_hedge_ID: "scan_hedge D X r = Some h \<Longrightarrow> h_ID h = hr_id r \<and> h_CreatedAt h = hr_created_at r"
  by (auto simp: scan_hedge_def split: option.splits)

lemma with_fills_healthy:
  "healthy s \<Longrightarrow> with_fills D X h s = (h\<lparr>h_Fills := fills_of D X s (h_ID h)\<rparr>, s\<lparr>db_count := Suc (db_count s)\<rparr>)"
  by (simp add: with_fills_def loadFills_def db_query_healthy fills_of_def)

lemma get_row_healthy:
  "healthy s \<Longrightarrow> fst (get_row D X q s) = (case q s of [] \<Rightarrow> None | r # _ \<Rightarrow> read_row D X s r)"
  by (auto simp: get_row_def db_query_row_def db_query_healthy with_fills_healthy read_row_def fills_of_def scan_hedge_ID
      split: list.splits option.splits prod.splits)

lemma get_row_frame: "\<exists>n. snd (get_row D X q s) = s\<lparr>db_count := n\<rparr>"
  by (auto simp: get_row_def db_query_row_def db_query_def with_fills_def loadFills_def Let_def
      split: list.splits option.splits prod.splits bool.splits)

lemma db_GetHedge_frame: "\<exists>n. snd (db_GetHedge D X i s) = s\<lparr>db_count := n\<rparr>"
  unfolding db_GetHedge_def by (rule get_row_frame)

text \<open>With distinct ids at most one row has a given id.\<close>

definition row_at :: "DB \<Rightarrow> string \<Rightarrow> hedge_row option" where
  "row_at s i = map_of (map (\<lambda>r. (hr_id r, r)) (db_hedges s)) i"

lemma rows_with_id:
  assumes "distinct (map hr_id rows)"
  shows "filter (\<lambda>r. hr_id r = i) rows = (case map_of (map (\<lambda>r. (hr_id r, r)) rows) i of None \<Rightarrow> [] | Some r \<Rightarrow> [r])"
  using assms
proof (induction rows)
  case (Cons r rows)
  then show ?case by (cases "hr_id r = i") (auto simp: filter_empty_conv image_iff split: option.splits dest!: map_of_SomeD)
qed simp

lemma some_order_cases:
  assumes "pgx_ok X"
  shows "some_order X [] = []" and "some_order X [r] = [r]"
  using assms unfolding pgx_ok_def by (metis mset_zero_iff mset.simps(1), metis mset_single_iff_right mset.simps)

lemma db_GetHedge_healthy:
  assumes "healthy s" and "pgx_ok X" and "distinct (map hr_id (db_hedges s))"
  shows "fst (db_GetHedge D X i s) = (case row_at s i of None \<Rightarrow> None | Some r \<Rightarrow> read_row D X s r)"
  using some_order_cases [OF assms(2)]
  by (simp add: db_GetHedge_def get_row_healthy [OF assms(1)] rows_with_id [OF assms(3)] row_at_def split: option.splits)

section \<open>Creating and reading a hedge\<close>

text \<open>What the columns keep of a hedge and of a fill: decimals go through \<open>DOUBLE PRECISION\<close>, times through \<open>TIMESTAMPTZ\<close>, the
  value date through \<open>DATE\<close>, and the venue of a hedge has no column.\<close>

definition column_decimal :: "'d::zero decimal_pkg \<Rightarrow> pgx \<Rightarrow> 'd \<Rightarrow> 'd" where
  "column_decimal D X d = read_decimal D X (float8_col D X d)"

definition column_fill :: "'d::zero decimal_pkg \<Rightarrow> pgx \<Rightarrow> string \<Rightarrow> 'd Fill \<Rightarrow> 'd Fill" where
  "column_fill D X i f = f\<lparr>fl_HedgeID := i, fl_Price := column_decimal D X (fl_Price f), fl_Amount := column_decimal D X (fl_Amount f),
     fl_Timestamp := to_timestamptz X (fl_Timestamp f)\<rparr>"

definition column_hedge :: "'d::zero decimal_pkg \<Rightarrow> pgx \<Rightarrow> 'd Hedge \<Rightarrow> 'd Fill list \<Rightarrow> 'd Hedge" where
  "column_hedge D X h fs = h\<lparr>h_Notional := column_decimal D X (h_Notional h), h_QuotedRate := column_decimal D X (h_QuotedRate h),
     h_PnL := column_decimal D X (h_PnL h), h_PolicyCapUSD := column_decimal D X (h_PolicyCapUSD h),
     h_ValueDate := to_date X (h_ValueDate h), h_Venue := [], h_CreatedAt := to_timestamptz X (h_CreatedAt h),
     h_UpdatedAt := to_timestamptz X (h_UpdatedAt h), h_Fills := fs\<rparr>"

definition trade :: "'d Fill \<Rightarrow> string \<times> string" where
  "trade f = (fl_Venue f, fl_VenueTradeID f)"

definition row_trade :: "execution_row \<Rightarrow> string \<times> string" where
  "row_trade r = (xr_venue r, xr_venue_trade_id r)"

text \<open>The row \<open>CreateHedge\<close> inserts.\<close>

abbreviation new_row :: "'d decimal_pkg \<Rightarrow> pgx \<Rightarrow> 'd Hedge \<Rightarrow> hedge_row" where
  "new_row D X h \<equiv> hedge_values D X h (if h_ValueDate h = 0 then None else Some (h_ValueDate h))"

lemma scan_undated: "pgx_ok X \<Longrightarrow> hr_value_date r = None \<Longrightarrow> scan_hedge D X r = None"
  by (simp add: scan_hedge_def pgx_ok_def)

lemma scan_new_row:
  "pgx_ok X \<Longrightarrow> scan_hedge D X (new_row D X h) = (if h_ValueDate h = 0 then None else Some (column_hedge D X h []))"
  by (auto simp: scan_undated hedge_values_def) (simp add: scan_hedge_def column_hedge_def column_decimal_def)

lemma read_execution_values: "read_fill D X (execution_values D X k h f) = column_fill D X (h_ID h) f"
  by (simp add: read_fill_def execution_values_def column_fill_def column_decimal_def)

lemma execution_values_fields [simp]:
  "xr_id (execution_values D X k h f) = k" "xr_hedge_id (execution_values D X k h f) = h_ID h"
  "row_trade (execution_values D X k h f) = trade f" "xr_ts (execution_values D X k h f) = to_timestamptz X (fl_Timestamp f)"
  by (simp_all add: execution_values_def row_trade_def trade_def)

lemma same_trade_iff: "same_trade r r' \<longleftrightarrow> row_trade r = row_trade r'"
  by (simp add: same_trade_def row_trade_def)

text \<open>Row ids that are still to come are not in use.\<close>

definition fresh_ids :: "DB \<Rightarrow> bool" where
  "fresh_ids s \<longleftrightarrow> inj (db_uuid s) \<and> (\<forall>n\<ge>db_ids s. db_uuid s n \<notin> xr_id ` set (db_executions s))"

lemma sync_loop_fresh:
  assumes "healthy s" and "fresh_ids s" and "distinct (map trade fs)"
    and "trade ` set fs \<inter> row_trade ` set (db_executions s) = {}"
  shows "\<exists>rows n m. sync_loop D X h fs s = s\<lparr>db_ids := m, db_count := n, db_executions := db_executions s @ rows\<rparr> \<and>
    list_all2 (\<lambda>r f. \<exists>k. r = execution_values D X k h f) rows fs"
  using assms
proof (induction fs arbitrary: s)
  case Nil
  show ?case by (intro exI [of _ "[]"] exI [of _ "db_count s"] exI [of _ "db_ids s"]) simp
next
  case (Cons f fs)
  let ?row = "execution_values D X (db_uuid s (db_ids s)) h f"
  let ?s1 = "s\<lparr>db_ids := Suc (db_ids s), db_count := Suc (db_count s), db_executions := db_executions s @ [?row]\<rparr>"
  have new: "\<not> list_ex (same_trade ?row) (db_executions s)"
    using Cons.prems(4) by (force simp: list_ex_iff same_trade_iff)
  have "sync_loop D X h (f # fs) s = sync_loop D X h fs ?s1"
    using Cons.prems(1,2) new by (auto simp: uuid_NewV7_def db_exec_healthy upsert_execution_def fresh_ids_def)
  moreover have "fresh_ids ?s1"
    using Cons.prems(2) by (auto simp: fresh_ids_def dest: injD)
  then obtain rows n m where "sync_loop D X h fs ?s1 = ?s1\<lparr>db_ids := m, db_count := n, db_executions := db_executions ?s1 @ rows\<rparr>"
    and rows: "list_all2 (\<lambda>r f. \<exists>k. r = execution_values D X k h f) rows fs"
    using Cons.IH [of ?s1] Cons.prems by auto
  ultimately have "sync_loop D X h (f # fs) s = s\<lparr>db_ids := m, db_count := n, db_executions := db_executions s @ ?row # rows\<rparr>"
    by simp
  with rows show ?case by (intro exI [of _ "?row # rows"] exI [of _ n] exI [of _ m] conjI) auto
qed

lemma executions_read:
  assumes "pgx_ok X" and "list_all2 (\<lambda>r f. \<exists>k. r = execution_values D X k h f) rows fs"
  shows "mset (map (read_fill D X) (executions_by_ts X rows)) = mset (map (column_fill D X (h_ID h)) fs)"
    and "sorted (map fl_Timestamp (map (read_fill D X) (executions_by_ts X rows)))" and "\<forall>r\<in>set rows. xr_hedge_id r = h_ID h"
proof -
  have srt: "sorts_by xr_ts (executions_by_ts X)" using assms(1) by (simp add: pgx_ok_def)
  have rd: "map (read_fill D X) rows = map (column_fill D X (h_ID h)) fs" and own: "\<forall>r\<in>set rows. xr_hedge_id r = h_ID h"
    using assms(2) by (induction rule: list_all2_induct) (auto simp: read_execution_values)
  show "mset (map (read_fill D X) (executions_by_ts X rows)) = mset (map (column_fill D X (h_ID h)) fs)"
    unfolding rd [symmetric] by (simp add: sorts_by_mset [OF srt])
  have "fl_Timestamp \<circ> read_fill D X = xr_ts" by (auto simp: read_fill_def)
  then show "sorted (map fl_Timestamp (map (read_fill D X) (executions_by_ts X rows)))" using sorts_by_sorted [OF srt] by simp
  show "\<forall>r\<in>set rows. xr_hedge_id r = h_ID h" by (rule own)
qed

text \<open>Tables that hold one hedge more.\<close>

definition adds_hedge :: "'d decimal_pkg \<Rightarrow> pgx \<Rightarrow> 'd Hedge \<Rightarrow> execution_row list \<Rightarrow> DB \<Rightarrow> DB \<Rightarrow> bool" where
  "adds_hedge D X h rows s s' \<longleftrightarrow> healthy s' \<and> db_hedges s' = db_hedges s @ [new_row D X h] \<and> db_executions s' = db_executions s @ rows \<and>
     h_ID h \<notin> hr_id ` set (db_hedges s) \<and> h_ID h \<notin> xr_hedge_id ` set (db_executions s) \<and> (\<forall>r\<in>set rows. xr_hedge_id r = h_ID h)"

lemma adds_hedge_fills:
  assumes "adds_hedge D X h rows s s'"
  shows "fills_of D X s' i = (if i = h_ID h then map (read_fill D X) (executions_by_ts X rows) else fills_of D X s i)"
proof -
  have "filter (\<lambda>r. xr_hedge_id r = h_ID h) (db_executions s) = []" "filter (\<lambda>r. xr_hedge_id r = h_ID h) rows = rows"
    using assms by (force simp: adds_hedge_def filter_empty_conv, simp add: adds_hedge_def filter_id_conv)
  moreover have "filter (\<lambda>r. xr_hedge_id r = i) rows = []" if "i \<noteq> h_ID h"
    using assms that by (auto simp: adds_hedge_def filter_empty_conv)
  ultimately show ?thesis using assms by (simp add: fills_of_def adds_hedge_def)
qed

lemma adds_hedge_read_row:
  assumes "pgx_ok X" and "adds_hedge D X h rows s s'"
  shows "read_row D X s' (new_row D X h) =
    (if h_ValueDate h = 0 then None else Some (column_hedge D X h (map (read_fill D X) (executions_by_ts X rows))))"
  using scan_new_row [OF assms(1), of D h] adds_hedge_fills [OF assms(2), of "h_ID h"]
  by (simp add: read_row_def hedge_values_def column_hedge_def)

lemma adds_hedge_get:
  assumes "healthy s" and "pgx_ok X" and "distinct (map hr_id (db_hedges s))" and "adds_hedge D X h rows s s'"
  shows "fst (db_GetHedge D X i s') = (if i = h_ID h then read_row D X s' (new_row D X h) else fst (db_GetHedge D X i s))"
proof -
  have id: "hr_id (new_row D X h) = h_ID h" by (simp add: hedge_values_def)
  have t: "healthy s'" "db_hedges s' = db_hedges s @ [new_row D X h]" "h_ID h \<notin> hr_id ` set (db_hedges s)"
    using assms(4) by (simp_all add: adds_hedge_def)
  have d: "distinct (map hr_id (db_hedges s'))" using assms(3) t id by simp
  show ?thesis
  proof (cases "i = h_ID h")
    case True
    have "row_at s' i = Some (new_row D X h)"
      using t(3) True by (force simp: row_at_def t(2) id map_add_def split: option.splits dest: map_of_SomeD)
    then show ?thesis by (simp add: True db_GetHedge_healthy [OF t(1) assms(2) d])
  next
    case False
    have at: "row_at s' i = row_at s i" using False by (simp add: row_at_def t(2) id map_add_def split: option.splits)
    have "hr_id r = i" if "row_at s i = Some r" for r using that by (auto simp: row_at_def dest: map_of_SomeD)
    with False adds_hedge_fills [OF assms(4)] show ?thesis
      by (simp add: db_GetHedge_healthy [OF t(1) assms(2) d] db_GetHedge_healthy [OF assms(1-3)] at read_row_def split: option.splits)
  qed
qed

lemma adds_hedge_get_request:
  assumes "pgx_ok X" and "adds_hedge D X h rows s s'" and "h_ClientRequestID h \<noteq> []"
    and "h_ClientRequestID h \<notin> hr_client_request_id ` set (db_hedges s)"
  shows "fst (db_GetHedgeByClientRequest D X (h_ClientRequestID h) s') = read_row D X s' (new_row D X h)"
proof -
  have "filter (\<lambda>r. hr_client_request_id r = h_ClientRequestID h) (db_hedges s) = []"
    using assms(4) by (force simp: filter_empty_conv)
  moreover have "hr_client_request_id (new_row D X h) = h_ClientRequestID h" by (simp add: hedge_values_def)
  ultimately have "filter (\<lambda>r. hr_client_request_id r = h_ClientRequestID h) (db_hedges s') = [new_row D X h]"
    using assms(2) by (simp add: adds_hedge_def)
  moreover have "healthy s'" using assms(2) by (simp add: adds_hedge_def)
  ultimately show ?thesis
    using assms(1,3) by (simp add: db_GetHedgeByClientRequest_def get_row_healthy some_order_cases)
qed

lemma syncFills_fresh:
  assumes "healthy s" and "fresh_ids s" and "distinct (map trade (h_Fills h))"
    and "trade ` set (h_Fills h) \<inter> row_trade ` set (db_executions s) = {}"
  shows "\<exists>rows n m. syncFills D X h s = s\<lparr>db_ids := m, db_count := n, db_executions := db_executions s @ rows\<rparr> \<and>
    list_all2 (\<lambda>r f. \<exists>k. r = execution_values D X k h f) rows (h_Fills h)"
proof (cases "h_Fills h = []")
  case True
  then show ?thesis
    by (intro exI [of _ "[]"] exI [of _ "db_count s"] exI [of _ "db_ids s"]) (simp add: syncFills_def)
qed (use sync_loop_fresh [OF assms, of D X h] in \<open>simp add: syncFills_def\<close>)

text \<open>C19. What the Postgres store keeps of a hedge, on a database whose statements succeed. A hedge is created with a fresh id
  and with fills whose trades are new. With a value date it is then found under its id, and under a
  request id that was not used, as the columns hold it: its amounts, rates and times as the column types
  round them, without its venue, and with all its fills, in the order of their times. Without a value date
  it is found under neither. Every other hedge is read as before.\<close>

theorem db_create_reads_back:
  assumes "healthy s" and "pgx_ok X" and "fresh_ids s" and "distinct (map hr_id (db_hedges s))"
    and "h_ID h \<notin> hr_id ` set (db_hedges s)" and "h_ID h \<notin> xr_hedge_id ` set (db_executions s)"
    and "distinct (map trade (h_Fills h))" and "trade ` set (h_Fills h) \<inter> row_trade ` set (db_executions s) = {}"
  shows "\<exists>fs. mset fs = mset (map (column_fill D X (h_ID h)) (h_Fills h)) \<and> sorted (map fl_Timestamp fs) \<and>
    (let stored = (if h_ValueDate h = 0 then None else Some (column_hedge D X h fs)); s' = db_CreateHedge D X h s
     in (\<forall>i. fst (db_GetHedge D X i s') = (if i = h_ID h then stored else fst (db_GetHedge D X i s))) \<and>
        (h_ClientRequestID h \<noteq> [] \<and> h_ClientRequestID h \<notin> hr_client_request_id ` set (db_hedges s) \<longrightarrow>
           fst (db_GetHedgeByClientRequest D X (h_ClientRequestID h) s') = stored))"
proof -
  define s1 where "s1 = s\<lparr>db_count := Suc (db_count s), db_hedges := db_hedges s @ [new_row D X h]\<rparr>"
  have s1: "healthy s1" "fresh_ids s1" "db_executions s1 = db_executions s" using assms(1,3) by (simp_all add: s1_def fresh_ids_def)
  have "db_CreateHedge D X h s = syncFills D X h s1"
    using assms(1,5) by (simp add: db_CreateHedge_def Let_def db_exec_healthy insert_hedge_def hedge_values_def s1_def)
  moreover obtain rows n m where s2: "syncFills D X h s1 = s1\<lparr>db_ids := m, db_count := n, db_executions := db_executions s @ rows\<rparr>"
    and rows: "list_all2 (\<lambda>r f. \<exists>k. r = execution_values D X k h f) rows (h_Fills h)"
    using syncFills_fresh [OF s1(1,2) assms(7), of D X] assms(8) by (auto simp: s1(3))
  ultimately have add: "adds_hedge D X h rows s (db_CreateHedge D X h s)"
    using s1(1) assms(5,6) executions_read(3) [OF assms(2) rows] by (simp add: adds_hedge_def s1_def)
  let ?fs = "map (read_fill D X) (executions_by_ts X rows)" and ?s' = "db_CreateHedge D X h s"
  note ex = executions_read [OF assms(2) rows] and rr = adds_hedge_read_row [OF assms(2) add]
  have "fst (db_GetHedge D X i ?s') =
      (if i = h_ID h then if h_ValueDate h = 0 then None else Some (column_hedge D X h ?fs) else fst (db_GetHedge D X i s))" for i
    unfolding adds_hedge_get [OF assms(1,2,4) add] rr by (rule refl)
  moreover have "fst (db_GetHedgeByClientRequest D X (h_ClientRequestID h) ?s') = (if h_ValueDate h = 0 then None else Some (column_hedge D X h ?fs))"
    if "h_ClientRequestID h \<noteq> []" "h_ClientRequestID h \<notin> hr_client_request_id ` set (db_hedges s)"
    unfolding adds_hedge_get_request [OF assms(2) add that] rr by (rule refl)
  ultimately show ?thesis unfolding Let_def using ex(1,2) by blast
qed

text \<open>A database and a driver for small numbers.\<close>

definition tiny_decimal :: "rat decimal_pkg" where
  "tiny_decimal = rat_decimal\<lparr>DecString := \<lambda>d. if d = 0 then ''0'' else ''90'',
     NewFromString := \<lambda>t. if t = ''0'' then Some 0 else if t = ''90'' then Some 90 else None\<rparr>"

definition tiny_pgx :: pgx where
  "tiny_pgx = \<lparr>to_float8 = \<lambda>t. if t = ''0'' then Fin 0 else Fin 90, float8_text = \<lambda>f. if f = Fin 0 then ''0'' else ''90'',
     to_timestamptz = \<lambda>t. t div 1000 * 1000, to_date = \<lambda>t. t, null_time = None, some_order = \<lambda>rs. rs,
     hedges_by_created_at = sort_key hr_created_at, executions_by_ts = sort_key xr_ts, pnl_by_id = sort_key pr_id,
     samples_by_ts = sort_key sr_ts, exposures_by_ts = sort_key er_ts\<rparr>"

definition empty_db :: DB where
  "empty_db = \<lparr>db_hedges = [], db_executions = [], db_fx_pnl = [], db_samples = [], db_exposures = [],
     db_fault = \<lambda>_. Healthy, db_count = 0, db_uuid = \<lambda>n. replicate n CHR ''a'', db_ids = 0\<rparr>"

abbreviation leg_id :: string where
  "leg_id \<equiv> ''0190a5e2-7c11-7000-8000-000000000001''"

definition dated_fill :: "rat Fill" where
  "dated_fill = \<lparr>fl_HedgeID = leg_id, fl_Venue = ''bank'', fl_VenueTradeID = ''t1'', fl_Price = 89, fl_Amount = 90, fl_Timestamp = 3141\<rparr>"

definition dated_hedge :: "HedgeStatus \<Rightarrow> rat Hedge" where
  "dated_hedge st = \<lparr>h_ID = leg_id, h_Currency = ''EUR'', h_Notional = 90, h_Tenor = TenorForward, h_Type = TypeForward, h_Status = st,
     h_QuotedRate = 90, h_Fills = [dated_fill], h_SlippageBPS = Fin 0, h_PnL = 0, h_ClientRequestID = ''plan:EUR:r1'', h_PolicyRatio = Fin 0,
     h_PolicyCapUSD = 0, h_CapBreached = False, h_ValueDate = 5000, h_Venue = ''bank'', h_CreatedAt = 1000, h_UpdatedAt = 2718\<rparr>"

lemma tiny_pgx_ok [simp]: "pgx_ok tiny_pgx"
  by (simp add: pgx_ok_def tiny_pgx_def)

lemma empty_db_ok: "healthy empty_db" "fresh_ids empty_db"
  by (auto simp: healthy_def fresh_ids_def empty_db_def inj_def)

theorem db_create_reads_back_witness:
  "\<exists>fs h. fst (db_GetHedge tiny_decimal tiny_pgx leg_id (db_CreateHedge tiny_decimal tiny_pgx (dated_hedge StatusExecuted) empty_db)) = Some h \<and>
     h_Fills h = fs \<and> h_UpdatedAt h = 2000 \<and> map fl_Price fs = [90] \<and> map fl_Timestamp fs = [3000]"
proof -
  let ?h = "dated_hedge StatusExecuted"
  have e: "db_hedges empty_db = []" "db_executions empty_db = []" by (simp_all add: empty_db_def)
  have f: "h_ID ?h = leg_id" "h_Fills ?h = [dated_fill]" "h_ValueDate ?h = 5000" by (simp_all add: dated_hedge_def)
  from db_create_reads_back [OF empty_db_ok(1) tiny_pgx_ok empty_db_ok(2), of ?h tiny_decimal]
  obtain fs where fs: "mset fs = mset [column_fill tiny_decimal tiny_pgx leg_id dated_fill]"
    "fst (db_GetHedge tiny_decimal tiny_pgx leg_id (db_CreateHedge tiny_decimal tiny_pgx ?h empty_db)) = Some (column_hedge tiny_decimal tiny_pgx ?h fs)"
    by (auto simp: e f Let_def)
  have "fs = [column_fill tiny_decimal tiny_pgx leg_id dated_fill]" using fs(1) by (metis mset_single_iff_right mset.simps)
  moreover have "column_decimal tiny_decimal tiny_pgx 89 = 90"
    by (simp add: column_decimal_def read_decimal_def float8_col_def tiny_decimal_def tiny_pgx_def)
  ultimately show ?thesis
    using fs(2) by (simp add: column_hedge_def column_fill_def dated_fill_def) (simp add: dated_hedge_def tiny_pgx_def)
qed

section \<open>Hedges without a value date\<close>

lemma get_row_unreadable:
  assumes "\<And>r. r \<in> set (q s) \<Longrightarrow> scan_hedge D X r = None"
  shows "fst (get_row D X q s) = None"
  using assms db_query_row_mem [of q s]
  by (auto simp: get_row_def split: prod.splits option.splits)

lemma set_some_order: "pgx_ok X \<Longrightarrow> set (some_order X rs) = set rs"
  unfolding pgx_ok_def by (metis set_mset_mset)

lemma sync_loop_hedges: "db_hedges (sync_loop D X h fs s) = db_hedges s"
proof (induction fs arbitrary: s)
  case (Cons f fs)
  have "upsert_execution row s = Some s' \<Longrightarrow> db_hedges s' = db_hedges s" for row s s'
    by (auto simp: upsert_execution_def split: if_splits)
  then show ?case
    by (simp add: Cons.IH uuid_NewV7_def db_exec_def Let_def split: pg_fault.splits option.splits)
qed simp

text \<open>Whatever fails, an insert adds the row or nothing.\<close>

lemma db_CreateHedge_hedges:
  "db_hedges (db_CreateHedge D X h s) = db_hedges s \<or>
   db_hedges (db_CreateHedge D X h s) =
     db_hedges s @ [hedge_values D X h (if h_ValueDate h = 0 then None else Some (h_ValueDate h))]"
  by (auto simp: db_CreateHedge_def syncFills_def sync_loop_hedges db_exec_def insert_hedge_def Let_def
      split: pg_fault.splits option.splits)

lemma undated_rows:
  assumes "h_ValueDate h = 0" and "r \<in> set (db_hedges (db_CreateHedge D X h s))" and "r \<notin> set (db_hedges s)"
  shows "hr_value_date r = None"
  using db_CreateHedge_hedges [of D X h s] assms by (auto simp: hedge_values_def)

text \<open>The Postgres store loses a hedge without a value date, whatever the database does: it is not found under its id
  nor under its request id, so a retry of the request is not recognised, and no update reaches it.\<close>

theorem db_undated_lost:
  assumes "pgx_ok X" and "h_ValueDate h = 0" and "h_ID h \<notin> hr_id ` set (db_hedges s)"
    and "h_ClientRequestID h \<notin> hr_client_request_id ` set (db_hedges s)"
  shows "fst (db_GetHedge D X (h_ID h) (db_CreateHedge D X h s)) = None \<and>
    fst (db_GetHedgeByClientRequest D X (h_ClientRequestID h) (db_CreateHedge D X h s)) = None \<and>
    fst (db_UpdateHedge D X (h_ID h) fn (db_CreateHedge D X h s)) = Inl (StoreError ErrNotFound)"
proof -
  let ?s = "db_CreateHedge D X h s"
  have no: "scan_hedge D X r = None" if "r \<in> set (db_hedges ?s)" "r \<notin> set (db_hedges s)" for r
    using undated_rows [OF assms(2) that] by (rule scan_undated [OF assms(1)])
  have get: "fst (db_GetHedge D X (h_ID h) ?s) = None"
    unfolding db_GetHedge_def using assms(3) by (intro get_row_unreadable no) (auto simp: set_some_order [OF assms(1)] image_iff)
  moreover have "fst (db_GetHedgeByClientRequest D X (h_ClientRequestID h) ?s) = None"
    unfolding db_GetHedgeByClientRequest_def using assms(4)
    by (auto intro!: get_row_unreadable no simp: set_some_order [OF assms(1)] image_iff)
  ultimately show ?thesis by (auto simp: db_UpdateHedge_def split: prod.splits)
qed

theorem db_undated_lost_witness:
  "fst (db_GetHedgeByClientRequest tiny_decimal tiny_pgx ''plan:EUR:r1''
     (db_CreateHedge tiny_decimal tiny_pgx ((dated_hedge StatusExecuting)\<lparr>h_ValueDate := 0\<rparr>) empty_db)) = None"
  using db_undated_lost [of tiny_pgx "(dated_hedge StatusExecuting)\<lparr>h_ValueDate := 0\<rparr>" empty_db tiny_decimal]
  by (simp add: empty_db_def dated_hedge_def)

text \<open>The listing stops at the first such row.\<close>

lemma scan_loop_prefix:
  assumes "scan_loop D X rows out s = ((ok, out'), s')"
  shows "\<exists>hs. out' = out @ hs \<and> map h_CreatedAt hs = map hr_created_at (take (length hs) rows) \<and>
    (\<forall>r\<in>set (take (length hs) rows). scan_hedge D X r \<noteq> None)"
  using assms
proof (induction D X rows out s rule: scan_loop.induct)
  case (2 D X r rs out s)
  show ?case
  proof (cases "scan_hedge D X r")
    case None
    with 2 show ?thesis by auto
  next
    case (Some h)
    obtain h1 s1 where w: "with_fills D X h s = (h1, s1)" by (meson surj_pair)
    have "h_CreatedAt h1 = h_CreatedAt h" using w by (auto simp: with_fills_def split: prod.splits option.splits)
    with scan_hedge_ID [OF Some] have c: "h_CreatedAt h1 = hr_created_at r" by simp
    from 2(1) [OF Some, of "(h1, s1)" h1 s1] 2(2) Some w obtain hs where
      "out' = (out @ [h1]) @ hs" "map h_CreatedAt hs = map hr_created_at (take (length hs) rs)"
      "\<forall>r\<in>set (take (length hs) rs). scan_hedge D X r \<noteq> None" by auto
    with c Some show ?thesis by (intro exI [of _ "h1 # hs"]) simp
  qed
qed simp

lemma sorted_prefix_le:
  fixes key :: "'a \<Rightarrow> 'k::linorder"
  assumes "sorted (map key xs)" and "x \<in> set xs" and "x \<notin> set (take n xs)" and "y \<in> set (take n xs)"
  shows "key y \<le> key x"
proof -
  have "x \<in> set (drop n xs)" using assms(2,3) by (metis Un_iff append_take_drop_id set_append)
  moreover have "sorted (map key (take n xs) @ map key (drop n xs))"
    using assms(1) by (metis append_take_drop_id map_append)
  ultimately show ?thesis using assms(4) by (auto simp: sorted_append)
qed

text \<open>A stored hedge without a value date hides the hedges created after it: the list of all hedges holds none that
  was created later.\<close>

theorem db_undated_hides:
  assumes "pgx_ok X" and "sorts_by h_CreatedAt srt" and "r \<in> set (db_hedges s)" and "hr_value_date r = None"
    and "g \<in> set (fst (db_AllHedges srt D X s))"
  shows "h_CreatedAt g \<le> hr_created_at r"
proof -
  let ?rows = "hedges_by_created_at X (db_hedges s)"
  have srt: "sorts_by hr_created_at (hedges_by_created_at X)" using assms(1) by (simp add: pgx_ok_def)
  obtain n s1 where q: "fst (db_AllHedges srt D X s) = fst (scanHedges srt D X (take n ?rows) s1)"
  proof (cases "db_query (\<lambda>s. hedges_by_created_at X (db_hedges s)) s")
    case (Pair res s2)
    show ?thesis
    proof (cases res)
      case None
      with Pair assms(5) show ?thesis by (simp add: db_AllHedges_def)
    next
      case (Some p)
      with db_query_rows [of "\<lambda>s. hedges_by_created_at X (db_hedges s)" s "fst p" "snd p"] Pair
      obtain n where "fst p = take n ?rows" by auto
      with Pair Some that [of n s2] show ?thesis by (simp add: db_AllHedges_def case_prod_beta)
    qed
  qed
  obtain ok out s2 where l: "scan_loop D X (take n ?rows) [] s1 = ((ok, out), s2)" by (metis surj_pair)
  with assms(2,5) q have g: "g \<in> set out" by (auto simp: scanHedges_def sorts_by_set split: if_splits)
  from scan_loop_prefix [OF l] have c: "map h_CreatedAt out = map hr_created_at (take (length out) (take n ?rows))"
    and readable: "\<forall>r\<in>set (take (length out) (take n ?rows)). scan_hedge D X r \<noteq> None" by auto
  let ?k = "min (length out) n"
  from g c have "h_CreatedAt g \<in> hr_created_at ` set (take ?k ?rows)" by (metis image_eqI list.set_map take_take)
  then obtain r' where r': "r' \<in> set (take ?k ?rows)" "h_CreatedAt g = hr_created_at r'" by blast
  have "r \<notin> set (take ?k ?rows)" using readable scan_undated [OF assms(1,4), of D] by (metis take_take)
  with sorted_prefix_le [OF sorts_by_sorted [OF srt], of r "db_hedges s" ?k r'] r' assms(3) show ?thesis
    by (simp add: sorts_by_set [OF srt])
qed

theorem db_undated_hides_witness:
  "let row = hedge_values tiny_decimal tiny_pgx (dated_hedge StatusExecuting);
       db = empty_db\<lparr>db_hedges := [row None, (row (Some 5000))\<lparr>hr_id := ''h2'', hr_created_at := 4000\<rparr>]\<rparr>
   in \<forall>g\<in>set (fst (db_AllHedges (sort_key h_CreatedAt) tiny_decimal tiny_pgx db)). h_CreatedAt g \<le> 1000"
proof -
  let ?row = "hedge_values tiny_decimal tiny_pgx (dated_hedge StatusExecuting)"
  let ?db = "empty_db\<lparr>db_hedges := [?row None, (?row (Some 5000))\<lparr>hr_id := ''h2'', hr_created_at := 4000\<rparr>]\<rparr>"
  have "hr_created_at (?row None) = 1000" "hr_value_date (?row None) = None"
    by (simp_all add: hedge_values_def dated_hedge_def tiny_pgx_def)
  with db_undated_hides [of tiny_pgx "sort_key h_CreatedAt" "?row None" ?db _ tiny_decimal] show ?thesis
    by (simp add: Let_def)
qed

section \<open>Samples and snapshots\<close>

text \<open>What the columns keep of a sample.\<close>

definition column_sample :: "'d::zero decimal_pkg \<Rightarrow> pgx \<Rightarrow> 'd SlippageSample \<Rightarrow> 'd SlippageSample" where
  "column_sample D X sm = sm\<lparr>ss_QuotedRate := column_decimal D X (ss_QuotedRate sm), ss_ExecutedRate := column_decimal D X (ss_ExecutedRate sm),
     ss_Timestamp := to_timestamptz X (ss_Timestamp sm)\<rparr>"

lemma db_SlippageSamples_healthy:
  assumes "healthy s" and "pgx_ok X"
  shows "mset (fst (db_SlippageSamples D X pair fro til s)) =
      mset (map (read_sample D X) (filter (\<lambda>r. list_all (\<lambda>c. c r) (sample_conds X pair fro til)) (db_samples s)))"
    and "sorted (map ss_Timestamp (fst (db_SlippageSamples D X pair fro til s)))"
proof -
  have srt: "sorts_by sr_ts (samples_by_ts X)" using assms(2) by (simp add: pgx_ok_def)
  show "mset (fst (db_SlippageSamples D X pair fro til s)) =
      mset (map (read_sample D X) (filter (\<lambda>r. list_all (\<lambda>c. c r) (sample_conds X pair fro til)) (db_samples s)))"
    by (simp add: db_SlippageSamples_def db_query_healthy [OF assms(1)] sorts_by_mset [OF srt])
  have "ss_Timestamp \<circ> read_sample D X = sr_ts" by (auto simp: read_sample_def)
  then show "sorted (map ss_Timestamp (fst (db_SlippageSamples D X pair fro til s)))"
    using sorts_by_sorted [OF srt] by (simp add: db_SlippageSamples_def db_query_healthy [OF assms(1)])
qed

text \<open>C22. Slippage samples make a round trip through the database up to the column types. On a database whose statements succeed,
  a sample added with a fresh row id is returned, as the columns hold it and besides the samples there were, by
  exactly the queries whose pair it has and between whose bounds its time lies, times taken as \<open>TIMESTAMPTZ\<close>
  holds them; the answer is in the order of the times.\<close>

theorem db_samples_roundtrip:
  assumes "healthy s" and "pgx_ok X" and "db_uuid s (db_ids s) \<notin> sr_id ` set (db_samples s)"
  shows "mset (fst (db_SlippageSamples D X pair fro til (db_AddSlippageSample D X sm s))) =
      mset (fst (db_SlippageSamples D X pair fro til s)) +
      (if (pair = [] \<or> ss_Pair sm = pair) \<and> (fro = 0 \<or> to_timestamptz X fro \<le> to_timestamptz X (ss_Timestamp sm)) \<and>
          (til = 0 \<or> to_timestamptz X (ss_Timestamp sm) \<le> to_timestamptz X til) then {#column_sample D X sm#} else {#}) \<and>
    sorted (map ss_Timestamp (fst (db_SlippageSamples D X pair fro til (db_AddSlippageSample D X sm s))))"
proof -
  let ?row = "\<lparr>sr_id = db_uuid s (db_ids s), sr_pair = ss_Pair sm, sr_quoted_rate = float8_col D X (ss_QuotedRate sm),
    sr_executed_rate = float8_col D X (ss_ExecutedRate sm), sr_slippage_bps = ss_SlippageBPS sm,
    sr_ts = to_timestamptz X (ss_Timestamp sm)\<rparr>"
  have add: "db_AddSlippageSample D X sm s =
      s\<lparr>db_ids := Suc (db_ids s), db_count := Suc (db_count s), db_samples := db_samples s @ [?row]\<rparr>"
    using assms(1,3) by (simp add: db_AddSlippageSample_def uuid_NewV7_def db_exec_healthy)
  have h: "healthy (db_AddSlippageSample D X sm s)" using assms(1) by (simp add: add healthy_def)
  have "read_sample D X ?row = column_sample D X sm" by (simp add: read_sample_def column_sample_def column_decimal_def)
  moreover have "list_all (\<lambda>c. c ?row) (sample_conds X pair fro til) \<longleftrightarrow> (pair = [] \<or> ss_Pair sm = pair) \<and>
      (fro = 0 \<or> to_timestamptz X fro \<le> to_timestamptz X (ss_Timestamp sm)) \<and>
      (til = 0 \<or> to_timestamptz X (ss_Timestamp sm) \<le> to_timestamptz X til)"
    by (auto simp: sample_conds_def)
  ultimately have "mset (fst (db_SlippageSamples D X pair fro til (db_AddSlippageSample D X sm s))) =
      mset (fst (db_SlippageSamples D X pair fro til s)) +
      (if (pair = [] \<or> ss_Pair sm = pair) \<and> (fro = 0 \<or> to_timestamptz X fro \<le> to_timestamptz X (ss_Timestamp sm)) \<and>
          (til = 0 \<or> to_timestamptz X (ss_Timestamp sm) \<le> to_timestamptz X til) then {#column_sample D X sm#} else {#})"
    unfolding db_SlippageSamples_healthy(1) [OF h assms(2)] db_SlippageSamples_healthy(1) [OF assms(1,2)]
    by (simp add: add)
  with db_SlippageSamples_healthy(2) [OF h assms(2)] show ?thesis by blast
qed

definition tiny_sample :: "rat SlippageSample" where
  "tiny_sample = \<lparr>ss_Pair = ''EURUSD'', ss_QuotedRate = 90, ss_ExecutedRate = 89, ss_SlippageBPS = Fin 0, ss_Timestamp = 3141\<rparr>"

theorem db_samples_roundtrip_witness:
  "mset (fst (db_SlippageSamples tiny_decimal tiny_pgx ''EURUSD'' 3500 0 (db_AddSlippageSample tiny_decimal tiny_pgx tiny_sample empty_db))) =
   {#tiny_sample\<lparr>ss_ExecutedRate := 90, ss_Timestamp := 3000\<rparr>#}"
proof -
  have "column_sample tiny_decimal tiny_pgx tiny_sample = tiny_sample\<lparr>ss_ExecutedRate := 90, ss_Timestamp := 3000\<rparr>"
    by (simp add: column_sample_def column_decimal_def read_decimal_def float8_col_def tiny_decimal_def tiny_sample_def tiny_pgx_def)
  moreover have "to_timestamptz tiny_pgx 3500 = 3000" "to_timestamptz tiny_pgx (ss_Timestamp tiny_sample) = 3000" "ss_Pair tiny_sample = ''EURUSD''"
    by (simp_all add: tiny_pgx_def tiny_sample_def)
  moreover have "db_samples empty_db = []" by (simp add: empty_db_def)
  moreover have "mset (fst (db_SlippageSamples tiny_decimal tiny_pgx ''EURUSD'' 3500 0 empty_db)) = {#}"
    using db_SlippageSamples_healthy(1) [OF empty_db_ok(1) tiny_pgx_ok] by (simp add: empty_db_def)
  ultimately show ?thesis
    using db_samples_roundtrip [OF empty_db_ok(1) tiny_pgx_ok, where D = tiny_decimal and sm = tiny_sample and fro = 3500 and til = 0 and pair = "''EURUSD''"]
    by simp
qed

end
