(* ===== verification/Backend.thy ===== *)
theory Backend
  imports HedgeFlow History Postgres
begin

text \<open>
  The REST handlers of \<open>internal/api/handlers.go\<close> that use the store, over an arbitrary implementation of the interface \<open>Store\<close> of
  \<open>internal/store/store.go\<close>: a record of its operations on a state of their own. With the memory store behind them
  the handlers are those of \<open>Api\<close> and \<open>Views\<close>; with the Postgres store they are what runs with a database. The field \<open>sv_Store\<close> of the
  service is not used here.
\<close>

section \<open>The interface\<close>

text \<open>The operations the REST handlers call. They drop the result of \<open>UpdateHedge\<close>; a lookup by request id and the list by
  currency can panic (\<open>None\<close>).\<close>

record ('d, 'st) store_iface =
  si_CreateHedge :: "'d Hedge \<Rightarrow> 'st \<Rightarrow> 'st"
  si_GetHedgeByClientRequest :: "string \<Rightarrow> 'st \<Rightarrow> 'd Hedge option option \<times> 'st"
  si_HasFill :: "string \<Rightarrow> string \<Rightarrow> 'st \<Rightarrow> bool \<times> 'st"
  si_GetHedge :: "string \<Rightarrow> 'st \<Rightarrow> 'd Hedge option \<times> 'st"
  si_UpdateHedge :: "string \<Rightarrow> ('d Hedge \<Rightarrow> 'd Hedge \<times> string option) \<Rightarrow> 'st \<Rightarrow> 'st"
  si_AddSlippageSample :: "'d SlippageSample \<Rightarrow> 'st \<Rightarrow> 'st"
  si_AddPnL :: "'d PnL \<Rightarrow> 'st \<Rightarrow> 'st"
  si_HedgesByCurrency :: "string \<Rightarrow> 'st \<Rightarrow> 'd Hedge list option \<times> 'st"
  si_AllHedges :: "'st \<Rightarrow> 'd Hedge list \<times> 'st"
  si_SlippageSamples :: "string \<Rightarrow> time \<Rightarrow> time \<Rightarrow> 'st \<Rightarrow> 'd SlippageSample list \<times> 'st"

definition mem_iface :: "('d Hedge list \<Rightarrow> 'd Hedge list) \<Rightarrow> ('d::linordered_idom, 'd memstore) store_iface" where
  "mem_iface srt =
     \<lparr>si_CreateHedge = \<lambda>h st. Store.CreateHedge st h,
      si_GetHedgeByClientRequest = \<lambda>r st. (GetHedgeByClientRequest st r, st),
      si_HasFill = \<lambda>v t st. (HasFill st v t, st),
      si_GetHedge = \<lambda>i st. (Store.GetHedge st i, st),
      si_UpdateHedge = \<lambda>i fn st. snd (UpdateHedge st i fn),
      si_AddSlippageSample = \<lambda>sm st. AddSlippageSample st sm,
      si_AddPnL = \<lambda>p st. AddPnL st p,
      si_HedgesByCurrency = \<lambda>c st. (HedgesByCurrency srt st c, st),
      si_AllHedges = \<lambda>st. (AllHedges srt st, st),
      si_SlippageSamples = \<lambda>pair fro til st. (SlippageSamples st pair fro til, st)\<rparr>"

text \<open>\<open>srt\<close> is the sort of the lists, \<open>clk\<close> is the time \<open>AddPnL\<close> of the Postgres store reads itself.\<close>

definition pg_iface :: "('d Hedge list \<Rightarrow> 'd Hedge list) \<Rightarrow> 'd::linordered_idom decimal_pkg \<Rightarrow> pgx \<Rightarrow> (nat \<Rightarrow> time) \<Rightarrow> ('d, DB) store_iface" where
  "pg_iface srt D X clk =
     \<lparr>si_CreateHedge = db_CreateHedge D X,
      si_GetHedgeByClientRequest = \<lambda>r db. (let (h, db1) = db_GetHedgeByClientRequest D X r db in (Some h, db1)),
      si_HasFill = db_HasFill,
      si_GetHedge = db_GetHedge D X,
      si_UpdateHedge = \<lambda>i fn db. snd (db_UpdateHedge D X i fn db),
      si_AddSlippageSample = db_AddSlippageSample D X,
      si_AddPnL = \<lambda>p db. db_AddPnL D X (clk (db_count db)) p db,
      si_HedgesByCurrency = \<lambda>c db. (let (hs, db1) = db_HedgesByCurrency srt D X c db in (Some hs, db1)),
      si_AllHedges = db_AllHedges srt D X,
      si_SlippageSamples = db_SlippageSamples D X\<rparr>"

section \<open>The handlers\<close>

definition be_process_fill ::
  "('d, 'st) store_iface \<Rightarrow> 'd::linordered_idom libs \<Rightarrow> 'd Hedge \<Rightarrow> 'd Fill \<Rightarrow> float64 \<times> 'd \<times> 'd \<Rightarrow> 'd Service \<Rightarrow> 'st \<Rightarrow>
   (float64 \<times> 'd \<times> 'd) \<times> 'd Service \<times> 'st" where
  "be_process_fill I L h f acc s st =
     (case acc of (slip, pnl, executed) \<Rightarrow>
        let (has, st1) = si_HasFill I (fl_Venue f) (fl_VenueTradeID f) st in
        if has then (acc, s, st1)
        else
          (let (slip1, pnl1) =
                 (if h_QuotedRate h \<noteq> 0
                  then (InexactFloat64 (lib_dec L)
                          (DivRound (lib_dec L) (fl_Price f - h_QuotedRate h) (h_QuotedRate h) * of_int 10000),
                        pnl + (h_QuotedRate h - fl_Price f) * fl_Amount f)
                  else (slip, pnl));
               st2 = si_AddSlippageSample I
                       \<lparr>ss_Pair = h_Currency h @ ''USD'', ss_QuotedRate = h_QuotedRate h, ss_ExecutedRate = fl_Price f,
                        ss_SlippageBPS = slip1, ss_Timestamp = fl_Timestamp f\<rparr> st1;
               s2 = (case sv_Policy s of None \<Rightarrow> s
                     | Some p \<Rightarrow>
                         if f_lt f_zero (SlippageAlertBPS p) \<and> f_lt (SlippageAlertBPS p) (absFloat slip1)
                         then emit_at L EventSlippageAlert (h_ID h) (h_Currency h) ''slippage exceeded SLIPPAGE_ALERT_BPS'' s
                         else s);
               s3 = feed_cache (h_Currency h) (InexactFloat64 (lib_dec L) (fl_Price f)) ''fill'' s2
           in ((slip1, pnl1, executed + fl_Amount f), s3, st2)))"

fun be_process_fills_loop ::
  "('d, 'st) store_iface \<Rightarrow> 'd::linordered_idom libs \<Rightarrow> 'd Hedge \<Rightarrow> 'd Fill list \<Rightarrow> float64 \<times> 'd \<times> 'd \<Rightarrow> 'd Service \<Rightarrow> 'st \<Rightarrow>
   (float64 \<times> 'd \<times> 'd) \<times> 'd Service \<times> 'st" where
  "be_process_fills_loop I L h [] acc s st = (acc, s, st)"
| "be_process_fills_loop I L h (f # fs) acc s st =
     (let (acc1, s1, st1) = be_process_fill I L h f acc s st in be_process_fills_loop I L h fs acc1 s1 st1)"

definition be_finish_hedge ::
  "('d, 'st) store_iface \<Rightarrow> 'd::linordered_idom libs \<Rightarrow> string \<Rightarrow> 'd createHedgeReq \<Rightarrow> 'd Hedge \<Rightarrow> 'd Fill list \<Rightarrow> 'd Service \<Rightarrow> 'st \<Rightarrow>
   'd response \<times> 'd Service \<times> 'st" where
  "be_finish_hedge I L currency rq h fills s st =
     (let ((slip, pnl, executedNotional), s1, st1) = be_process_fills_loop I L h fills (f_zero, 0, 0) s st;
          (now, s2) = svc_now s1;
          st2 = si_UpdateHedge I (h_ID h) (\<lambda>stored.
                  (stored\<lparr>h_Status := StatusExecuted, h_Fills := fills, h_SlippageBPS := slip, h_PnL := pnl,
                          h_UpdatedAt := now\<rparr>, None)) st1
      in (case NewFromFloat (lib_dec L) slip of None \<Rightarrow> (None, s2, st2)
          | Some slipDec \<Rightarrow>
              (let slippageCost = DivRound (lib_dec L) (slipDec * cr_Notional rq) (of_int 10000);
                   st3 = si_AddPnL I
                          \<lparr>pl_Currency = currency, pl_Realized = pnl, pl_Unrealized = 0, pl_Total = 0,
                           pl_Components = \<lparr>pc_HedgePnL = pnl, pc_SpotPnL = 0, pc_SlippageCost = slippageCost\<rparr>\<rparr> st2;
                   s5 = emit_at L EventPnLEntry (h_ID h) currency ''pnl entry recorded'' s2;
                   (now', s6) = svc_now s5;
                   s7 = s6\<lparr>sv_Tracker := AddCoverage now' (sv_Tracker s6) currency executedNotional\<rparr>;
                   (found, st4) = si_GetHedge I (h_ID h) st3
               in (case found of None \<Rightarrow> (None, s7, st4)
                   | Some out \<Rightarrow>
                       (let s8 = emitHedge L EventHedgeExecuted out ''hedge executed'' s7;
                            s9 = publishExecutionToRecon L (Some out) s8
                        in (writeJSON 201 (HedgeBody (Some out)), s9, st4))))))"

definition be_execute_hedge ::
  "('d, 'st) store_iface \<Rightarrow> 'd::linordered_idom libs \<Rightarrow> string \<Rightarrow> 'd createHedgeReq \<Rightarrow> 'd Hedge \<Rightarrow> 'd Service \<Rightarrow> 'st \<Rightarrow>
   'd response \<times> 'd Service \<times> 'st" where
  "be_execute_hedge I L currency rq h s st =
     (let (r, prov, w) = provider_Execute (lib_dec L) (sv_Provider s) h (sv_world s);
          s1 = s\<lparr>sv_Provider := prov, sv_world := w\<rparr>
      in (case r of None \<Rightarrow> (None, s1, st)
          | Some (Inl e) \<Rightarrow>
              (let (now, s2) = svc_now s1;
                   st1 = si_UpdateHedge I (h_ID h)
                           (\<lambda>stored. (stored\<lparr>h_Status := StatusFailed, h_UpdatedAt := now\<rparr>, None)) st;
                   s4 = emitHedge L EventHedgeFailed h (''execute failed: '' @ provider_error_text e) s2;
                   (found, st2) = si_GetHedge I (h_ID h) st1
               in (writeJSON 502 (HedgeBody found), s4, st2))
          | Some (Inr fills) \<Rightarrow> be_finish_hedge I L currency rq h fills s1 st))"

definition be_place_hedge ::
  "('d, 'st) store_iface \<Rightarrow> 'd::linordered_idom libs \<Rightarrow> string \<Rightarrow> 'd createHedgeReq \<Rightarrow> 'd Hedge \<Rightarrow> 'd Service \<Rightarrow> 'st \<Rightarrow>
   'd response \<times> 'd Service \<times> 'st" where
  "be_place_hedge I L currency rq h s st =
     (case provider_Quote (sv_Provider s) currency (InexactFloat64 (lib_dec L) (cr_Notional rq)) (cr_Tenor rq) of
        Inl e \<Rightarrow>
          (let (now, s1) = svc_now s;
               h1 = h\<lparr>h_Status := StatusFailed, h_UpdatedAt := now\<rparr>
           in (writeJSON 502 (HedgeBody (Some h1)), emitHedge L EventHedgeFailed h1 (''quote failed: '' @ provider_error_text e) s1,
               si_CreateHedge I h1 st))
      | Inr rate \<Rightarrow>
          (case NewFromFloat (lib_dec L) rate of None \<Rightarrow> (None, s, st)
           | Some quotedRate \<Rightarrow>
               (let s1 = feed_cache currency rate ''quote'' s;
                    (now, s2) = svc_now s1;
                    h1 = h\<lparr>h_QuotedRate := quotedRate, h_Status := StatusExecuting, h_UpdatedAt := now\<rparr>;
                    st1 = si_CreateHedge I h1 st;
                    s4 = emitHedge L EventHedgeCreated h1 ''hedge created'' s2
                in be_execute_hedge I L currency rq h1 s4 st1)))"

definition be_start_hedge ::
  "('d, 'st) store_iface \<Rightarrow> 'd::linordered_idom libs \<Rightarrow> string \<Rightarrow> 'd createHedgeReq \<Rightarrow> 'd Service \<Rightarrow> 'st \<Rightarrow>
   'd response \<times> 'd Service \<times> 'st" where
  "be_start_hedge I L currency rq s st =
     (let (now, s1) = svc_now s; (i, s2) = svc_uuid s1;
          (ctx, s3) = policy_context L currency (new_hedge i currency rq now) s2
      in (case ctx of None \<Rightarrow> (None, s3, st) | Some h \<Rightarrow> be_place_hedge I L currency rq h s3 st))"

definition be_CreateHedge ::
  "('d, 'st) store_iface \<Rightarrow> 'd::linordered_idom libs \<Rightarrow> 'd createHedgeReq option \<Rightarrow> 'd Service \<Rightarrow> 'st \<Rightarrow> 'd response \<times> 'd Service \<times> 'st" where
  "be_CreateHedge I L body s st =
     (case body of None \<Rightarrow> (writeError 400 ''invalid JSON body'', s, st)
      | Some rq \<Rightarrow>
          (let currency = ToUpper (cr_Currency rq) in
           if currency = [] then (writeError 400 ''currency is required'', s, st)
           else if cr_Notional rq \<le> 0 then (writeError 400 ''notional must be positive'', s, st)
           else if \<not> IsValidTenor (cr_Tenor rq) then (writeError 400 ''invalid tenor (spot or forward)'', s, st)
           else if \<not> IsValidHedgeType (cr_Type rq) then (writeError 400 ''invalid type (spot or forward)'', s, st)
           else if cr_ClientRequestID rq \<noteq> [] then
             (case si_GetHedgeByClientRequest I (cr_ClientRequestID rq) st of
                (None, st1) \<Rightarrow> (None, s, st1)
              | (Some (Some existing), st1) \<Rightarrow> (writeJSON 200 (HedgeBody (Some existing)), s, st1)
              | (Some None, st1) \<Rightarrow> be_start_hedge I L currency rq s st1)
           else be_start_hedge I L currency rq s st))"

definition be_GetHedge :: "('d, 'st) store_iface \<Rightarrow> string \<Rightarrow> 'st \<Rightarrow> 'd response \<times> 'st" where
  "be_GetHedge I i st =
     (case si_GetHedge I i st of
        (None, st1) \<Rightarrow> (writeError 404 ''hedge not found'', st1)
      | (Some h, st1) \<Rightarrow> (writeJSON 200 (HedgeBody (Some h)), st1))"

definition be_ListHedges :: "('d, 'st) store_iface \<Rightarrow> string \<Rightarrow> string \<Rightarrow> 'st \<Rightarrow> 'd response \<times> 'st" where
  "be_ListHedges I currency_q status_q st =
     (let currency = ToUpper currency_q; status = ToUpper status_q in
      case (if currency \<noteq> [] then si_HedgesByCurrency I currency st else (let (hs, st1) = si_AllHedges I st in (Some hs, st1))) of
        (None, st1) \<Rightarrow> (None, st1)
      | (Some all, st1) \<Rightarrow>
          (writeJSON 200 (HedgesBody (if status \<noteq> [] then filter (\<lambda>h. h_Status h = status) all else all)), st1))"

definition be_PnL_handler ::
  "('d, 'st) store_iface \<Rightarrow> 'd::linordered_idom libs \<Rightarrow> (string \<Rightarrow> time option) \<Rightarrow> ((string \<rightharpoonup> 'd PnL) \<Rightarrow> string list) \<Rightarrow>
   string \<Rightarrow> string \<Rightarrow> 'st \<Rightarrow> 'd response \<times> 'st" where
  "be_PnL_handler I L pt order from_q to_q st =
     (case parseRange pt from_q to_q of
        Inl msg \<Rightarrow> (writeError 400 msg, st)
      | Inr (from, to) \<Rightarrow>
          (let (hedges, st1) = si_AllHedges I st in
           case pnl_loop (lib_dec L) from to hedges Map.empty of
             None \<Rightarrow> (None, st1)
           | Some byCurrency \<Rightarrow>
               (let rows = map (pnl_row byCurrency) (order byCurrency);
                    t0 = fold total_add rows (zero_pnl []);
                    total = t0\<lparr>pl_Currency := ''TOTAL'', pl_Total := pl_Realized t0 + pl_Unrealized t0\<rparr>
                in (writeJSON 200 (PnLBody \<lparr>pr_From = from, pr_To = to, pr_ByCurrency = rows, pr_Total = total\<rparr>), st1))))"

definition be_Slippage ::
  "('d, 'st) store_iface \<Rightarrow> (string \<Rightarrow> time option) \<Rightarrow> ((string \<rightharpoonup> float64) \<Rightarrow> string list) \<Rightarrow> string \<Rightarrow> string \<Rightarrow> string \<Rightarrow>
   'd Service \<Rightarrow> 'st \<Rightarrow> 'd response \<times> 'd Service \<times> 'st" where
  "be_Slippage I pt order pair_q from_q to_q s st =
     (let pair = ToUpper pair_q in
      case parseRange pt from_q to_q of
        Inl msg \<Rightarrow> (writeError 400 msg, s, st)
      | Inr (from, to) \<Rightarrow>
          (let (samples, st1) = si_SlippageSamples I pair from to st;
               a = slip_total samples;
               n = int (length samples);
               agg = \<lparr>sa_Pair = pair, sa_Count = n, sa_Mean = (if 0 < n then f_div (sl_sum a) (f_of_int n) else f_zero),
                      sa_Max = sl_max a\<rparr>;
               s1 = (case sv_Policy s of None \<Rightarrow> s
                     | Some p \<Rightarrow> s\<lparr>sv_Policy := Some (fold (tune a) (order (sl_byCcySum a)) p)\<rparr>)
           in (writeJSON 200 (SlippageBody \<lparr>sr_Pair = pair, sr_From = from, sr_To = to, sr_Samples = samples, sr_Aggregates = agg\<rparr>),
               s1, st1)))"

definition be_Settlement_handler ::
  "('d, 'st) store_iface \<Rightarrow> 'd::linordered_idom libs \<Rightarrow> ((string \<rightharpoonup> 'd) \<Rightarrow> string list) \<Rightarrow>
   ('d SettlementObligation list \<Rightarrow> 'd SettlementObligation list) \<Rightarrow> 'd Service \<Rightarrow> 'st \<Rightarrow> 'd response \<times> 'd Service \<times> 'st" where
  "be_Settlement_handler I L order osrt s st =
     (let flows = AllExposures (order (tr_net (sv_Tracker s))) (order (tr_coverage (sv_Tracker s))) (sv_Tracker s);
          (hedges, st1) = si_AllHedges I st;
          range1 = order (byCcy (net_loop (flow_legs flows @ hedge_legs hedges)))
      in (case NetFromFlowsAndHedges (lib_dec L) osrt range1 flows hedges of
            None \<Rightarrow> (None, s, st1)
          | Some obs \<Rightarrow> (writeJSON 200 (ObligationsBody obs (int (length obs))), publish_obligations L obs s, st1)))"

section \<open>The memory store behind the interface\<close>

text \<open>The helpers of the service do not look at its store; updates of other fields are moved in front of that of the store.\<close>

lemma store_last:
  "s\<lparr>sv_Store := st, sv_Tracker := t\<rparr> = s\<lparr>sv_Tracker := t, sv_Store := st\<rparr>"
  "s\<lparr>sv_Store := st, sv_Provider := pv\<rparr> = s\<lparr>sv_Provider := pv, sv_Store := st\<rparr>"
  "s\<lparr>sv_Store := st, sv_Audit := a\<rparr> = s\<lparr>sv_Audit := a, sv_Store := st\<rparr>"
  "s\<lparr>sv_Store := st, sv_Cache := ca\<rparr> = s\<lparr>sv_Cache := ca, sv_Store := st\<rparr>"
  "s\<lparr>sv_Store := st, sv_AuditC := ac\<rparr> = s\<lparr>sv_AuditC := ac, sv_Store := st\<rparr>"
  "s\<lparr>sv_Store := st, sv_DL := dl\<rparr> = s\<lparr>sv_DL := dl, sv_Store := st\<rparr>"
  "s\<lparr>sv_Store := st, sv_world := w\<rparr> = s\<lparr>sv_world := w, sv_Store := st\<rparr>"
  by simp_all

lemma svc_now_store: "svc_now (s\<lparr>sv_Store := st\<rparr>) = (fst (svc_now s), (snd (svc_now s))\<lparr>sv_Store := st\<rparr>)"
  by (simp add: svc_now_def case_prod_beta store_last)

lemma svc_uuid_store: "svc_uuid (s\<lparr>sv_Store := st\<rparr>) = (fst (svc_uuid s), (snd (svc_uuid s))\<lparr>sv_Store := st\<rparr>)"
  by (simp add: svc_uuid_def case_prod_beta store_last)

lemma svc_GetExposure_store:
  "svc_GetExposure c (s\<lparr>sv_Store := st\<rparr>) = (fst (svc_GetExposure c s), (snd (svc_GetExposure c s))\<lparr>sv_Store := st\<rparr>)"
  by (simp add: svc_GetExposure_def svc_now_store case_prod_beta)

lemma emit_store: "emit L e (s\<lparr>sv_Store := st\<rparr>) = (emit L e s)\<lparr>sv_Store := st\<rparr>"
  by (simp add: emit_def Let_def case_prod_beta store_last split: option.splits)

lemma emit_at_store: "emit_at L ty i c d (s\<lparr>sv_Store := st\<rparr>) = (emit_at L ty i c d s)\<lparr>sv_Store := st\<rparr>"
  by (simp add: emit_at_def svc_now_store emit_store case_prod_beta)

lemma emitHedge_store: "emitHedge L ty h d (s\<lparr>sv_Store := st\<rparr>) = (emitHedge L ty h d s)\<lparr>sv_Store := st\<rparr>"
  by (simp add: emitHedge_def emit_at_store)

lemma feed_cache_store: "feed_cache c x src (s\<lparr>sv_Store := st\<rparr>) = (feed_cache c x src s)\<lparr>sv_Store := st\<rparr>"
  by (simp add: feed_cache_def store_last svc_now_store case_prod_beta split: option.splits)

lemma publish_fills_store: "publish_fills L rc out fs (s\<lparr>sv_Store := st\<rparr>) = (publish_fills L rc out fs s)\<lparr>sv_Store := st\<rparr>"
proof (induction fs arbitrary: s)
  case (Cons f fs)
  obtain err dl w where "PublishExecution (lib_fmt L) Background rc (execution_record (lib_fmt L) out f) (sv_DL s) (sv_world s) = (err, dl, w)"
    by (metis prod_cases3)
  then show ?case using Cons [of "s\<lparr>sv_DL := dl, sv_world := w\<rparr>"] by (simp add: store_last)
qed simp

lemma publish_store: "publishExecutionToRecon L out (s\<lparr>sv_Store := st\<rparr>) = (publishExecutionToRecon L out s)\<lparr>sv_Store := st\<rparr>"
  by (simp add: publishExecutionToRecon_def publish_fills_store split: option.splits)

lemma policy_context_store:
  "policy_context L c h (s\<lparr>sv_Store := st\<rparr>) = (fst (policy_context L c h s), (snd (policy_context L c h s))\<lparr>sv_Store := st\<rparr>)"
  by (simp add: policy_context_def Let_def svc_GetExposure_store emit_at_store case_prod_beta split: option.splits)

lemmas store_blind = store_last svc_now_store svc_uuid_store emit_at_store emitHedge_store feed_cache_store publish_store policy_context_store

lemma mem_iface_simps [simp]:
  "si_CreateHedge (mem_iface srt) h st = Store.CreateHedge st h" "si_GetHedgeByClientRequest (mem_iface srt) r st = (GetHedgeByClientRequest st r, st)"
  "si_HasFill (mem_iface srt) v t st = (HasFill st v t, st)" "si_GetHedge (mem_iface srt) i st = (Store.GetHedge st i, st)"
  "si_UpdateHedge (mem_iface srt) i fn st = snd (UpdateHedge st i fn)" "si_AddSlippageSample (mem_iface srt) sm st = AddSlippageSample st sm"
  "si_AddPnL (mem_iface srt) p st = AddPnL st p"
  "si_HedgesByCurrency (mem_iface srt) c st = (HedgesByCurrency srt st c, st)" "si_AllHedges (mem_iface srt) st = (AllHedges srt st, st)"
  "si_SlippageSamples (mem_iface srt) pair fro til st = (SlippageSamples st pair fro til, st)"
  by (simp_all add: mem_iface_def)

text \<open>Putting the store back into the service.\<close>

definition with_store :: "'r \<times> 'd Service \<times> 'd memstore \<Rightarrow> 'r \<times> 'd Service" where
  "with_store x = (fst x, (fst (snd x))\<lparr>sv_Store := snd (snd x)\<rparr>)"

lemma be_process_fill_mem: "process_fill L h f acc (s\<lparr>sv_Store := st\<rparr>) = with_store (be_process_fill (mem_iface srt) L h f acc s st)"
  by (simp add: process_fill_def be_process_fill_def with_store_def store_blind Let_def case_prod_beta split: option.splits)

lemma be_process_fills_mem:
  "process_fills_loop L h fs acc (s\<lparr>sv_Store := st\<rparr>) = with_store (be_process_fills_loop (mem_iface srt) L h fs acc s st)"
proof (induction fs arbitrary: st acc s)
  case (Cons f fs)
  obtain acc1 s1 st1 where "be_process_fill (mem_iface srt) L h f acc s st = (acc1, s1, st1)" by (metis prod_cases3)
  with Cons.IH [where acc = acc1 and s = s1 and st = st1] show ?case by (simp add: be_process_fill_mem [where srt = srt] with_store_def)
qed (simp add: with_store_def)

lemma be_finish_hedge_mem:
  "finish_hedge L c rq h fills (s\<lparr>sv_Store := st\<rparr>) = with_store (be_finish_hedge (mem_iface srt) L c rq h fills s st)"
proof -
  obtain slip pnl ex s1 st1 where "be_process_fills_loop (mem_iface srt) L h fills (f_zero, 0, 0) s st = ((slip, pnl, ex), s1, st1)"
    by (metis prod_cases3)
  moreover from this have "processFills L h fills (s\<lparr>sv_Store := st\<rparr>) = ((slip, pnl, ex), s1\<lparr>sv_Store := st1\<rparr>)"
    by (simp add: processFills_def be_process_fills_mem [where srt = srt] with_store_def)
  ultimately show ?thesis
    by (simp add: finish_hedge_def be_finish_hedge_def with_store_def store_blind Let_def case_prod_beta
        split: option.splits)
qed

lemma be_execute_hedge_mem:
  "execute_hedge L c rq h (s\<lparr>sv_Store := st\<rparr>) = with_store (be_execute_hedge (mem_iface srt) L c rq h s st)"
proof -
  obtain r prov w where ex: "provider_Execute (lib_dec L) (sv_Provider s) h (sv_world s) = (r, prov, w)" by (metis prod_cases3)
  show ?thesis
    using be_finish_hedge_mem [where srt = srt and s = "s\<lparr>sv_Provider := prov, sv_world := w\<rparr>" and st = st]
      svc_now_store [where s = "s\<lparr>sv_Provider := prov, sv_world := w\<rparr>" and st = st]
    by (simp add: execute_hedge_def be_execute_hedge_def ex store_blind Let_def case_prod_beta split: option.splits sum.splits)
      (simp add: with_store_def)
qed

lemma be_place_hedge_mem:
  "place_hedge L c rq h (s\<lparr>sv_Store := st\<rparr>) = with_store (be_place_hedge (mem_iface srt) L c rq h s st)"
  by (simp add: place_hedge_def be_place_hedge_def store_blind Let_def case_prod_beta split: option.splits sum.splits)
    (simp add: be_execute_hedge_mem [where srt = srt] with_store_def)

lemma be_start_hedge_mem:
  "start_hedge L c rq (s\<lparr>sv_Store := st\<rparr>) = with_store (be_start_hedge (mem_iface srt) L c rq s st)"
  by (simp add: start_hedge_def be_start_hedge_def store_blind Let_def case_prod_beta be_place_hedge_mem [where srt = srt] split: option.splits)
    (simp add: with_store_def)

lemma publish_obligations_store:
  "publish_obligations L obs (s\<lparr>sv_Store := st\<rparr>) = (publish_obligations L obs s)\<lparr>sv_Store := st\<rparr>"
proof (induction obs arbitrary: s)
  case (Cons ob obs)
  let ?s1 = "emit L \<lparr>ae_Type = EventSettlement, ae_HedgeID = [], ae_Currency = so_Currency ob,
    ae_Detail = ''netted settlement obligation'', ae_At = so_At ob\<rparr> s"
  show ?case
  proof (cases "sv_ReconC ?s1")
    case None
    then show ?thesis using Cons [of ?s1] by (simp add: emit_store Let_def)
  next
    case (Some rc)
    obtain err dl w where "PublishObligation (lib_fmt L) Background rc ob (sv_DL ?s1) (sv_world ?s1) = (err, dl, w)"
      by (metis prod_cases3)
    then show ?thesis using Cons [of "?s1\<lparr>sv_DL := dl, sv_world := w\<rparr>"] Some by (simp add: emit_store Let_def store_last)
  qed
qed simp

lemma be_CreateHedge_mem: "Api.CreateHedge L body (s\<lparr>sv_Store := st\<rparr>) = with_store (be_CreateHedge (mem_iface srt) L body s st)"
  by (simp add: CreateHedge_def be_CreateHedge_def be_start_hedge_mem [where srt = srt] Let_def split: option.splits)
    (simp add: with_store_def)

lemma be_Settlement_mem:
  "Settlement_handler L order srt osrt (s\<lparr>sv_Store := st\<rparr>) = with_store (be_Settlement_handler (mem_iface srt) L order osrt s st)"
  by (simp add: Settlement_handler_def be_Settlement_handler_def with_store_def publish_obligations_store Let_def split: option.splits)

lemma be_Slippage_mem:
  "Slippage pt forder pair from_q to_q (s\<lparr>sv_Store := st\<rparr>) = with_store (be_Slippage (mem_iface srt) pt forder pair from_q to_q s st)"
  by (simp add: Slippage_def be_Slippage_def with_store_def Let_def case_prod_beta split: option.splits sum.splits)

lemma be_reads_mem:
  "Api.GetHedge i s = (fst (be_GetHedge (mem_iface srt) i (sv_Store s)), s)"
  "ListHedges srt c q s = (fst (be_ListHedges (mem_iface srt) c q (sv_Store s)), s)"
  "PnL_handler L pt srt order from_q to_q s = (fst (be_PnL_handler (mem_iface srt) L pt order from_q to_q (sv_Store s)), s)"
  by (simp_all add: GetHedge_def be_GetHedge_def ListHedges_def be_ListHedges_def PnL_handler_def be_PnL_handler_def Let_def case_prod_beta
      split: option.splits sum.splits)

text \<open>The REST handlers over the interface of the stores, with the memory store behind it, are the handlers over the
  memory store: same answers, same state.\<close>

lemma backend_refines:
  "Api.CreateHedge L body (s\<lparr>sv_Store := st\<rparr>) = with_store (be_CreateHedge (mem_iface srt) L body s st) \<and>
   Settlement_handler L order srt osrt (s\<lparr>sv_Store := st\<rparr>) = with_store (be_Settlement_handler (mem_iface srt) L order osrt s st) \<and>
   Slippage pt forder pair from_q to_q (s\<lparr>sv_Store := st\<rparr>) = with_store (be_Slippage (mem_iface srt) pt forder pair from_q to_q s st) \<and>
   Api.GetHedge i s = (fst (be_GetHedge (mem_iface srt) i (sv_Store s)), s) \<and>
   ListHedges srt c q s = (fst (be_ListHedges (mem_iface srt) c q (sv_Store s)), s) \<and>
   PnL_handler L pt srt porder from_q to_q s = (fst (be_PnL_handler (mem_iface srt) L pt porder from_q to_q (sv_Store s)), s)"
  by (simp add: be_CreateHedge_mem [where srt = srt] be_Settlement_mem be_Slippage_mem [where srt = srt] be_reads_mem(1) [where srt = srt] be_reads_mem(2,3))

section \<open>The Postgres store behind the interface\<close>

text \<open>Every row with an id, and every row with a request id, lacks a value date.\<close>

definition undated_id :: "DB \<Rightarrow> string \<Rightarrow> bool" where
  "undated_id db i \<longleftrightarrow> (\<forall>r\<in>set (db_hedges db). hr_id r = i \<longrightarrow> hr_value_date r = None)"

definition undated_request :: "DB \<Rightarrow> string \<Rightarrow> bool" where
  "undated_request db q \<longleftrightarrow> (\<forall>r\<in>set (db_hedges db). hr_client_request_id r = q \<longrightarrow> hr_value_date r = None)"

lemma db_GetHedge_undated:
  assumes "pgx_ok X" and "undated_id db i"
  shows "fst (db_GetHedge D X i db) = None"
  unfolding db_GetHedge_def
  by (rule get_row_unreadable) (use assms in \<open>auto simp: undated_id_def set_some_order scan_undated\<close>)

lemma db_GetHedgeByClientRequest_undated:
  assumes "pgx_ok X" and "undated_request db q"
  shows "fst (db_GetHedgeByClientRequest D X q db) = None"
  unfolding db_GetHedgeByClientRequest_def
  by (auto intro!: get_row_unreadable simp: assms(1) set_some_order) (use assms in \<open>auto simp: undated_request_def scan_undated\<close>)

lemma get_row_hedges [simp]: "db_hedges (snd (get_row D X q db)) = db_hedges db"
  using get_row_frame [of D X q db] by auto

lemma db_reads_hedges [simp]:
  "db_hedges (snd (db_GetHedge D X i db)) = db_hedges db" "db_hedges (snd (db_GetHedgeByClientRequest D X r db)) = db_hedges db"
  by (simp_all add: db_GetHedge_def db_GetHedgeByClientRequest_def)

lemma db_UpdateHedge_undated:
  assumes "pgx_ok X" and "undated_id db i"
  shows "db_hedges (snd (db_UpdateHedge D X i fn db)) = db_hedges db"
proof -
  obtain db1 where "db_GetHedge D X i db = (None, db1)" using db_GetHedge_undated [OF assms, of D] by (metis prod.collapse)
  with db_reads_hedges(1) [of D X i db] show ?thesis by (simp add: db_UpdateHedge_def)
qed

lemma db_appends_hedges [simp]:
  "db_hedges (db_AddSlippageSample D X sm db) = db_hedges db" "db_hedges (db_AddPnL D X now p db) = db_hedges db"
  by (simp_all add: db_AddSlippageSample_def db_AddPnL_def db_exec_def uuid_NewV7_def Let_def split: pg_fault.splits option.splits)

lemma pg_iface_simps [simp]:
  "si_CreateHedge (pg_iface srt D X clk) h db = db_CreateHedge D X h db"
  "si_HasFill (pg_iface srt D X clk) [] t db = (False, db)" "si_GetHedge (pg_iface srt D X clk) i db = db_GetHedge D X i db"
  "si_UpdateHedge (pg_iface srt D X clk) i fn db = snd (db_UpdateHedge D X i fn db)"
  "si_AddSlippageSample (pg_iface srt D X clk) sm db = db_AddSlippageSample D X sm db"
  "si_AddPnL (pg_iface srt D X clk) p db = db_AddPnL D X (clk (db_count db)) p db"
  "si_GetHedgeByClientRequest (pg_iface srt D X clk) r db =
     (Some (fst (db_GetHedgeByClientRequest D X r db)), snd (db_GetHedgeByClientRequest D X r db))"
  by (simp_all add: pg_iface_def db_HasFill_def case_prod_beta)

lemma be_process_fill_frame:
  "sv_Tracker (fst (snd (be_process_fill I L h f acc s st))) = sv_Tracker s"
  "sv_Provider (fst (snd (be_process_fill I L h f acc s st))) = sv_Provider s"
  "sv_Policy (fst (snd (be_process_fill I L h f acc s st))) = sv_Policy s"
  "later s (fst (snd (be_process_fill I L h f acc s st)))"
  by (simp_all add: be_process_fill_def Let_def case_prod_beta later_rules split: option.splits)

lemma be_process_fill_pg:
  assumes "fl_Venue f = []"
  shows "db_hedges (snd (snd (be_process_fill (pg_iface srt D X clk) L h f acc s db))) = db_hedges db"
    and "snd (snd (fst (be_process_fill (pg_iface srt D X clk) L h f acc s db))) = snd (snd acc) + fl_Amount f"
    and "decimal_zero (lib_dec L) \<Longrightarrow> fl_Price f = h_QuotedRate h \<Longrightarrow> fst acc = f_zero \<Longrightarrow>
      fst (fst (be_process_fill (pg_iface srt D X clk) L h f acc s db)) = f_zero"
  using assms by (simp_all add: be_process_fill_def Let_def case_prod_beta decimal_zero_def)

text \<open>What a hedge that nobody finds leaves behind: the handler panics, the coverage has grown.\<close>

definition lost_hedge :: "string \<Rightarrow> 'd::linordered_idom \<Rightarrow> 'd Service \<Rightarrow> 'd response \<Rightarrow> 'd Service \<Rightarrow> bool" where
  "lost_hedge c n s r s' \<longleftrightarrow> r = None \<and> (\<exists>now. sv_Tracker s' = AddCoverage now (sv_Tracker s) c n) \<and>
     quiet_provider (sv_Provider s') \<and> sv_Policy s' = sv_Policy s \<and> later s s'"

lemma finish_lost:
  assumes "pgx_ok X" and "undated_id db (h_ID h)" and "quiet_provider (sv_Provider s)" and "decimal_ok (lib_dec L)" and "decimal_zero (lib_dec L)"
    and "fl_Venue f = []" and "fl_Price f = h_QuotedRate h"
    and "be_finish_hedge (pg_iface srt D X clk) L c rq h [f] s db = (r, s', db')"
  shows "lost_hedge c (fl_Amount f) s r s' \<and> db_hedges db' = db_hedges db"
proof -
  obtain slip pnl ex s1 db1 where
    pf: "be_process_fills_loop (pg_iface srt D X clk) L h [f] (f_zero, 0, 0) s db = ((slip, pnl, ex), s1, db1)"
    by (metis prod_cases3)
  then have one: "be_process_fill (pg_iface srt D X clk) L h f (f_zero, 0, 0) s db = ((slip, pnl, ex), s1, db1)"
    by (simp add: case_prod_beta)
  note frame = be_process_fill_frame [where I = "pg_iface srt D X clk" and L = L and h = h and f = f and acc = "(f_zero, 0, 0)" and s = s and st = db,
      unfolded one, simplified]
  note pg = be_process_fill_pg [OF assms(6), where srt = srt and D = D and X = X and clk = clk and L = L and h = h and acc = "(f_zero, 0, 0)" and s = s and db = db,
      unfolded one, simplified]
  let ?fn = "\<lambda>stored. (stored\<lparr>h_Status := StatusExecuted, h_Fills := [f], h_SlippageBPS := slip, h_PnL := pnl,
    h_UpdatedAt := fst (svc_now s1)\<rparr>, None)"
  let ?db2 = "snd (db_UpdateHedge D X (h_ID h) ?fn db1)"
  have "undated_id db1 (h_ID h)" using assms(2) pg(1) by (simp add: undated_id_def)
  then have "db_hedges ?db2 = db_hedges db1" by (rule db_UpdateHedge_undated [OF assms(1)])
  then have db2: "db_hedges ?db2 = db_hedges db" using pg(1) by simp
  have none: "fst (db_GetHedge D X (h_ID h) (db_AddPnL D X now row ?db2)) = None" for now row
    by (rule db_GetHedge_undated [OF assms(1)]) (use assms(2) db2 in \<open>simp add: undated_id_def\<close>)
  have "NewFromFloat (lib_dec L) f_zero = Some 0" using decimal_0 [OF assms(4)] by simp
  with none pg(3) [OF assms(5,7)] assms(8) have r: "r = None"
    "s' = (let s6 = svc_now (emit_at L EventPnLEntry (h_ID h) c ''pnl entry recorded'' (snd (svc_now s1)))
           in (snd s6)\<lparr>sv_Tracker := AddCoverage (fst s6) (sv_Tracker (snd s6)) c ex\<rparr>)"
    "\<exists>now row. db' = snd (db_GetHedge D X (h_ID h) (db_AddPnL D X now row ?db2))"
    by (auto simp: be_finish_hedge_def pf Let_def case_prod_beta simp del: be_process_fills_loop.simps)
  have "later s s'" using frame(4) by (simp add: r(2) Let_def later_rules)
  with r frame pg(2) assms(3) db2 show ?thesis by (auto simp: lost_hedge_def Let_def)
qed

lemma quiet_execute:
  assumes "quiet_provider pv"
  shows "\<exists>f pv' w'. provider_Execute D pv h w = (Some (Inr [f]), pv', w') \<and> fl_Venue f = [] \<and> fl_Price f = h_QuotedRate h \<and>
    fl_Amount f = h_Notional h \<and> quiet_provider pv' \<and> world_later w w'"
  using assms by (auto simp: provider_Execute_def quiet_provider_def Let_def case_prod_beta world_later_actions)

lemma execute_lost:
  assumes "pgx_ok X" and "undated_id db (h_ID h)" and "quiet_provider (sv_Provider s)" and "decimal_ok (lib_dec L)" and "decimal_zero (lib_dec L)"
    and "be_execute_hedge (pg_iface srt D X clk) L c rq h s db = (r, s', db')"
  shows "lost_hedge c (h_Notional h) s r s' \<and> db_hedges db' = db_hedges db"
proof -
  obtain f pv' w' where ex: "provider_Execute (lib_dec L) (sv_Provider s) h (sv_world s) = (Some (Inr [f]), pv', w')"
    and f: "fl_Venue f = []" "fl_Price f = h_QuotedRate h" "fl_Amount f = h_Notional h"
    and pv: "quiet_provider pv'" and w: "world_later (sv_world s) w'"
    using quiet_execute [OF assms(3)] by metis
  let ?s1 = "s\<lparr>sv_Provider := pv', sv_world := w'\<rparr>"
  have "later s ?s1" using w by (simp add: later_def)
  moreover have "lost_hedge c (h_Notional h) ?s1 r s' \<and> db_hedges db' = db_hedges db"
    using finish_lost [OF assms(1,2) _ assms(4,5) f(1,2), of ?s1 srt D clk c rq r s' db'] pv assms(6) f(3)
    by (simp add: be_execute_hedge_def ex)
  ultimately show ?thesis by (auto simp: lost_hedge_def intro: later_trans)
qed

text \<open>The rows of \<open>hedges\<close> after a request: one more without a value date, or as before.\<close>

definition adds_undated :: "string \<Rightarrow> string \<Rightarrow> DB \<Rightarrow> DB \<Rightarrow> bool" where
  "adds_undated i q db db' \<longleftrightarrow> db_hedges db' = db_hedges db \<or>
     (\<exists>r. db_hedges db' = db_hedges db @ [r] \<and> hr_id r = i \<and> hr_client_request_id r = q \<and> hr_value_date r = None)"

lemma adds_undated_request: "adds_undated i q db db' \<Longrightarrow> undated_request db q' \<Longrightarrow> undated_request db' q'"
  by (auto simp: adds_undated_def undated_request_def)

definition all_undated :: "DB \<Rightarrow> bool" where
  "all_undated db \<longleftrightarrow> (\<forall>r\<in>set (db_hedges db). hr_value_date r = None)"

lemma adds_undated_all: "adds_undated i q db db' \<Longrightarrow> all_undated db \<Longrightarrow> all_undated db'"
  by (auto simp: adds_undated_def all_undated_def)

lemma adds_undated_id: "adds_undated i q db db' \<Longrightarrow> i \<notin> hr_id ` set (db_hedges db) \<Longrightarrow> undated_id db' i"
  by (force simp: adds_undated_def undated_id_def)

lemma place_lost:
  assumes "pgx_ok X" and "h_ID h \<notin> hr_id ` set (db_hedges db)" and "h_ValueDate h = 0" and "quiet_provider (sv_Provider s)"
    and "decimal_ok (lib_dec L)" and "decimal_zero (lib_dec L)"
    and "be_place_hedge (pg_iface srt D X clk) L c rq h s db = (r, s', db')"
  shows "lost_hedge c (h_Notional h) s r s' \<and> adds_undated (h_ID h) (h_ClientRequestID h) db db'"
proof -
  obtain q where q: "NewFromFloat (lib_dec L) (pv_Rate (sv_Provider s)) = Some q"
    using assms(4) decimal_panics [OF assms(5)] by (auto simp: quiet_provider_def)
  let ?s2 = "svc_now (feed_cache c (pv_Rate (sv_Provider s)) ''quote'' s)"
  let ?h1 = "h\<lparr>h_QuotedRate := q, h_Status := StatusExecuting, h_UpdatedAt := fst ?s2\<rparr>"
  let ?s4 = "emitHedge L EventHedgeCreated ?h1 ''hedge created'' (snd ?s2)" and ?db1 = "db_CreateHedge D X ?h1 db"
  have run: "be_execute_hedge (pg_iface srt D X clk) L c rq ?h1 ?s4 ?db1 = (r, s', db')"
    using assms(4,7) q by (simp add: be_place_hedge_def provider_Quote_def quiet_provider_def Let_def case_prod_beta)
  have add: "adds_undated (h_ID h) (h_ClientRequestID h) db ?db1"
    using db_CreateHedge_hedges [of D X ?h1 db] assms(3) by (auto simp: adds_undated_def hedge_values_def)
  have "undated_id ?db1 (h_ID ?h1)" using adds_undated_id [OF add assms(2)] by simp
  from execute_lost [OF assms(1) this _ assms(5,6) run] assms(4)
  have "lost_hedge c (h_Notional h) ?s4 r s'" and "db_hedges db' = db_hedges ?db1" by simp_all
  moreover have "later s ?s4" by (simp add: later_rules)
  ultimately show ?thesis using add by (auto simp: lost_hedge_def adds_undated_def intro: later_trans)
qed

lemma policy_context_value_date: "policy_context L c h s = (Some h', s') \<Longrightarrow> h_ValueDate h' = h_ValueDate h"
  by (auto simp: policy_context_def Let_def case_prod_beta split: option.splits if_splits)

text \<open>Ids that are still to come are not in the table.\<close>

definition unissued :: "'d Service \<Rightarrow> DB \<Rightarrow> bool" where
  "unissued s db \<longleftrightarrow> inj (w_uuid (sv_world s)) \<and> (\<forall>n\<ge>w_ids (sv_world s). w_uuid (sv_world s) n \<notin> hr_id ` set (db_hedges db))"

lemma start_lost:
  assumes "pgx_ok X" and "unissued s db" and "quiet_provider (sv_Provider s)" and "decimal_ok (lib_dec L)" and "decimal_zero (lib_dec L)"
    and "\<And>p. sv_Policy s = Some p \<Longrightarrow> policy_ok p \<and> f_finite (EffectiveCap p c)"
    and "be_start_hedge (pg_iface srt D X clk) L c rq s db = (r, s', db')"
  shows "lost_hedge c (cr_Notional rq) s r s' \<and> adds_undated (next_id s) (cr_ClientRequestID rq) db db' \<and>
    w_ids (sv_world s) < w_ids (sv_world s')"
proof -
  let ?s2 = "snd (svc_uuid (snd (svc_now s)))" and ?h = "new_hedge (fst (svc_uuid (snd (svc_now s)))) c rq (fst (svc_now s))"
  have ids: "w_ids (sv_world ?s2) = Suc (w_ids (sv_world s))" "fst (svc_uuid (snd (svc_now s))) = next_id s"
    by (simp_all add: svc_uuid_def svc_now_def next_id_def case_prod_beta)
  obtain h1 s3 where ctx: "policy_context L c ?h ?s2 = (Some h1, s3)"
    using policy_context_answer [of ?s2 c L ?h] assms(4,6) by (auto simp: prod_eq_iff)
  have h1: "h_ID h1 = next_id s" "h_Notional h1 = cr_Notional rq" "h_ClientRequestID h1 = cr_ClientRequestID rq" "h_ValueDate h1 = 0"
    using policy_context_books [OF ctx] policy_context_value_date [OF ctx] ids(2) by (simp_all add: new_hedge_def)
  have b: "sv_Tracker s3 = sv_Tracker s" "sv_Provider s3 = sv_Provider s" "sv_Policy s3 = sv_Policy s"
    using policy_context_books [OF ctx] by (simp_all add: same_books_def)
  have "later ?s2 s3" using later_policy_context [of ?s2 ?s2 L c ?h] ctx by simp
  then have l: "later s s3" "Suc (w_ids (sv_world s)) \<le> w_ids (sv_world s3)"
    using later_trans [of s ?s2 s3] later_simps(2) [of ?s2 s3] ids(1) by (simp_all add: later_rules)
  have "h_ID h1 \<notin> hr_id ` set (db_hedges db)" using assms(2) h1(1) by (simp add: unissued_def next_id_def)
  from place_lost [OF assms(1) this h1(4) _ assms(4,5), of s3 srt D clk c rq r s' db'] assms(3,7) ctx b h1
  have "lost_hedge c (cr_Notional rq) s3 r s' \<and> adds_undated (next_id s) (cr_ClientRequestID rq) db db'"
    by (simp add: be_start_hedge_def case_prod_beta)
  moreover from this have "later s3 s'" by (simp add: lost_hedge_def)
  ultimately show ?thesis using b l later_trans [OF l(1)] later_simps(2) [of s3 s'] by (simp add: lost_hedge_def)
qed

text \<open>The state that every request over the Postgres store keeps.\<close>

definition production :: "'d::linordered_idom libs \<Rightarrow> 'd createHedgeReq \<Rightarrow> 'd Service \<Rightarrow> DB \<Rightarrow> bool" where
  "production L rq s db \<longleftrightarrow> unissued s db \<and> undated_request db (cr_ClientRequestID rq) \<and> quiet_provider (sv_Provider s) \<and>
     decimal_ok (lib_dec L) \<and> decimal_zero (lib_dec L) \<and>
     (\<forall>p. sv_Policy s = Some p \<longrightarrow> policy_ok p \<and> f_finite (EffectiveCap p (ToUpper (cr_Currency rq))))"

lemma unissued_later:
  assumes "unissued s db" and "later s s'" and "w_ids (sv_world s) < w_ids (sv_world s')" and "adds_undated (next_id s) q db db'"
  shows "unissued s' db'"
proof -
  let ?u = "w_uuid (sv_world s)"
  have u: "w_uuid (sv_world s') = ?u" using assms(2) by (rule later_simps)
  have "?u n \<noteq> next_id s" if "w_ids (sv_world s') \<le> n" for n
    using assms(1,3) that by (auto simp: unissued_def next_id_def dest: injD)
  moreover have "?u n \<notin> hr_id ` set (db_hedges db)" if "w_ids (sv_world s') \<le> n" for n
    using assms(1,3) that by (simp add: unissued_def)
  moreover have "hr_id ` set (db_hedges db') \<subseteq> insert (next_id s) (hr_id ` set (db_hedges db))"
    using assms(4) by (auto simp: adds_undated_def)
  ultimately have "?u n \<notin> hr_id ` set (db_hedges db')" if "w_ids (sv_world s') \<le> n" for n using that by blast
  with assms(1) show ?thesis by (simp add: unissued_def u)
qed

lemma pg_request:
  assumes "pgx_ok X" and "production L rq s db" and "typed_request rq" and "cr_Currency rq \<noteq> []"
    and "be_CreateHedge (pg_iface srt D X clk) L (Some rq) s db = (r, s', db')"
  shows "r = None \<and> (\<exists>now. sv_Tracker s' = AddCoverage now (sv_Tracker s) (ToUpper (cr_Currency rq)) (cr_Notional rq)) \<and>
    production L rq s' db' \<and> (all_undated db \<longrightarrow> all_undated db')"
proof -
  let ?c = "ToUpper (cr_Currency rq)"
  define db1 where "db1 = (if cr_ClientRequestID rq \<noteq> [] then snd (db_GetHedgeByClientRequest D X (cr_ClientRequestID rq) db) else db)"
  have db1: "db_hedges db1 = db_hedges db" by (simp add: db1_def)
  have P: "unissued s db" "undated_request db (cr_ClientRequestID rq)" "quiet_provider (sv_Provider s)" "decimal_ok (lib_dec L)"
    "decimal_zero (lib_dec L)" "\<And>p. sv_Policy s = Some p \<Longrightarrow> policy_ok p \<and> f_finite (EffectiveCap p ?c)"
    using assms(2) by (simp_all add: production_def)
  have "be_start_hedge (pg_iface srt D X clk) L ?c rq s db1 = (r, s', db')"
    using assms(3-5) db_GetHedgeByClientRequest_undated [OF assms(1) P(2), of D]
    by (auto simp: be_CreateHedge_def typed_request_def db1_def Let_def split: if_splits)
  moreover have "unissued s db1" using P(1) db1 by (simp add: unissued_def)
  ultimately have lost: "lost_hedge ?c (cr_Notional rq) s r s'" "adds_undated (next_id s) (cr_ClientRequestID rq) db1 db'"
    "w_ids (sv_world s) < w_ids (sv_world s')"
    using start_lost [OF assms(1) _ P(3-5), of db1 ?c srt D clk rq r s' db'] P(6) by simp_all
  have add: "adds_undated (next_id s) (cr_ClientRequestID rq) db db'" using lost(2) db1 by (simp add: adds_undated_def)
  have "production L rq s' db'"
    using P lost(1,3) unissued_later [OF P(1) _ lost(3) add] adds_undated_request [OF add P(2)]
    by (simp add: production_def lost_hedge_def)
  with lost(1) adds_undated_all [OF add] show ?thesis by (simp add: lost_hedge_def)
qed

text \<open>A client that repeats its request.\<close>

fun retry :: "nat \<Rightarrow> ('d, 'st) store_iface \<Rightarrow> 'd::linordered_idom libs \<Rightarrow> 'd createHedgeReq \<Rightarrow> 'd Service \<Rightarrow> 'st \<Rightarrow> 'd response list \<times> 'd Service \<times> 'st" where
  "retry 0 I L rq s st = ([], s, st)"
| "retry (Suc n) I L rq s st =
     (let (r, s1, st1) = be_CreateHedge I L (Some rq) s st; (rs, s2, st2) = retry n I L rq s1 st1 in (r # rs, s2, st2))"

lemma retry_lost:
  assumes "pgx_ok X" and "production L rq s db" and "typed_request rq" and "cr_Currency rq \<noteq> []"
    and "retry n (pg_iface srt D X clk) L rq s db = (rs, s', db')"
  shows "rs = replicate n None \<and> cov_of (sv_Tracker s') (ToUpper (cr_Currency rq)) =
    cov_of (sv_Tracker s) (ToUpper (cr_Currency rq)) + of_nat n * cr_Notional rq \<and> tr_net (sv_Tracker s') = tr_net (sv_Tracker s) \<and>
    (finite_tracker (sv_Tracker s) \<longrightarrow> finite_tracker (sv_Tracker s')) \<and> (all_undated db \<longrightarrow> all_undated db')"
  using assms(2,5)
proof (induction n arbitrary: s db rs)
  case (Suc n)
  obtain r s1 db1 where one: "be_CreateHedge (pg_iface srt D X clk) L (Some rq) s db = (r, s1, db1)" by (metis prod_cases3)
  obtain rs1 where rest: "retry n (pg_iface srt D X clk) L rq s1 db1 = (rs1, s', db')" "rs = r # rs1"
    using Suc.prems(2) one by (auto simp: Let_def split: prod.splits)
  from pg_request [OF assms(1) Suc.prems(1) assms(3,4) one] Suc.IH [OF _ rest(1)] rest(2) show ?case
    by (auto simp: algebra_simps)
qed simp

text \<open>C20. With a database a hedge request with a request id is not idempotent, and it does not answer: over the Postgres
  store, with a provider that executes, every repetition of the request is executed again and ends
  in a panic, so that after \<open>n\<close> attempts the coverage has grown by \<open>n\<close> times the notional. This holds
  whatever statements of the database fail.\<close>

theorem pg_retries_execute:
  assumes "pgx_ok X" and "unissued s db" and "undated_request db (cr_ClientRequestID rq)" and "quiet_provider (sv_Provider s)"
    and "decimal_ok (lib_dec L)" and "decimal_zero (lib_dec L)"
    and "\<And>p. sv_Policy s = Some p \<Longrightarrow> policy_ok p \<and> f_finite (EffectiveCap p (ToUpper (cr_Currency rq)))"
    and "typed_request rq" and "cr_Currency rq \<noteq> []"
    and "retry n (pg_iface srt (lib_dec L) X clk) L rq s db = (rs, s', db')"
  shows "rs = replicate n None \<and> cov_of (sv_Tracker s') (ToUpper (cr_Currency rq)) =
    cov_of (sv_Tracker s) (ToUpper (cr_Currency rq)) + of_nat n * cr_Notional rq"
proof -
  have "production L rq s db" using assms(2-7) by (simp add: production_def)
  from retry_lost [OF assms(1) this assms(8-10)] show ?thesis by simp
qed

theorem pg_retries_execute_witness:
  "\<exists>s' db'. retry 2 (pg_iface (sort_key h_CreatedAt) rat_decimal tiny_pgx (\<lambda>_. 7)) sample_libs sample_hedge_req sample_service empty_db = ([None, None], s', db') \<and>
     cov_of (sv_Tracker s') ''EUR'' = 1800"
proof -
  obtain rs s' db' where
    r: "retry 2 (pg_iface (sort_key h_CreatedAt) (lib_dec sample_libs) tiny_pgx (\<lambda>_. 7)) sample_libs sample_hedge_req sample_service empty_db = (rs, s', db')"
    by (metis prod_cases3)
  have "unissued sample_service empty_db" by (simp add: unissued_def empty_db_def inj_failing_world)
  moreover have "undated_request empty_db (cr_ClientRequestID sample_hedge_req)" by (simp add: undated_request_def empty_db_def)
  ultimately have "rs = replicate 2 None \<and> cov_of (sv_Tracker s') ''EUR'' = cov_of (sv_Tracker sample_service) ''EUR'' + of_nat 2 * 900"
    using pg_retries_execute [OF tiny_pgx_ok _ _ _ _ _ _ _ _ r] by simp
  with r show ?thesis by (simp add: numeral_2_eq_2 tracker_New_def del: retry.simps)
qed

section \<open>Lists and settlement over the Postgres store\<close>

text \<open>The first row without a value date ends the scan, so a table of such rows reads as empty.\<close>

lemma scan_loop_undated:
  assumes "pgx_ok X" and "\<forall>r\<in>set rows. hr_value_date r = None"
  shows "\<exists>ok. scan_loop D X rows [] db = ((ok, []), db)"
  using assms scan_undated [of X "hd rows" D] by (cases rows) auto

lemma scanHedges_undated:
  assumes "pgx_ok X" and "sorts_by h_CreatedAt srt" and "\<forall>r\<in>set rows. hr_value_date r = None"
  shows "fst (scanHedges srt D X rows db) = []"
  using scan_loop_undated [OF assms(1,3), of D db] sorts_by_set [OF assms(2), of "[]"] by (auto simp: scanHedges_def)

lemma query_undated:
  assumes "pgx_ok X" and "all_undated db" and "db_query (\<lambda>s. hedges_by_created_at X (filter P (db_hedges s))) db = (Some (rows, ok), db1)"
  shows "\<forall>r\<in>set rows. hr_value_date r = None"
proof -
  have srt: "sorts_by hr_created_at (hedges_by_created_at X)" using assms(1) by (simp add: pgx_ok_def)
  obtain n where "rows = take n (hedges_by_created_at X (filter P (db_hedges db)))"
    using db_query_rows [of "\<lambda>s. hedges_by_created_at X (filter P (db_hedges s))" db rows ok] assms(3) by auto
  then have "set rows \<subseteq> set (db_hedges db)" using sorts_by_set [OF srt, of "filter P (db_hedges db)"] set_take_subset by fastforce
  with assms(2) show ?thesis by (auto simp: all_undated_def)
qed

lemma db_lists_undated:
  assumes "pgx_ok X" and "sorts_by h_CreatedAt srt" and "all_undated db"
  shows "fst (db_AllHedges srt D X db) = []" and "fst (db_HedgesByCurrency srt D X c db) = []"
  using query_undated [OF assms(1,3), of "\<lambda>_. True"] query_undated [OF assms(1,3), of "\<lambda>r. hr_currency r = c"]
  by (auto simp: db_AllHedges_def db_HedgesByCurrency_def scanHedges_undated [OF assms(1,2)] split: prod.splits option.splits)

lemma executed_total_New: "executed_total store_New c = 0"
  by (simp add: executed_total_def store_New_def)

text \<open>C21. Settlement and the list of hedges over the Postgres store do not see the hedges of REST requests: after any number
  of executed attempts the list is empty and the obligation of every currency is its whole net
  amount (or dust), although the coverage has grown by every attempt.\<close>

theorem pg_settlement_blind:
  assumes "pgx_ok X" and "unissued s db" and "all_undated db" and "quiet_provider (sv_Provider s)"
    and "decimal_ok (lib_dec L)" and "decimal_zero (lib_dec L)"
    and "\<And>p. sv_Policy s = Some p \<Longrightarrow> policy_ok p \<and> f_finite (EffectiveCap p (ToUpper (cr_Currency rq)))"
    and "typed_request rq" and "cr_Currency rq \<noteq> []"
    and "retry n (pg_iface hs (lib_dec L) X clk) L rq s db = (rs, s', db')"
    and "\<And>m. finite (dom m) \<Longrightarrow> enumerates (order m) m" and "sorts_by h_CreatedAt hs" and "sorts_by so_Currency os"
    and "finite_tracker (sv_Tracker s)"
  shows "cov_of (sv_Tracker s') (ToUpper (cr_Currency rq)) = cov_of (sv_Tracker s) (ToUpper (cr_Currency rq)) + of_nat n * cr_Notional rq \<and>
    fst (be_ListHedges (pg_iface hs (lib_dec L) X clk) cq sq db') = Some (200, HedgesBody []) \<and>
    (\<exists>obs. fst (be_Settlement_handler (pg_iface hs (lib_dec L) X clk) L order os s' db') =
         Some (200, ObligationsBody obs (int (length obs))) \<and>
       (\<forall>c. let due = net_of (sv_Tracker s) c
            in sum_obligations c obs = due \<or> sum_obligations c obs = 0 \<and> \<bar>due\<bar> * 10 ^ 9 < 1))"
proof -
  let ?I = "pg_iface hs (lib_dec L) X clk"
  have "production L rq s db" using assms(2-7) by (auto simp: production_def undated_request_def all_undated_def)
  from retry_lost [OF assms(1) this assms(8-10)] assms(3,14)
  have R: "cov_of (sv_Tracker s') (ToUpper (cr_Currency rq)) = cov_of (sv_Tracker s) (ToUpper (cr_Currency rq)) + of_nat n * cr_Notional rq"
    "net_of (sv_Tracker s') = net_of (sv_Tracker s)" "finite_tracker (sv_Tracker s')" "all_undated db'" by simp_all
  note none = db_lists_undated [OF assms(1,12) R(4), of "lib_dec L"]
  have "fst (be_ListHedges ?I cq sq db') = Some (200, HedgesBody [])"
    using none by (simp add: be_ListHedges_def pg_iface_def Let_def case_prod_beta writeJSON_def)
  moreover have "fst (be_Settlement_handler ?I L order os s' db') = fst (Settlement_handler L order hs os (s'\<lparr>sv_Store := store_New\<rparr>))"
    using none sorts_by_set [OF assms(12), of "[]"]
    by (simp add: be_Settlement_handler_def Settlement_handler_def pg_iface_def AllHedges_def store_New_def Let_def case_prod_beta split: option.splits)
  moreover obtain obs where
    "Settlement_handler L order hs os (s'\<lparr>sv_Store := store_New\<rparr>) =
       (Some (200, ObligationsBody obs (int (length obs))), publish_obligations L obs (s'\<lparr>sv_Store := store_New\<rparr>))"
    "\<forall>c. let due = net_of (sv_Tracker s') c - executed_total store_New c
         in sum_obligations c obs = due \<or> sum_obligations c obs = 0 \<and> \<bar>due\<bar> * 10 ^ 9 < 1"
    using settlement_of_books [OF assms(5) assms(11) assms(12,13), of "s'\<lparr>sv_Store := store_New\<rparr>"] R(3) by auto
  moreover have "net_of (sv_Tracker s') c = net_of (sv_Tracker s) c" for c using R(2) by meson
  ultimately show ?thesis using R(1) by (simp add: Let_def executed_total_New)
qed

theorem pg_settlement_blind_witness:
  "\<exists>s' db' obs. retry 2 (pg_iface (sort_key h_CreatedAt) rat_decimal tiny_pgx (\<lambda>_. 7)) sample_libs sample_hedge_req
       (sample_service\<lparr>sv_Tracker := Tracker.AddExposure 1 tracker_New ''EUR'' 5000\<rparr>) empty_db = ([None, None], s', db') \<and>
     cov_of (sv_Tracker s') ''EUR'' = 1800 \<and>
     fst (be_Settlement_handler (pg_iface (sort_key h_CreatedAt) rat_decimal tiny_pgx (\<lambda>_. 7)) sample_libs (\<lambda>m. sorted_list_of_set (dom m))
       (sort_key so_Currency) s' db') = Some (200, ObligationsBody obs (int (length obs))) \<and> sum_obligations ''EUR'' obs = 5000"
proof -
  let ?s = "sample_service\<lparr>sv_Tracker := Tracker.AddExposure 1 tracker_New ''EUR'' 5000\<rparr>"
  let ?I = "pg_iface (sort_key h_CreatedAt) (lib_dec sample_libs) tiny_pgx (\<lambda>_. 7)"
  obtain rs s' db' where r: "retry 2 ?I sample_libs sample_hedge_req ?s empty_db = (rs, s', db')" by (metis prod_cases3)
  have u: "unissued ?s empty_db" "all_undated empty_db" by (simp_all add: unissued_def all_undated_def empty_db_def inj_failing_world)
  have f: "finite_tracker (sv_Tracker ?s)" by (simp add: finite_tracker_def tracker_New_def)
  have keys: "enumerates (sorted_list_of_set (dom m)) m" if "finite (dom m)" for m :: "string \<rightharpoonup> rat"
    using that by (simp add: enumerates_def)
  have p: "policy_ok p \<and> f_finite (EffectiveCap p (ToUpper (cr_Currency sample_hedge_req)))" if "sv_Policy ?s = Some p" for p
    using that by auto
  from pg_settlement_blind [OF tiny_pgx_ok u _ _ _ p _ _ r keys sorts_by_sort_key sorts_by_sort_key f, where cq = "[]" and sq = "[]"]
  obtain obs where o: "cov_of (sv_Tracker s') ''EUR'' = cov_of (sv_Tracker ?s) ''EUR'' + 2 * 900"
    "fst (be_Settlement_handler ?I sample_libs (\<lambda>m. sorted_list_of_set (dom m)) (sort_key so_Currency) s' db') =
       Some (200, ObligationsBody obs (int (length obs)))"
    "\<forall>c. let due = net_of (sv_Tracker ?s) c in sum_obligations c obs = due \<or> sum_obligations c obs = 0 \<and> \<bar>due\<bar> * 10 ^ 9 < 1" by auto
  have "rs = [None, None]"
    using retry_lost [OF tiny_pgx_ok _ _ _ r] u(1) by (simp add: production_def undated_request_def empty_db_def numeral_2_eq_2)
  moreover have "sum_obligations ''EUR'' obs = 5000" using o(3) [rule_format, of "''EUR''"] by (simp add: Let_def tracker_New_def)
  ultimately show ?thesis using r o(1,2) by (auto simp: tracker_New_def simp del: retry.simps)
qed

end
