(* ===== verification/Process.thy ===== *)
theory Process
  imports Service Snapshotter
begin

text \<open>
  The process around the service: \<open>internal/grpc/server.go\<close>, \<open>internal/otel/otel.go\<close> and \<open>run\<close> of \<open>cmd/fx-hedging/main.go\<close>.
  The file system, the TLS and OpenTelemetry packages and the network are arguments. The life of the process after the
  start is the step relation \<open>proc_step\<close>: clients, the two servers, the snapshotter, time and the signal act at any time.
\<close>

section \<open>The gRPC server\<close>

datatype client_auth = NoClientCert | RequireAndVerifyClientCert

datatype tls_version = VersionTLS12

record 'c tls_config =
  tc_ClientCAs :: string
  tc_ClientAuth :: client_auth
  tc_MinVersion :: tls_version
  tc_Certificates :: "'c list"

text \<open>\<open>os.ReadFile\<close>, \<open>AppendCertsFromPEM\<close>, \<open>tls.LoadX509KeyPair\<close> and \<open>net.Listen\<close>.\<close>

record 'c host =
  ho_ReadFile :: "string \<Rightarrow> string + string"
  ho_AppendCertsFromPEM :: "string \<Rightarrow> bool"
  ho_LoadX509KeyPair :: "string \<Rightarrow> string \<Rightarrow> string + 'c"
  ho_Listen :: "string \<Rightarrow> string option"

definition buildServerTLSConfig :: "getenv \<Rightarrow> 'c host \<Rightarrow> string \<Rightarrow> string + 'c tls_config" where
  "buildServerTLSConfig env H caCertPath =
     (case ho_ReadFile H caCertPath of Inl e \<Rightarrow> Inl (''read ca cert: '' @ e)
      | Inr caPEM \<Rightarrow>
          if \<not> ho_AppendCertsFromPEM H caPEM then Inl ''failed to parse ca cert''
          else
            let cfg = \<lparr>tc_ClientCAs = caPEM, tc_ClientAuth = RequireAndVerifyClientCert, tc_MinVersion = VersionTLS12,
                       tc_Certificates = []\<rparr>;
                certPath = env ''SERVER_TLS_CERT''
            in if certPath \<noteq> [] then
                 (let keyPath = env ''SERVER_TLS_KEY'' in
                  if keyPath = [] then Inl ''SERVER_TLS_CERT set but SERVER_TLS_KEY missing''
                  else case ho_LoadX509KeyPair H certPath keyPath of
                    Inl e \<Rightarrow> Inl (''load server keypair: '' @ e)
                  | Inr cert \<Rightarrow> Inr (cfg\<lparr>tc_Certificates := [cert]\<rparr>))
               else Inr cfg)"

record 'c grpc_server =
  gs_port :: string
  gs_creds :: "'c tls_config option"

text \<open>The result and whether the listener is left open.\<close>

definition NewServer :: "getenv \<Rightarrow> 'c host \<Rightarrow> string \<Rightarrow> (string + 'c grpc_server) \<times> bool" where
  "NewServer env H grpcPort =
     (case ho_Listen H ('':'' @ grpcPort) of Some e \<Rightarrow> (Inl (''grpc listen: '' @ e), False)
      | None \<Rightarrow>
          (let caCertPath = env ''MTLS_CA_CERT'' in
           if caCertPath \<noteq> [] then
             (case buildServerTLSConfig env H caCertPath of
                Inl e \<Rightarrow> (Inl (''grpc mtls: '' @ e), False)
              | Inr tlsCfg \<Rightarrow> (Inr \<lparr>gs_port = grpcPort, gs_creds = Some tlsCfg\<rparr>, True))
           else (Inr \<lparr>gs_port = grpcPort, gs_creds = None\<rparr>, True)))"

lemma buildServerTLSConfig_Inr:
  "buildServerTLSConfig env H ca = Inr cfg \<Longrightarrow>
     tc_ClientAuth cfg = RequireAndVerifyClientCert \<and> tc_MinVersion cfg = VersionTLS12 \<and>
     ho_ReadFile H ca = Inr (tc_ClientCAs cfg) \<and> ho_AppendCertsFromPEM H (tc_ClientCAs cfg) \<and>
     (if env ''SERVER_TLS_CERT'' = [] then tc_Certificates cfg = []
      else \<exists>c. ho_LoadX509KeyPair H (env ''SERVER_TLS_CERT'') (env ''SERVER_TLS_KEY'') = Inr c \<and> tc_Certificates cfg = [c])"
  by (auto simp: buildServerTLSConfig_def Let_def split: sum.splits if_splits)

text \<open>C27. With \<open>MTLS_CA_CERT\<close> set, a gRPC server that starts requires and verifies client certificates against the
  certificates of that file, with TLS 1.2 or later and the configured key pair: no failure along the
  way makes it fall back to plain text, it fails to start instead and leaves no listener open.\<close>

theorem mtls_enforced:
  assumes "env ''MTLS_CA_CERT'' \<noteq> []"
  shows "case NewServer env H port of
      (Inr srv, lis) \<Rightarrow> lis \<and> (\<exists>cfg. gs_creds srv = Some cfg \<and> tc_ClientAuth cfg = RequireAndVerifyClientCert \<and>
        tc_MinVersion cfg = VersionTLS12 \<and> ho_ReadFile H (env ''MTLS_CA_CERT'') = Inr (tc_ClientCAs cfg) \<and>
        ho_AppendCertsFromPEM H (tc_ClientCAs cfg) \<and>
        (env ''SERVER_TLS_CERT'' \<noteq> [] \<longrightarrow>
          (\<exists>c. ho_LoadX509KeyPair H (env ''SERVER_TLS_CERT'') (env ''SERVER_TLS_KEY'') = Inr c \<and> tc_Certificates cfg = [c])))
    | (Inl e, lis) \<Rightarrow> \<not> lis"
  using assms
  by (auto simp: NewServer_def Let_def split: option.splits sum.splits dest!: buildServerTLSConfig_Inr)

theorem mtls_enforced_witness:
  "let env = (\<lambda>k. if k = ''MTLS_CA_CERT'' then ''ca.pem'' else if k = ''SERVER_TLS_CERT'' then ''cert.pem'' else []);
       H = \<lparr>ho_ReadFile = \<lambda>f. Inr ''PEM'', ho_AppendCertsFromPEM = \<lambda>p. p = ''PEM'', ho_LoadX509KeyPair = \<lambda>c k. Inr (c, k),
            ho_Listen = \<lambda>_. None\<rparr>
   in \<not> snd (NewServer env H ''9090'')"
proof -
  let ?env = "\<lambda>k. if k = ''MTLS_CA_CERT'' then ''ca.pem'' else if k = ''SERVER_TLS_CERT'' then ''cert.pem'' else []"
  let ?H = "\<lparr>ho_ReadFile = \<lambda>f. Inr ''PEM'', ho_AppendCertsFromPEM = \<lambda>p. p = ''PEM'', ho_LoadX509KeyPair = \<lambda>c k. Inr (c, k),
    ho_Listen = \<lambda>_. None\<rparr> :: (string \<times> string) host"
  have "fst (NewServer ?env ?H ''9090'') = Inl ''grpc mtls: SERVER_TLS_CERT set but SERVER_TLS_KEY missing''"
    by (simp add: NewServer_def buildServerTLSConfig_def)
  with mtls_enforced [of ?env ?H "''9090''"] show ?thesis by (simp add: case_prod_beta)
qed

section \<open>Telemetry\<close>

definition TrimPrefix :: "string \<Rightarrow> string \<Rightarrow> string" where
  "TrimPrefix s pre = (if take (length pre) s = pre then drop (length pre) s else s)"

text \<open>\<open>resource.Merge\<close> for a service name, the two exporters for an endpoint.\<close>

record otel_pkg =
  ot_resource :: "string \<Rightarrow> string option"
  ot_trace :: "string \<Rightarrow> string option"
  ot_metric :: "string \<Rightarrow> string option"

text \<open>\<open>None\<close> are the no-op providers, otherwise the name of the service and the endpoint of the exporters.\<close>

definition otel_Init :: "getenv \<Rightarrow> otel_pkg \<Rightarrow> string \<Rightarrow> string + (string \<times> string) option" where
  "otel_Init env OT serviceName =
     (let endpoint = TrimSpace (env ''OTEL_EXPORTER_OTLP_ENDPOINT'') in
      if endpoint = [] then Inr None
      else
        let name = TrimSpace (env ''OTEL_SERVICE_NAME'');
            serviceName1 = (if name \<noteq> [] then name else serviceName);
            endpoint1 = TrimPrefix (TrimPrefix endpoint ''http://'') ''grpc://''
        in case ot_resource OT serviceName1 of Some e \<Rightarrow> Inl (''otel resource: '' @ e)
           | None \<Rightarrow>
             (case ot_trace OT endpoint1 of Some e \<Rightarrow> Inl (''otel trace exporter: '' @ e)
              | None \<Rightarrow>
                (case ot_metric OT endpoint1 of Some e \<Rightarrow> Inl (''otel metric exporter: '' @ e)
                 | None \<Rightarrow> Inr (Some (serviceName1, endpoint1)))))"

definition otel_shutdown :: "string option \<Rightarrow> string option \<Rightarrow> string option" where
  "otel_shutdown tp_err mp_err =
     (case tp_err of Some e \<Rightarrow> Some (''trace shutdown: '' @ e)
      | None \<Rightarrow> map_option (\<lambda>e. ''metric shutdown: '' @ e) mp_err)"

section \<open>The process\<close>

text \<open>The product of two \<open>time.Duration\<close> wraps around.\<close>

definition wrap_duration :: "int \<Rightarrow> duration" where
  "wrap_duration d = (d + 2 ^ 63) mod 2 ^ 64 - 2 ^ 63"

text \<open>The interval of the snapshotter; \<open>atoi\<close> is \<open>strconv.Atoi\<close>.\<close>

definition refresh_interval :: "getenv \<Rightarrow> (string \<Rightarrow> int option) \<Rightarrow> duration" where
  "refresh_interval env atoi =
     (let v = env ''EXPOSURE_REFRESH_INTERVAL_MS'';
          interval = (if v \<noteq> [] then (case atoi v of Some n \<Rightarrow> if n > 0 then n else 1000 | None \<Rightarrow> 1000) else 1000)
      in wrap_duration (interval * millisecond))"

definition env_or :: "getenv \<Rightarrow> string \<Rightarrow> string \<Rightarrow> string" where
  "env_or env k d = (if env k = [] then d else env k)"

text \<open>The state of the running process: the servers, the REST requests and gRPC calls being served, whether the context of
  the snapshotter is cancelled and its goroutine runs, whether a signal came, how far \<open>run\<close> is, and how
  long \<open>Shutdown\<close> has been waiting.\<close>

datatype server_state = NotStarted | Serving | Stopped

datatype phase = Waiting | ShuttingDown | GracefulStopping | GrpcDown | Returned

record proc =
  pc_rest :: server_state
  pc_requests :: nat
  pc_grpc :: server_state
  pc_calls :: nat
  pc_cancelled :: bool
  pc_snapping :: bool
  pc_signal :: bool
  pc_phase :: phase
  pc_waited :: duration

text \<open>The snapshotter is made from the tracker of the service and subscribes the channel \<open>ch\<close> to it; with PostgreSQL the
  service is not part of \<open>startup\<close>, its tracker is a new one.\<close>

definition start_snapshotter :: "nat \<Rightarrow> duration \<Rightarrow> 'd startup \<Rightarrow> Snapshotter \<times> 'd startup" where
  "start_snapshotter ch interval svc =
     (case svc of
        StartMemory s \<Rightarrow> (let (sn, t) = NewSnapshotter ch interval (sv_Tracker s) in (sn, StartMemory (s\<lparr>sv_Tracker := t\<rparr>)))
      | _ \<Rightarrow> (fst (NewSnapshotter ch interval (tracker_New :: 'd tracker)), svc))"

text \<open>\<open>run\<close> up to the wait for a signal: \<open>Inl\<close> where it returns an error or the process is ended by \<open>log.Fatalf\<close>.\<close>

definition run_start ::
  "getenv \<Rightarrow> (string \<Rightarrow> int option) \<Rightarrow> parse_float \<Rightarrow> (string \<Rightarrow> string option) \<Rightarrow> otel_pkg \<Rightarrow> 'c host \<Rightarrow> nat \<Rightarrow> 'd net \<Rightarrow>
   string + (Snapshotter \<times> 'd startup \<times> proc)" where
  "run_start env atoi pf open_db OT H ch w =
     (case otel_Init env OT ''fx-hedging'' of Inl e \<Rightarrow> Inl e
      | Inr _ \<Rightarrow>
          (case newService env pf open_db w of
             Fatal msg \<Rightarrow> Inl msg
           | svc \<Rightarrow>
               (let (sn, svc1) = start_snapshotter ch (refresh_interval env atoi) svc;
                    grpc = (case NewServer env H (env_or env ''GRPC_PORT'' ''9090'') of (Inl _, _) \<Rightarrow> NotStarted | (Inr _, _) \<Rightarrow> Serving)
                in Inr (sn, svc1,
                        \<lparr>pc_rest = Serving, pc_requests = 0, pc_grpc = grpc, pc_calls = 0, pc_cancelled = False, pc_snapping = True,
                         pc_signal = False, pc_phase = Waiting, pc_waited = 0\<rparr>))))"

text \<open>\<open>ListenAndServe\<close> and \<open>Serve\<close> can fail; what is being served goes on, and open gRPC connections still take calls until
  \<open>GracefulStop\<close>. \<open>Shutdown\<close> closes the listener at once and returns when no request is left, or with an error, which
  is dropped, when its context of 10 seconds has ended. \<open>GracefulStop\<close> takes no call any more and returns when none is
  left; it has no deadline. Nobody waits for the snapshotter, which stops at some time after the end of its context.\<close>

inductive proc_step :: "proc \<Rightarrow> proc \<Rightarrow> bool" where
  request: "pc_rest p = Serving \<Longrightarrow> proc_step p (p\<lparr>pc_requests := Suc (pc_requests p)\<rparr>)"
| response: "pc_requests p = Suc n \<Longrightarrow> proc_step p (p\<lparr>pc_requests := n\<rparr>)"
| rest_fails: "pc_rest p = Serving \<Longrightarrow> proc_step p (p\<lparr>pc_rest := Stopped, pc_cancelled := True\<rparr>)"
| call: "pc_grpc p \<noteq> NotStarted \<Longrightarrow> pc_phase p \<in> {Waiting, ShuttingDown} \<Longrightarrow> proc_step p (p\<lparr>pc_calls := Suc (pc_calls p)\<rparr>)"
| call_ends: "pc_calls p = Suc n \<Longrightarrow> proc_step p (p\<lparr>pc_calls := n\<rparr>)"
| grpc_fails: "pc_grpc p = Serving \<Longrightarrow> proc_step p (p\<lparr>pc_grpc := Stopped\<rparr>)"
| snapshotter_ends: "pc_cancelled p \<Longrightarrow> proc_step p (p\<lparr>pc_snapping := False\<rparr>)"
| signalled: "proc_step p (p\<lparr>pc_signal := True\<rparr>)"
| shutdown: "pc_phase p = Waiting \<Longrightarrow> pc_signal p \<Longrightarrow> proc_step p (p\<lparr>pc_rest := Stopped, pc_phase := ShuttingDown\<rparr>)"
| time_passes: "pc_phase p = ShuttingDown \<Longrightarrow> 0 < d \<Longrightarrow> proc_step p (p\<lparr>pc_waited := pc_waited p + d\<rparr>)"
| drained: "pc_phase p = ShuttingDown \<Longrightarrow> pc_requests p = 0 \<Longrightarrow> proc_step p (p\<lparr>pc_phase := GracefulStopping\<rparr>)"
| timed_out: "pc_phase p = ShuttingDown \<Longrightarrow> 10 * second \<le> pc_waited p \<Longrightarrow> proc_step p (p\<lparr>pc_phase := GracefulStopping\<rparr>)"
| no_grpc: "pc_phase p = GracefulStopping \<Longrightarrow> pc_grpc p = NotStarted \<Longrightarrow> proc_step p (p\<lparr>pc_phase := GrpcDown\<rparr>)"
| graceful_stop: "pc_phase p = GracefulStopping \<Longrightarrow> pc_grpc p \<noteq> NotStarted \<Longrightarrow> pc_calls p = 0 \<Longrightarrow>
    proc_step p (p\<lparr>pc_grpc := Stopped, pc_phase := GrpcDown\<rparr>)"
| returns: "pc_phase p = GrpcDown \<Longrightarrow> proc_step p (p\<lparr>pc_cancelled := True, pc_phase := Returned\<rparr>)"

inductive_cases proc_step_cases: "proc_step p p'"

text \<open>What holds in every state the process can be in.\<close>

definition rest_inv :: "proc \<Rightarrow> bool" where
  "rest_inv p \<longleftrightarrow> (pc_phase p \<noteq> Waiting \<longrightarrow> pc_signal p \<and> pc_rest p = Stopped) \<and> (pc_cancelled p \<longrightarrow> pc_rest p = Stopped) \<and>
     (pc_snapping p \<or> pc_cancelled p)"

definition drain_inv :: "proc \<Rightarrow> bool" where
  "drain_inv p \<longleftrightarrow> pc_phase p = Waiting \<or> pc_phase p = ShuttingDown \<or> pc_requests p = 0 \<or> 10 * second \<le> pc_waited p"

definition grpc_inv :: "proc \<Rightarrow> bool" where
  "grpc_inv p \<longleftrightarrow> (pc_grpc p = NotStarted \<longrightarrow> pc_calls p = 0) \<and>
     (pc_phase p = GrpcDown \<or> pc_phase p = Returned \<longrightarrow> pc_grpc p \<noteq> Serving \<and> pc_calls p = 0) \<and>
     (pc_phase p = Returned \<longrightarrow> pc_cancelled p)"

definition proc_inv :: "proc \<Rightarrow> bool" where
  "proc_inv p \<longleftrightarrow> rest_inv p \<and> drain_inv p \<and> grpc_inv p"

lemmas proc_inv_defs = proc_inv_def rest_inv_def drain_inv_def grpc_inv_def

lemma run_start_inv:
  "run_start env atoi pf open_db OT H ch w = Inr (sn, svc, p) \<Longrightarrow> proc_inv p \<and> pc_phase p = Waiting \<and> \<not> pc_signal p"
  by (auto simp: run_start_def proc_inv_defs Let_def case_prod_beta split: sum.splits startup.splits)

lemma rest_inv_step: "proc_step p p' \<Longrightarrow> rest_inv p \<Longrightarrow> rest_inv p'"
  by (induction rule: proc_step.induct) (auto simp: rest_inv_def)

lemma drain_inv_step: "proc_step p p' \<Longrightarrow> rest_inv p \<Longrightarrow> drain_inv p \<Longrightarrow> drain_inv p'"
  by (induction rule: proc_step.induct) (auto simp: drain_inv_def rest_inv_def)

lemma grpc_inv_step: "proc_step p p' \<Longrightarrow> grpc_inv p \<Longrightarrow> grpc_inv p'"
  by (induction rule: proc_step.induct) (auto simp: grpc_inv_def)

lemma proc_step_inv: "proc_step p p' \<Longrightarrow> proc_inv p \<Longrightarrow> proc_inv p'"
  unfolding proc_inv_def by (blast intro: rest_inv_step drain_inv_step grpc_inv_step)

lemma proc_reach_inv: "proc_step\<^sup>*\<^sup>* p p' \<Longrightarrow> proc_inv p \<Longrightarrow> proc_inv p'"
  by (induction rule: rtranclp_induct) (auto intro: proc_step_inv)

text \<open>The only way out of \<open>GracefulStop\<close>.\<close>

lemma stopping_step:
  "proc_step p p' \<Longrightarrow> pc_phase p = GracefulStopping \<Longrightarrow> pc_phase p' \<noteq> GracefulStopping \<Longrightarrow> pc_grpc p = NotStarted \<or> pc_calls p = 0"
  by (erule proc_step_cases) auto

text \<open>C28. Once its servers were started, \<open>run\<close> returns only after a signal: a server that fails does not end it. When it
  returns, the listeners are closed, no gRPC call is being served and the context of the snapshotter is
  cancelled; REST requests can still be running, but only after \<open>Shutdown\<close> has waited its 10 seconds. A gRPC
  call that does not end, such as an open stream, keeps \<open>run\<close> in \<open>GracefulStop\<close>. The snapshotter
  runs on until the context is cancelled, which without a signal only a failed REST server does.\<close>

theorem run_returns_clean:
  assumes "run_start env atoi pf open_db OT H ch w = Inr (sn, svc, p0)" and "proc_step\<^sup>*\<^sup>* p0 p"
  shows "(\<not> pc_signal p \<longrightarrow> pc_phase p = Waiting) \<and>
    (pc_phase p = Returned \<longrightarrow> pc_signal p \<and> pc_rest p = Stopped \<and> pc_grpc p \<noteq> Serving \<and> pc_calls p = 0 \<and> pc_cancelled p \<and>
       (pc_requests p = 0 \<or> 10 * second \<le> pc_waited p)) \<and>
    (pc_phase p = GracefulStopping \<and> 0 < pc_calls p \<longrightarrow> (\<forall>p'. proc_step p p' \<longrightarrow> pc_phase p' = GracefulStopping)) \<and>
    (pc_snapping p \<or> pc_cancelled p) \<and> (pc_cancelled p \<longrightarrow> pc_rest p = Stopped)"
proof -
  have "proc_inv p" using proc_reach_inv [OF assms(2)] run_start_inv [OF assms(1)] by blast
  moreover have "pc_phase p' = GracefulStopping" if "proc_step p p'" "pc_phase p = GracefulStopping" "0 < pc_calls p" for p'
    using stopping_step [OF that(1,2)] that(3) \<open>proc_inv p\<close> by (auto simp: proc_inv_defs)
  ultimately show ?thesis unfolding proc_inv_defs by auto
qed

text \<open>A signal while a REST request runs that does not end: \<open>run\<close> returns after 10 seconds.\<close>

definition sample_host :: "string host" where
  "sample_host = \<lparr>ho_ReadFile = \<lambda>_. Inl [], ho_AppendCertsFromPEM = \<lambda>_. False, ho_LoadX509KeyPair = \<lambda>_ _. Inl [], ho_Listen = \<lambda>_. None\<rparr>"

definition sample_otel :: otel_pkg where
  "sample_otel = \<lparr>ot_resource = \<lambda>_. None, ot_trace = \<lambda>_. None, ot_metric = \<lambda>_. None\<rparr>"

abbreviation sample_start :: "string + (Snapshotter \<times> rat startup \<times> proc)" where
  "sample_start \<equiv> run_start sample_env (\<lambda>_. None) (\<lambda>_. (NaN, True)) (\<lambda>_. None) sample_otel sample_host 0 (failing_world 503)"

abbreviation sample_proc :: proc where
  "sample_proc \<equiv> \<lparr>pc_rest = Serving, pc_requests = 0, pc_grpc = Serving, pc_calls = 0, pc_cancelled = False, pc_snapping = True,
     pc_signal = False, pc_phase = Waiting, pc_waited = 0\<rparr>"

lemma sample_start_eq: "\<exists>sn svc. sample_start = Inr (sn, svc, sample_proc)"
  by (simp add: run_start_def otel_Init_def sample_started NewServer_def env_or_def TrimSpace_def sample_host_def sample_otel_def
      case_prod_beta) (simp add: sample_env_def)

abbreviation stuck_request :: "phase \<Rightarrow> duration \<Rightarrow> proc" where
  "stuck_request ph d \<equiv> sample_proc\<lparr>pc_requests := 1, pc_signal := True, pc_rest := Stopped, pc_phase := ph, pc_waited := d\<rparr>"

lemma sample_shutdown:
  "proc_step\<^sup>*\<^sup>* sample_proc ((stuck_request Returned (10 * second))\<lparr>pc_grpc := Stopped, pc_cancelled := True\<rparr>)"
proof -
  have s1: "proc_step sample_proc (sample_proc\<lparr>pc_requests := 1\<rparr>)" using request [of sample_proc] by simp
  have s2: "proc_step (sample_proc\<lparr>pc_requests := 1\<rparr>) (sample_proc\<lparr>pc_requests := 1, pc_signal := True\<rparr>)"
    using signalled [of "sample_proc\<lparr>pc_requests := 1\<rparr>"] by simp
  have s3: "proc_step (sample_proc\<lparr>pc_requests := 1, pc_signal := True\<rparr>) (stuck_request ShuttingDown 0)"
    using shutdown [of "sample_proc\<lparr>pc_requests := 1, pc_signal := True\<rparr>"] by simp
  have s4: "proc_step (stuck_request ShuttingDown 0) (stuck_request ShuttingDown (10 * second))"
    using time_passes [of "stuck_request ShuttingDown 0" "10 * second"] by simp
  have s5: "proc_step (stuck_request ShuttingDown (10 * second)) (stuck_request GracefulStopping (10 * second))"
    using timed_out [of "stuck_request ShuttingDown (10 * second)"] by simp
  have s6: "proc_step (stuck_request GracefulStopping (10 * second)) ((stuck_request GrpcDown (10 * second))\<lparr>pc_grpc := Stopped\<rparr>)"
    using graceful_stop [of "stuck_request GracefulStopping (10 * second)"] by simp
  have s7: "proc_step ((stuck_request GrpcDown (10 * second))\<lparr>pc_grpc := Stopped\<rparr>)
      ((stuck_request Returned (10 * second))\<lparr>pc_grpc := Stopped, pc_cancelled := True\<rparr>)"
    using returns [of "(stuck_request GrpcDown (10 * second))\<lparr>pc_grpc := Stopped\<rparr>"] by simp
  show ?thesis
    using s1 s2 s3 s4 s5 s6 s7 by (meson rtranclp.rtrancl_into_rtrancl rtranclp.rtrancl_refl)
qed

theorem run_returns_clean_witness:
  "\<exists>sn svc p0 p. sample_start = Inr (sn, svc, p0) \<and> proc_step\<^sup>*\<^sup>* p0 p \<and> pc_phase p = Returned \<and> pc_requests p = 1 \<and> pc_signal p \<and>
     10 * second \<le> pc_waited p"
proof -
  obtain sn svc where s: "sample_start = Inr (sn, svc, sample_proc)" using sample_start_eq by blast
  let ?p = "(stuck_request Returned (10 * second))\<lparr>pc_grpc := Stopped, pc_cancelled := True\<rparr>"
  from run_returns_clean [OF s sample_shutdown] have "pc_signal ?p" "10 * second \<le> pc_waited ?p" by simp_all
  with s sample_shutdown show ?thesis by (intro exI conjI) (assumption, assumption, simp_all)
qed

end
