(* ===== verification/Spec2Isabelle.thy ===== *)
theory Spec2Isabelle
  imports Persistence Reports Concurrent Stream Backend Process
begin

text \<open>
  Verification of the FX and hedging service.

  \<^bold>\<open>The program.\<close> The service keeps a net exposure per currency, hedges it and accounts for the result. A flow
  enters through REST (\<open>internal/api/handlers.go\<close>) and changes the exposure tracker (\<open>internal/exposure\<close>); a
  hedge request is quoted and executed by the FX provider (\<open>internal/provider\<close>), stored (\<open>internal/store\<close>), added to
  the coverage of the tracker, reported to the audit log and to reconciliation (\<open>internal/audit\<close>, \<open>internal/clients\<close>)
  and fed into the rate cache (\<open>internal/ratecache\<close>). A hedge plan enters through gRPC (\<open>internal/grpc\<close>) and is executed
  leg by leg by the router over bank and venue adapters (\<open>internal/executor\<close>). Both ask the hedge policy
  (\<open>internal/policy\<close>). Settlement (\<open>internal/settlement\<close>) nets flows against executed hedges. \<open>cmd/fx-hedging\<close> wires and
  runs it all, \<open>cmd/migrate\<close> prepares the database.

  \<^bold>\<open>Theories.\<close>
  \<^item> \<open>Prelude\<close>, \<open>Float64\<close>, \<open>Decimal\<close>: times, strings, maps and sorting of Go; IEEE binary64 arithmetic on rationals with
    round to nearest even; the decimal package as a parameter.
  \<^item> \<open>Domain\<close>: \<open>internal/domain/types.go\<close>.
  \<^item> \<open>Policy\<close>: \<open>New\<close>, \<open>parseOverrides\<close>, the effective ratio and cap, \<open>Decide\<close> and \<open>Breach\<close>, with bounds over every history
    of configuration, soundness of the decision on the long side, and what goes wrong on the short side and when a
    long exposure is over-covered.
  \<^item> \<open>Tracker\<close>, \<open>Snapshotter\<close>: the exposure book as a locale and its interpretation, its refinement to a ledger of sums,
    exactly-once effect of events, subscriber channels, and the snapshot loop under every schedule.
  \<^item> \<open>Settlement\<close>: \<open>Net\<close> refines a specification by sums, for every map order.
  \<^item> \<open>Store\<close>: the memory store, its invariant, and the interface of a hedge store as a locale.
  \<^item> \<open>Migrations\<close>, \<open>Postgres\<close>: the migration runner over a database with the contract \<open>version_table\<close>, the command, the two
    scripts of the repository as statements on relations, and the Postgres store as operations on tables, with what
    its columns keep of a hedge, a fill and a sample.
  \<^item> \<open>RateCache\<close>, \<open>AuditLog\<close>, \<open>World\<close>, \<open>Clients\<close>, \<open>Provider\<close>: the leaves. \<open>World\<close> holds the clock, UUIDs, HTTP and Kafka as
    arbitrary oracles with a log of what was sent.
  \<^item> \<open>Executor\<close>, \<open>Latency\<close>, \<open>Router\<close>: the adapters, the latency counters also as a step relation of concurrent atomic
    operations, and best quote, single and split execution. The contract of an executor is the locale
    \<open>executor_contract\<close>, interpreted on the adapters of the repository.
  \<^item> \<open>Service\<close>, \<open>Api\<close>, \<open>Views\<close>, \<open>Grpc\<close>: the state of the service and its start, every REST handler, the unary gRPC methods.
  \<^item> \<open>ApiFacts\<close>, \<open>Ledger\<close>, \<open>History\<close>, \<open>HedgeFlow\<close>, \<open>Persistence\<close>, \<open>Reports\<close>: lemmas about the handlers. \<open>Ledger\<close> shows which
    books every request keeps, \<open>History\<close> runs sequences of requests of both kinds, \<open>HedgeFlow\<close> follows one hedge and one
    flow, \<open>Persistence\<close> what no later request undoes, \<open>Reports\<close> the profit and loss report.
  \<^item> \<open>Concurrent\<close>: the handlers of flows and of hedges cut at their locks, and what interleaving keeps and breaks.
  \<^item> \<open>Backend\<close>: the REST handlers over every implementation of the interface \<open>Store\<close>; with the memory store they are the
    handlers above, with the Postgres store what \<open>newService\<close> wires when \<open>DB_URL\<close> is set.
  \<^item> \<open>Stream\<close>: \<open>StreamExposure\<close> under every schedule of its loop and of the operations on the tracker.
  \<^item> \<open>Process\<close>: the gRPC server with its credentials, telemetry, and \<open>run\<close> with its servers and shutdown as a step relation.
  \<^item> This theory: what holds after every history of requests from the start by \<open>newService\<close>.

  \<^bold>\<open>How the code is modelled.\<close> Structs are records, string enumerations are strings, maps are partial functions, or an
  association list where a map is ranged over and its order could show. A handler takes the decoded body and the state
  and returns the response and the state; \<open>None\<close> as a response is a panic, after which the state is what was
  written before it, as \<open>net/http\<close> goes on serving; after a panic of a gRPC handler, which ends the process, the
  histories go on too and so cover more than the program does. Iteration orders of maps and \<open>sort.Slice\<close> are arguments, and the
  properties hold for each. Decimals are a linearly ordered integral domain with the functions that round as a record
  of parameters; \<open>decimal_ok\<close> states what the package documents and \<open>rat_decimal\<close> satisfies it. Floats are exact binary64
  with one zero, no fused multiply-add and no NaN payload. Strings are bytes, and letter case is that of ASCII. Mutexes
  make each method atomic; requests are served one after the other, except in \<open>Latency\<close>, \<open>Snapshotter\<close>, \<open>Stream\<close> and
  \<open>Concurrent\<close>, where the interleaving is the subject. Loops are recursive functions on the list they range over; the retry loops of \<open>Clients\<close>
  have the three attempts of the source. There is no fuel: every definition is total.

  \<^bold>\<open>What is shown.\<close> For every history without a panic: the coverage of a currency is the sum of its executed hedges and
  settlement nets exactly what is open; in all histories stored hedges are well-typed and the store is consistent, a
  request id is answered once and for all, an event counts once. For one request: what an accepted hedge and an accepted
  flow do, that a good request succeeds, and the guards that do not hold. With a database instead of the memory store: that
  a repeated hedge request is executed every time and that settlement does not see it. For the components: the properties beside each.

  \<^bold>\<open>Not modelled.\<close> The gRPC methods are composed with the memory store only, and the histories of this theory are those of
  the memory store. Encoding and decoding of JSON and protobuf (generated code), the contents of log lines, HTTP routing
  beyond the table of \<open>NewMux\<close>, deadlines of contexts, and the batching of OpenTelemetry are left out: they are libraries
  or have no effect on the state. Of the concurrent requests
  the flows are cut at their locks and hedge requests at the lookup of the request id; plans are atomic.
\<close>

section \<open>Reachable states\<close>

definition reachable :: "('x, 'd::linordered_idom) runtime \<Rightarrow> 'x list \<times> 'd Service \<Rightarrow> bool" where
  "reachable U st \<longleftrightarrow> orderly_executor (ru_exec U) \<and>
     (\<exists>env pf open_db w s0 rqs execs panicked. newService env pf open_db w = StartMemory s0 \<and> inj (w_uuid w) \<and>
        run U rqs (execs, s0) = (panicked, st))"

lemma reachable_sound: "reachable U (execs, s) \<Longrightarrow> orderly_executor (ru_exec U) \<and> sound_books s"
  unfolding reachable_def newService_memory using run_keeps fresh_service_sound by blast

lemma started_books:
  assumes "newService env pf open_db w = StartMemory s0" and "inj (w_uuid w)" and "orderly_executor (ru_exec U)"
    and "run U rqs (execs, s0) = (False, execs', s)"
  shows "sound_books s \<and> balanced s"
  using run_keeps [OF assms(3,4)] fresh_service_sound [OF assms(2)] assms(1) by (auto simp: newService_memory)

text \<open>C9. In every reachable state, also after a panic, the hedges of the store are well typed: a positive
  notional, a tenor and a type of the enumerations, each stored under its id, with indices by
  currency and by request id that list exactly the stored hedges.\<close>

theorem stored_hedges_typed:
  assumes "reachable U (execs, s)"
  shows "store_inv (sv_Store s) \<and> (\<forall>i h. Store.GetHedge (sv_Store s) i = Some h \<longrightarrow>
     0 < h_Notional h \<and> IsValidTenor (h_Tenor h) \<and> IsValidHedgeType (h_Type h))"
  using reachable_sound [OF assms] by (auto simp: sound_books_def all_hedges_def typed_hedge_def dest!: map_of_SomeD)

text \<open>C1. After every history of REST and gRPC requests without a panic the tracker and the store agree: the
  coverage of each currency is the sum of the notionals of its executed hedges, it is not negative,
  and no hedge is left pending or executing.\<close>

theorem history_books:
  assumes "newService env pf open_db w = StartMemory s0" and "inj (w_uuid w)" and "orderly_executor (ru_exec U)"
    and "run U rqs (execs, s0) = (False, execs', s)"
  shows "(\<forall>c. cov_of (sv_Tracker s) c = executed_total (sv_Store s) c \<and> 0 \<le> cov_of (sv_Tracker s) c) \<and>
    (\<forall>i h. Store.GetHedge (sv_Store s) i = Some h \<longrightarrow> h_Status h = StatusExecuted \<or> h_Status h = StatusFailed)"
proof -
  have "sound_books s \<and> balanced s" by (rule started_books [OF assms])
  then show ?thesis
    using executed_total_nonneg [of "sv_Store s"]
    by (auto simp: sound_books_def balanced_def all_hedges_def at_rest_def dest!: map_of_SomeD)
qed

text \<open>C5. Settlement reports the open positions: after every history without a panic the settlement request is
  answered with 200, changes no books, and its obligations are per currency the net amount less the
  coverage of the tracker, or that amount is below \<open>1e-9\<close> and nothing is due.\<close>

theorem settlement_is_open:
  assumes "newService env pf open_db w = StartMemory s0" and "inj (w_uuid w)" and "orderly_executor (ru_exec U)"
    and "run U rqs (execs, s0) = (False, execs', s)"
    and "decimal_ok (lib_dec (ru_libs U))" and "\<And>m. finite (dom m) \<Longrightarrow> enumerates (ru_order U m) m"
    and "sorts_by h_CreatedAt (ru_hsort U)" and "sorts_by so_Currency (ru_osort U)"
  shows "\<exists>obs s'. mux U RSettlement s = (Some (200, ObligationsBody obs (int (length obs))), s') \<and> same_books s s' \<and>
    (\<forall>c. let due = net_of (sv_Tracker s) c - cov_of (sv_Tracker s) c
         in sum_obligations c obs = due \<or> sum_obligations c obs = 0 \<and> \<bar>due\<bar> * 10 ^ 9 < 1)"
proof -
  have s: "sound_books s" "balanced s" using started_books [OF assms(1-4)] by simp_all
  then have "finite_tracker (sv_Tracker s)" by (simp add: sound_books_def)
  from settlement_of_books [OF assms(5,6,7,8) this] obtain obs where
    "Settlement_handler (ru_libs U) (ru_order U) (ru_hsort U) (ru_osort U) s =
       (Some (200, ObligationsBody obs (int (length obs))), publish_obligations (ru_libs U) obs s)"
    "\<forall>c. let due = net_of (sv_Tracker s) c - executed_total (sv_Store s) c
         in sum_obligations c obs = due \<or> sum_obligations c obs = 0 \<and> \<bar>due\<bar> * 10 ^ 9 < 1" by blast
  with s(2) later_publish_obligations [of s s "ru_libs U" obs] show ?thesis by (auto simp: balanced_def)
qed

text \<open>C2. Hedge requests are idempotent for ever: once a request with a request id was answered with 201, every
  later valid request with that id is answered with 200 and the same hedge and changes nothing, no
  matter which requests were served in between, even if some of them panicked.\<close>

theorem request_idempotent:
  assumes "reachable U (execs, s)"
    and "mux U (RCreateHedge (Some rq)) s = (Some (201, HedgeBody (Some h)), s1)" and "cr_ClientRequestID rq \<noteq> []"
    and "run U rqs (execs1, s1) = (panicked, execs2, s2)"
    and "cr_ClientRequestID rq2 = cr_ClientRequestID rq" and "cr_Currency rq2 \<noteq> []" and "typed_request rq2"
  shows "mux U (RCreateHedge (Some rq2)) s2 = (Some (200, HedgeBody (Some h)), s2)"
proof -
  have X: "orderly_executor (ru_exec U)" and s: "sound_books s" using reachable_sound [OF assms(1)] by simp_all
  have c: "CreateHedge (ru_libs U) (Some rq) s = (Some (201, HedgeBody (Some h)), s1)" using assms(2) by simp
  have "sound_books s1" using CreateHedge_keeps [OF c s] by blast
  from run_grows [OF X assms(4) this] have "store_extends (sv_Store s1) (sv_Store s2)" by (simp add: grows_def)
  from store_extends_request [OF this CreateHedge_created(6) [OF c assms(3)]] assms(3,5-7) show ?thesis
    by (auto simp: CreateHedge_def Let_def typed_request_def writeJSON_def)
qed

text \<open>C6. Exposure events count once: once an event was accepted, a later delivery with its id is answered with
  200 and changes no books, whatever currency and amount it carries and whatever was served in between.\<close>

theorem event_once:
  assumes "reachable U (execs, s)"
    and "mux U (RAddExposure path (Some rq)) s = (Some (200, ExposureBody e), s1)" and "ar_EventID rq \<noteq> []"
    and "run U rqs (execs1, s1) = (panicked, execs2, s2)"
    and "ar_EventID rq2 = ar_EventID rq" and "ar_Amount rq2 \<noteq> 0" and "ToUpper path2 \<noteq> []"
  shows "\<exists>e2 s3. mux U (RAddExposure path2 (Some rq2)) s2 = (Some (200, ExposureBody e2), s3) \<and> same_books s2 s3"
proof -
  have X: "orderly_executor (ru_exec U)" and s: "sound_books s" using reachable_sound [OF assms(1)] by simp_all
  have c: "AddExposure (ru_libs U) path (Some rq) s = (Some (200, ExposureBody e), s1)" using assms(2) by simp
  have "sound_books s1" using AddExposure_keeps [OF c s] by blast
  from run_grows [OF X assms(4) this] AddExposure_seen [OF c assms(3)] have "ar_EventID rq2 \<in> tr_seen (sv_Tracker s2)"
    by (auto simp: grows_def assms(5))
  from AddExposure_replayed [OF this _ assms(6,7)] assms(3,5) show ?thesis by simp
qed
text \<open>C18. No caller ever gets a live rate: no request sets a revaluation rate, so after every history, for
  every currency, \<open>GetLiveRate\<close> returns an error and never panics.\<close>

theorem live_rate_always_fails:
  "\<exists>resp e. fst (GetLiveRate ccy (snd (snd (run U rqs (execs, fresh_service env pf w))))) = Some (resp, Some e)"
proof -
  have "reval_of (snd (snd (run U rqs (execs, fresh_service env pf w)))) = Some Map.empty"
    using reval_run [of U rqs execs "fresh_service env pf w"] by (simp add: prod_eq_iff reval_of_def cache_New_def)
  then show ?thesis by (rule GetLiveRate_no_reval)
qed

section \<open>A history\<close>

text \<open>One currency gets a flow, and part of it is hedged.\<close>

definition sorted_keys :: "(string \<rightharpoonup> 'v) \<Rightarrow> string list" where
  "sorted_keys m = sorted_list_of_set (dom m)"

definition sample_runtime :: "(executor, rat) runtime" where
  "sample_runtime = \<lparr>ru_libs = sample_libs, ru_exec = repo_executors sample_libs, ru_date = (\<lambda>_. None), ru_time = (\<lambda>_. None),
     ru_order = sorted_keys, ru_forder = sorted_keys, ru_porder = sorted_keys,
     ru_hsort = sort_key h_CreatedAt, ru_osort = sort_key so_Currency\<rparr>"

lemma sample_runtime_fields [simp]:
  "ru_libs sample_runtime = sample_libs" "orderly_executor (ru_exec sample_runtime)" "ru_order sample_runtime = sorted_keys"
  "ru_hsort sample_runtime = sort_key h_CreatedAt" "ru_osort sample_runtime = sort_key so_Currency"
  using repo.orderly_executor_axioms [of sample_libs] by (simp_all add: sample_runtime_def)

lemma sample_reachable [simp]: "reachable sample_runtime (execs, sample_service)"
proof -
  have "run sample_runtime [] (execs, sample_service) = (False, execs, sample_service)" by simp
  with sample_started sample_runtime_fields(2) inj_failing_world show ?thesis unfolding reachable_def by blast
qed

lemma sample_store_unused [simp]: "unused_request store_New q"
  by (simp add: unused_request_def store_New_def GetHedgeByClientRequest_def)

lemma sample_run:
  "\<exists>s. run sample_runtime [Rest (RAddExposure ''EUR'' (Some sample_flow_req)), Rest (RCreateHedge (Some sample_hedge_req))]
     ([], sample_service) = (False, [], s) \<and> net_of (sv_Tracker s) ''EUR'' = 5000000 \<and> cov_of (sv_Tracker s) ''EUR'' = 900"
proof -
  obtain e s1 where s1: "AddExposure sample_libs ''EUR'' (Some sample_flow_req) sample_service = (Some (200, ExposureBody e), s1)"
    and n1: "net_of (sv_Tracker s1) ''EUR'' = 5000000"
    using first_flow_accepted [of "''EUR''" sample_flow_req sample_service sample_libs] by (auto simp: tracker_New_def Seen_def)
  from AddExposure_outcome [OF s1] have b: "sv_Store s1 = store_New" "sv_Policy s1 = Some sample_policy" "quiet_provider (sv_Provider s1)"
    "cov_of (sv_Tracker s1) ''EUR'' = 0"
    by (auto simp: flow_outcome_def tracker_New_def)
  obtain h s2 where s2: "CreateHedge sample_libs (Some sample_hedge_req) s1 = (Some (201, HedgeBody (Some h)), s2)"
    using sample_hedge_created [of s1] b by auto
  have "net_of (sv_Tracker s2) ''EUR'' = 5000000" "cov_of (sv_Tracker s2) ''EUR'' = 900"
    using CreateHedge_created(3,4) [OF s2, of "''EUR''"] n1 b(4) by simp_all
  then show ?thesis using s1 s2 by simp
qed

theorem stored_hedges_typed_witness:
  "\<exists>s. reachable sample_runtime ([], s) \<and> cov_of (sv_Tracker s) ''EUR'' = 900 \<and> store_inv (sv_Store s)"
proof -
  obtain s where s: "run sample_runtime [Rest (RAddExposure ''EUR'' (Some sample_flow_req)), Rest (RCreateHedge (Some sample_hedge_req))]
     ([], sample_service) = (False, [], s)" "cov_of (sv_Tracker s) ''EUR'' = 900" using sample_run by blast
  from s(1) have "reachable sample_runtime ([], s)"
    unfolding reachable_def using sample_started sample_runtime_fields(2) inj_failing_world by blast
  with stored_hedges_typed [OF this] s(2) show ?thesis by blast
qed

theorem history_books_witness:
  "\<exists>s. run sample_runtime [Rest (RAddExposure ''EUR'' (Some sample_flow_req)), Rest (RCreateHedge (Some sample_hedge_req))]
     ([], sample_service) = (False, [], s) \<and> executed_total (sv_Store s) ''EUR'' = 900"
proof -
  obtain s where s: "run sample_runtime [Rest (RAddExposure ''EUR'' (Some sample_flow_req)), Rest (RCreateHedge (Some sample_hedge_req))]
     ([], sample_service) = (False, [], s)" "cov_of (sv_Tracker s) ''EUR'' = 900" using sample_run by blast
  from history_books [OF sample_started inj_failing_world _ s(1)] s show ?thesis by auto
qed

theorem settlement_is_open_witness:
  "\<exists>s obs s'. mux sample_runtime RSettlement s = (Some (200, ObligationsBody obs (int (length obs))), s') \<and>
     sum_obligations ''EUR'' obs = 4999100"
proof -
  obtain s where s: "run sample_runtime [Rest (RAddExposure ''EUR'' (Some sample_flow_req)), Rest (RCreateHedge (Some sample_hedge_req))]
     ([], sample_service) = (False, [], s)" "net_of (sv_Tracker s) ''EUR'' = 5000000" "cov_of (sv_Tracker s) ''EUR'' = 900"
    using sample_run by blast
  have keys: "enumerates (ru_order sample_runtime m) m" if "finite (dom m)" for m
    using that by (simp add: enumerates_def sorted_keys_def)
  from settlement_is_open [OF sample_started inj_failing_world _ s(1) _ keys] obtain obs s' where
    r: "mux sample_runtime RSettlement s = (Some (200, ObligationsBody obs (int (length obs))), s')"
    and d: "\<forall>c. let due = net_of (sv_Tracker s) c - cov_of (sv_Tracker s) c
         in sum_obligations c obs = due \<or> sum_obligations c obs = 0 \<and> \<bar>due\<bar> * 10 ^ 9 < 1" by auto
  have "sum_obligations ''EUR'' obs = 4999100" using d [rule_format, of "''EUR''"] s(2,3) by (simp add: Let_def)
  with r show ?thesis by blast
qed

theorem request_idempotent_witness:
  "\<exists>h s1. mux sample_runtime (RCreateHedge (Some sample_hedge_req)) sample_service = (Some (201, HedgeBody (Some h)), s1) \<and>
     mux sample_runtime (RCreateHedge (Some sample_hedge_req)) s1 = (Some (200, HedgeBody (Some h)), s1)"
proof -
  obtain h s1 where c: "mux sample_runtime (RCreateHedge (Some sample_hedge_req)) sample_service = (Some (201, HedgeBody (Some h)), s1)"
    using sample_hedge_created [of sample_service] by auto
  have "run sample_runtime [] ([], s1) = (False, [], s1)" by simp
  from request_idempotent [OF sample_reachable c _ this, of sample_hedge_req] c show ?thesis by auto
qed

theorem event_once_witness:
  "\<exists>e s1 e2 s2. mux sample_runtime (RAddExposure ''EUR'' (Some sample_flow_req)) sample_service = (Some (200, ExposureBody e), s1) \<and>
     mux sample_runtime (RAddExposure ''EUR'' (Some sample_flow_req)) s1 = (Some (200, ExposureBody e2), s2) \<and>
     net_of (sv_Tracker s2) ''EUR'' = 5000000"
proof -
  obtain e s1 where c: "mux sample_runtime (RAddExposure ''EUR'' (Some sample_flow_req)) sample_service = (Some (200, ExposureBody e), s1)"
    and n: "net_of (sv_Tracker s1) ''EUR'' = 5000000"
    using first_flow_accepted [of "''EUR''" sample_flow_req sample_service sample_libs] by (auto simp: tracker_New_def Seen_def)
  have "run sample_runtime [] ([], s1) = (False, [], s1)" by simp
  from event_once [OF sample_reachable c _ this, of sample_flow_req "''EUR''"] obtain e2 s2 where
    "mux sample_runtime (RAddExposure ''EUR'' (Some sample_flow_req)) s1 = (Some (200, ExposureBody e2), s2)" "same_books s1 s2"
    by auto
  with c n show ?thesis by (auto simp: same_books_def)
qed

end
